theory Spec2Isabelle
  imports Complex_Main "HOL-Library.AList"
begin
section \<open>The chart retention window (src/renderer/js/app.js, updateChart)\<close>

text \<open>
  A chart holds two parallel arrays: the time labels and the values of its first dataset.
  \<^verbatim>\<open>updateChart(chart, value)\<close> returns at once when the chart is missing; otherwise it
  pushes the current time string and the value, and when the label array has grown beyond
  20 entries it shifts one entry off the front of both arrays. The time string comes from
  the clock, so it is an argument of the model.
\<close>

record 'v chart =
  labels :: "string list"
  data :: "'v list"

definition shift :: "'a list \<Rightarrow> 'a list" where
  "shift xs = (case xs of [] \<Rightarrow> [] | _ # ys \<Rightarrow> ys)"

definition updateChart :: "'v chart option \<Rightarrow> string \<Rightarrow> 'v \<Rightarrow> 'v chart option" where
  "updateChart chart timeString v =
     (case chart of
        None \<Rightarrow> None
      | Some c \<Rightarrow>
          (let c1 = c\<lparr>labels := labels c @ [timeString], data := data c @ [v]\<rparr>
           in if length (labels c1) > 20
              then Some (c1\<lparr>labels := shift (labels c1), data := shift (data c1)\<rparr>)
              else Some c1))"

text \<open>A run of pushes, each with the time string the clock gave it.\<close>

fun pushes :: "'v chart option \<Rightarrow> (string \<times> 'v) list \<Rightarrow> 'v chart option" where
  "pushes chart [] = chart"
| "pushes chart ((t, v) # rest) = pushes (updateChart chart t v) rest"

text \<open>The chart as \<^verbatim>\<open>new Chart(...)\<close> creates it in initCharts: no labels, no data.\<close>

definition new_chart :: "'v chart" where
  "new_chart = \<lparr>labels = [], data = []\<rparr>"

text \<open>The last \<open>n\<close> elements of a list.\<close>

definition last_n :: "nat \<Rightarrow> 'a list \<Rightarrow> 'a list" where
  "last_n n xs = drop (length xs - n) xs"

text \<open>Twenty-one pushes of the values 1 to 21, for the concrete run below.\<close>

definition ticks21 :: "(string \<times> nat) list" where
  "ticks21 = map (\<lambda>n. (''t'', n))
     [1, 2, 3, 4, 5, 6, 7, 8, 9, 10, 11, 12, 13, 14, 15, 16, 17, 18, 19, 20, 21]"

section \<open>The sampler of the main process (src/main.js)\<close>

subsection \<open>Numbers\<close>

text \<open>
  The numbers the metrics provider hands over are finite; the model takes them as exact
  rationals. The rounding of IEEE doubles and the negative zero are not modelled, so the
  model agrees with the program wherever the program's arithmetic is exact, as it is in
  the scenarios evaluated below. A division can leave the finite numbers, so its result
  is a \<open>number\<close>: finite, not-a-number, or one of the two infinities.
\<close>

datatype number = Num rat | NaN | PosInfinity | NegInfinity

text \<open>The quotient \<^verbatim>\<open>a / b\<close> of two finite numbers.\<close>

definition js_div :: "rat \<Rightarrow> rat \<Rightarrow> number" where
  "js_div a b =
     (if b = 0 then (if a = 0 then NaN else if a > 0 then PosInfinity else NegInfinity)
      else Num (a / b))"

text \<open>The product \<^verbatim>\<open>x * c\<close> of a number and a finite positive constant.\<close>

definition js_times :: "number \<Rightarrow> rat \<Rightarrow> number" where
  "js_times x c = (case x of Num a \<Rightarrow> Num (a * c) | other \<Rightarrow> other)"

definition digit :: "nat \<Rightarrow> char" where
  "digit n = ''0123456789'' ! n"

fun nat_digits :: "nat \<Rightarrow> string" where
  "nat_digits n = (if n < 10 then [digit n] else nat_digits (n div 10) @ [digit (n mod 10)])"

declare nat_digits.simps [simp del]

text \<open>
  \<^verbatim>\<open>x.toFixed(1)\<close>, following ECMA-262: a value that is not finite prints as its name;
  otherwise the sign is split off, and below \<open>10^21\<close> the magnitude is rounded to the
  nearest tenth, the larger one on a tie, and printed with one digit after the point. From
  \<open>10^21\<close> on the runtime prints the number in exponent notation, which depends on the
  double's shortest decimal form: that text is the parameter \<open>expo\<close>.
\<close>

definition toFixed1 :: "(rat \<Rightarrow> string) \<Rightarrow> number \<Rightarrow> string" where
  "toFixed1 expo x =
     (case x of
        NaN \<Rightarrow> ''NaN''
      | PosInfinity \<Rightarrow> ''Infinity''
      | NegInfinity \<Rightarrow> ''-Infinity''
      | Num a \<Rightarrow>
          (let s = (if a < 0 then ''-'' else ''''); m = \<bar>a\<bar>
           in if m \<ge> 10 ^ 21 then s @ expo m
              else (let n = nat \<lfloor>m * 10 + 1 / 2\<rfloor>
                    in s @ nat_digits (n div 10) @ ''.'' @ [digit (n mod 10)])))"

text \<open>A value of the program that may be a number or a string.\<close>

datatype jsval = JSNumber number | JSString string

text \<open>
  \<^verbatim>\<open>v || 0\<close> for an optional finite number: a missing value (\<^verbatim>\<open>undefined\<close> or
  \<^verbatim>\<open>null\<close>) and zero are falsy and give 0.
\<close>

definition or_zero :: "rat option \<Rightarrow> rat" where
  "or_zero v = (case v of None \<Rightarrow> 0 | Some a \<Rightarrow> if a = 0 then 0 else a)"

subsection \<open>What the metrics provider returns\<close>

text \<open>
  The four queries of the systeminformation library, with the fields the program reads.
  A processor entry carries no temperature in the library's data, and a network rate is
  \<^verbatim>\<open>null\<close> until the library has two samples: both are optional here.
\<close>

record cpu_entry =
  temperature :: "rat option"

record currentLoadData =
  currentLoad :: rat
  cpus :: "cpu_entry list"

record memData =
  total :: rat
  used :: rat
  free :: rat
  active :: rat
  available :: rat

record fsSizeData =
  fs :: string
  fs_size :: rat
  fs_used :: rat
  fs_available :: rat
  use :: rat

record networkStatsData =
  rx_sec :: "rat option"
  tx_sec :: "rat option"
  connections :: "rat option"

text \<open>A query either resolves with its data or rejects with an error message.\<close>

type_synonym 'a outcome = "string + 'a"

record providers =
  q_currentLoad :: "currentLoadData outcome"
  q_mem :: "memData outcome"
  q_fsSize :: "fsSizeData list outcome"
  q_networkStats :: "networkStatsData list outcome"

subsection \<open>The snapshot\<close>

record cpu_snapshot =
  cpu_load :: rat
  cpu_cores :: nat
  cpu_temperature :: rat

record memory_snapshot =
  memory_total :: rat
  memory_used :: rat
  memory_free :: rat
  memory_active :: rat
  memory_available :: rat
  memory_percentage :: jsval

record disk_snapshot =
  disk_fs :: string
  disk_size :: rat
  disk_used :: rat
  disk_available :: rat
  disk_percentage :: rat

record network_snapshot =
  network_rx_sec :: rat
  network_tx_sec :: rat
  network_connections :: rat

record snapshot =
  cpu :: cpu_snapshot
  memory :: memory_snapshot
  disk :: "disk_snapshot list"
  network :: network_snapshot
  timestamp :: int

text \<open>\<^verbatim>\<open>xs[0]?.f\<close>: the field of the first element, missing when the array is empty.\<close>

definition first_field :: "('a \<Rightarrow> 'b option) \<Rightarrow> 'a list \<Rightarrow> 'b option" where
  "first_field f xs = (case xs of [] \<Rightarrow> None | x # _ \<Rightarrow> f x)"

text \<open>The four parts of the object literal that \<^verbatim>\<open>getSystemData\<close> returns.\<close>

definition cpu_part :: "currentLoadData \<Rightarrow> cpu_snapshot" where
  "cpu_part c =
     \<lparr>cpu_load = currentLoad c,
      cpu_cores = length (cpus c),
      cpu_temperature = or_zero (first_field temperature (cpus c))\<rparr>"

definition memory_part :: "(rat \<Rightarrow> string) \<Rightarrow> memData \<Rightarrow> memory_snapshot" where
  "memory_part expo m =
     \<lparr>memory_total = total m,
      memory_used = used m,
      memory_free = free m,
      memory_active = active m,
      memory_available = available m,
      memory_percentage = JSString (toFixed1 expo (js_times (js_div (used m) (total m)) 100))\<rparr>"

definition disk_part :: "fsSizeData \<Rightarrow> disk_snapshot" where
  "disk_part d =
     \<lparr>disk_fs = fs d,
      disk_size = fs_size d,
      disk_used = fs_used d,
      disk_available = fs_available d,
      disk_percentage = use d\<rparr>"

definition network_part :: "networkStatsData list \<Rightarrow> network_snapshot" where
  "network_part n =
     \<lparr>network_rx_sec = or_zero (first_field rx_sec n),
      network_tx_sec = or_zero (first_field tx_sec n),
      network_connections = or_zero (first_field connections n)\<rparr>"

text \<open>
  \<^verbatim>\<open>Promise.all\<close> over the four queries: it resolves with the four results when all
  resolve and rejects with an error of a rejected query otherwise.
\<close>

definition promise_all ::
  "providers \<Rightarrow> (currentLoadData \<times> memData \<times> fsSizeData list \<times> networkStatsData list) outcome" where
  "promise_all p =
     (case q_currentLoad p of Inl e \<Rightarrow> Inl e | Inr c \<Rightarrow>
      (case q_mem p of Inl e \<Rightarrow> Inl e | Inr m \<Rightarrow>
       (case q_fsSize p of Inl e \<Rightarrow> Inl e | Inr d \<Rightarrow>
        (case q_networkStats p of Inl e \<Rightarrow> Inl e | Inr n \<Rightarrow> Inr (c, m, d, n)))))"

text \<open>
  \<^verbatim>\<open>getSystemData\<close>: the snapshot, or \<^verbatim>\<open>null\<close> after logging when the body of its
  \<^verbatim>\<open>try\<close> raised. The second component is what it wrote to the console; \<open>now\<close> is
  \<^verbatim>\<open>Date.now()\<close>.
\<close>

definition getSystemData :: "(rat \<Rightarrow> string) \<Rightarrow> providers \<Rightarrow> int \<Rightarrow> snapshot option \<times> string list" where
  "getSystemData expo p now =
     (case promise_all p of
        Inr (c, m, d, n) \<Rightarrow>
          (Some \<lparr>cpu = cpu_part c,
                 memory = memory_part expo m,
                 disk = map disk_part d,
                 network = network_part n,
                 timestamp = now\<rparr>, [])
      | Inl e \<Rightarrow> (None, [''Error getting system data: '' @ e]))"

subsection \<open>The periodic timer\<close>

text \<open>
  The state of the main process that the sampler touches: the variable
  \<^verbatim>\<open>systemMonitorInterval\<close> (a timer handle, or nothing), the interval timers that are
  active with the delay each was installed with, the next fresh handle,
  \<^verbatim>\<open>config.monitoring.interval\<close>, whether \<^verbatim>\<open>mainWindow\<close> is a window, the
  messages sent to it on the channel \<^verbatim>\<open>system-data-update\<close>, and the console.
\<close>

record main_state =
  systemMonitorInterval :: "nat option"
  timers :: "(nat \<times> int) list"
  next_handle :: nat
  interval :: int
  mainWindow :: bool
  sent :: "snapshot option list"
  console :: "string list"

definition setInterval :: "int \<Rightarrow> main_state \<Rightarrow> nat \<times> main_state" where
  "setInterval delay s =
     (next_handle s, s\<lparr>timers := timers s @ [(next_handle s, delay)],
                        next_handle := Suc (next_handle s)\<rparr>)"

definition clearInterval :: "nat \<Rightarrow> main_state \<Rightarrow> main_state" where
  "clearInterval h s = s\<lparr>timers := filter (\<lambda>t. fst t \<noteq> h) (timers s)\<rparr>"

definition startSystemMonitoring :: "main_state \<Rightarrow> main_state" where
  "startSystemMonitoring s =
     (let s1 = (case systemMonitorInterval s of Some h \<Rightarrow> clearInterval h s | None \<Rightarrow> s);
          (h', s2) = setInterval (interval s1) s1
      in s2\<lparr>systemMonitorInterval := Some h'\<rparr>)"

definition stopSystemMonitoring :: "main_state \<Rightarrow> main_state" where
  "stopSystemMonitoring s =
     (case systemMonitorInterval s of
        Some h \<Rightarrow> (clearInterval h s)\<lparr>systemMonitorInterval := None\<rparr>
      | None \<Rightarrow> s)"

text \<open>
  One firing of the timer's callback. Sending to a window that is gone raises, and the
  callback's own \<^verbatim>\<open>try\<close> catches that and logs it.
\<close>

definition monitor_tick :: "(rat \<Rightarrow> string) \<Rightarrow> providers \<Rightarrow> int \<Rightarrow> main_state \<Rightarrow> main_state" where
  "monitor_tick expo p now s =
     (let (data, logged) = getSystemData expo p now;
          s1 = s\<lparr>console := console s @ logged\<rparr>
      in if mainWindow s1 then s1\<lparr>sent := sent s1 @ [data]\<rparr>
         else s1\<lparr>console := console s1 @ [''System monitoring error: mainWindow is null'']\<rparr>)"

text \<open>
  The state when the program starts, and the invariant of the sampler: the active timers
  are exactly the one whose handle the variable holds, and no handle is ahead of the
  counter.
\<close>

definition initial_main :: "int \<Rightarrow> main_state" where
  "initial_main i =
     \<lparr>systemMonitorInterval = None, timers = [], next_handle = 1, interval = i,
      mainWindow = True, sent = [], console = []\<rparr>"

definition handles_of :: "nat option \<Rightarrow> nat list" where
  "handles_of v = (case v of None \<Rightarrow> [] | Some h \<Rightarrow> [h])"

definition monitor_inv :: "main_state \<Rightarrow> bool" where
  "monitor_inv s =
     (map fst (timers s) = handles_of (systemMonitorInterval s)
      \<and> list_all (\<lambda>t. fst t < next_handle s) (timers s))"

text \<open>The results of the provider in the two concrete runs evaluated below.\<close>

definition sample_cpu :: currentLoadData where
  "sample_cpu = \<lparr>currentLoad = 42, cpus = [\<lparr>temperature = None\<rparr>, \<lparr>temperature = None\<rparr>]\<rparr>"

definition sample_mem :: memData where
  "sample_mem = \<lparr>total = 1000, used = 500, free = 500, active = 400, available = 600\<rparr>"

definition sample_disk :: fsSizeData where
  "sample_disk = \<lparr>fs = ''C:'', fs_size = 2000, fs_used = 1400, fs_available = 600, use = 70\<rparr>"

definition sample_net :: networkStatsData where
  "sample_net = \<lparr>rx_sec = Some 100, tx_sec = Some 50, connections = None\<rparr>"

definition providers_ok :: providers where
  "providers_ok = \<lparr>q_currentLoad = Inr sample_cpu, q_mem = Inr sample_mem,
                    q_fsSize = Inr [sample_disk], q_networkStats = Inr [sample_net]\<rparr>"

definition providers_disk_down :: providers where
  "providers_disk_down = providers_ok\<lparr>q_fsSize := Inl ''EIO''\<rparr>"

section \<open>The plugin system of the renderer (src/renderer/js/app.js, class PluginSystem)\<close>

subsection \<open>Values of JSON\<close>

text \<open>
  What \<^verbatim>\<open>JSON.parse\<close> returns. A string is its sequence of code units. A number is kept
  as an integer mantissa and a power of ten, \<open>JNumber m e\<close> standing for \<open>m * 10^e\<close>; the
  parser below delivers it normalised (no factor ten left in the mantissa, zero as
  \<open>JNumber 0 0\<close>), and as with the sampler's numbers the rounding to a double is not
  modelled. An object keeps its members as they were written; a lookup takes the last
  member of that name, as the parsed object holds it.
\<close>

datatype json =
    JNull
  | JBool bool
  | JNumber int int
  | JString "nat list"
  | JArray "json list"
  | JObject "(nat list \<times> json) list"

definition units :: "string \<Rightarrow> nat list" where
  "units s = map of_char s"

text \<open>Whether a value counts as true in a condition.\<close>

fun truthy :: "json \<Rightarrow> bool" where
  "truthy JNull = False"
| "truthy (JBool b) = b"
| "truthy (JNumber m e) = (m \<noteq> 0)"
| "truthy (JString s) = (s \<noteq> [])"
| "truthy (JArray xs) = True"
| "truthy (JObject kvs) = True"

text \<open>
  \<^verbatim>\<open>v.name\<close>: reading a property of \<^verbatim>\<open>null\<close> raises a TypeError; an object gives
  the member or \<^verbatim>\<open>undefined\<close>; the other kinds have no property of a plugin's field
  names.
\<close>

fun property :: "string \<Rightarrow> json \<Rightarrow> string + json option" where
  "property k JNull = Inl ''TypeError''"
| "property k (JObject kvs) = Inr (map_of (rev kvs) (units k))"
| "property k v = Inr None"

text \<open>\<^verbatim>\<open>v?.name\<close>, where \<open>v\<close> may be missing: a missing or null value gives \<^verbatim>\<open>undefined\<close>.\<close>

definition optional_property :: "string \<Rightarrow> json option \<Rightarrow> json option" where
  "optional_property k v =
     (case v of None \<Rightarrow> None
      | Some j \<Rightarrow> (case property k j of Inl _ \<Rightarrow> None | Inr r \<Rightarrow> r))"

subsection \<open>Plugin code\<close>

text \<open>
  A plugin is JavaScript text, which this development does not interpret. The text is
  the body of a function with the parameters \<^verbatim>\<open>exports\<close>, \<^verbatim>\<open>require\<close> and \<^verbatim>\<open>api\<close>,
  made by \<^verbatim>\<open>new Function\<close>, so it runs in the global scope of the page: a name that is
  not one of the three parameters is a global of the page or raises a ReferenceError.

  What is kept of the code is what it does to its surroundings, in order: \<open>Call n m args\<close>
  is a call that goes through the name \<open>n\<close>, of the member \<open>m\<close> of the value of that name
  (of the value itself when \<open>m\<close> is empty), with its arguments as strings;
  \<open>AssignInit n body\<close> is the assignment of a function to the member \<^verbatim>\<open>init\<close> of the
  value of \<open>n\<close>, kept with what that function does; \<open>AssignInitValue n t\<close> is the
  assignment of a value that is no function, truthy or not; \<open>Throw\<close> is an exception the
  code raises itself; \<open>TryCatch body handler\<close> is a \<^verbatim>\<open>try\<close> statement, whose handler
  runs when the body raises. A call through an object of the page that an earlier
  call returned (a DOM node, say) counts as a call through a global name. Calls run to
  their end before the next one starts: a promise the code leaves unsettled, an
  \<^verbatim>\<open>init\<close> that never returns and work the code defers with a timer are outside
  the model.
\<close>

datatype action =
    Call string string "string list"
  | AssignInit string "action list"
  | AssignInitValue string bool
  | Throw string
  | TryCatch "action list" "action list"

text \<open>
  The member \<^verbatim>\<open>init\<close> of the module's exports: absent or falsy, something that cannot
  be called, or a function.
\<close>

datatype init_export = NoInit | NotCallable | Init "action list"

text \<open>The \<open>i\<close>-th argument of a call; a missing one is \<^verbatim>\<open>undefined\<close>.\<close>

definition argument :: "nat \<Rightarrow> string list \<Rightarrow> string" where
  "argument i args = (if i < length args then args ! i else ''undefined'')"

subsection \<open>The state\<close>

text \<open>
  An entry of the plugin configuration. \<open>enabled\<close> is false also where the property is
  absent or falsy. The settings are not looked into.
\<close>

record config_entry =
  enabled :: bool
  settings :: "json option"

text \<open>A line on the console: its level, the fixed text, and the value or error put into it.\<close>

datatype console_line =
    is_Log: Log string "json option"
  | is_Err: Err string string

text \<open>
  The two maps of the class are JavaScript Maps, which keep their keys in insertion order:
  association lists, updated in place and extended at the end. \<open>nav_items\<close> lists the
  \<^verbatim>\<open>data-tab\<close> attributes of the document's elements and \<open>tab_contents\<close> the ids of
  the tab panes, both in document order. \<open>files\<close> is what \<^verbatim>\<open>readFile\<close> sees (a missing
  or unreadable file reads as \<^verbatim>\<open>null\<close>); \<open>saved_configs\<close> is the mapping that the
  configuration document on disk encodes, \<open>disk_ok\<close> whether a write to the disk succeeds, and
  \<open>uiUtils\<close> whether \<^verbatim>\<open>window.uiUtils\<close> exists. A notification is its text, the value put
  into the text, and its type.
\<close>

record plugin_system =
  plugins :: "(string \<times> json) list"
  pluginConfigs :: "(string \<times> config_entry) list"
  activePlugins :: "string set"
  nav_items :: "string list"
  tab_contents :: "string list"
  files :: "(string \<times> string) list"
  saved_configs :: "(string \<times> config_entry) list option"
  disk_ok :: bool
  uiUtils :: bool
  notifications :: "(string \<times> json option \<times> string) list"
  plugin_console :: "console_line list"

definition pluginDirectory :: string where
  "pluginDirectory = ''plugins''"

definition readFile :: "string \<Rightarrow> plugin_system \<Rightarrow> string option" where
  "readFile path s = map_of (files s) path"

definition console_add :: "console_line \<Rightarrow> plugin_system \<Rightarrow> plugin_system" where
  "console_add l s = s\<lparr>plugin_console := plugin_console s @ [l]\<rparr>"

text \<open>\<^verbatim>\<open>window.uiUtils?.showNotification(message, type)\<close>\<close>

definition showNotification :: "string \<Rightarrow> json option \<Rightarrow> string \<Rightarrow> plugin_system \<Rightarrow> plugin_system" where
  "showNotification message v type s =
     (if uiUtils s then s\<lparr>notifications := notifications s @ [(message, v, type)]\<rparr> else s)"


subsection \<open>The page and the machine\<close>

text \<open>
  What the loader and its plugins rely on and this repository does not hold.
  \<open>parse_body t\<close> is what \<^verbatim>\<open>new Function('exports', 'require', 'api', t)\<close> makes of
  the text: the behaviour of the body, or nothing when the text is not a function body
  (a SyntaxError). \<open>global_call n m args\<close> is what a call through the global name \<open>n\<close>
  does to the plugin system and whether it raises; nothing is assumed of it, since the
  whole page, the plugin system included, can be reached from \<^verbatim>\<open>window\<close>.
  \<open>builtin_method m\<close> says whether every object has a method of that name.
  \<open>api_helper m args\<close> is what one of the reading and formatting helpers of the
  capability object does: whether it raises and what it writes to the console.
  \<open>shell c\<close> is what running the command \<open>c\<close> does to the files and to the configuration
  document. \<open>decode_configs t\<close> is the mapping that a configuration document of text \<open>t\<close>
  encodes. \<open>data_tab_selector t\<close> is the attribute value that the selector
  \<^verbatim>\<open>[data-tab="t"]\<close> matches, or nothing when the selector is rejected; for a \<open>t\<close> free
  of quotes, backslashes and line breaks it is \<open>t\<close> itself.
\<close>

record host =
  parse_body :: "string \<Rightarrow> action list option"
  global_call :: "string \<Rightarrow> string \<Rightarrow> string list \<Rightarrow> plugin_system \<Rightarrow> string option \<times> plugin_system"
  builtin_method :: "string \<Rightarrow> bool"
  api_helper :: "string \<Rightarrow> string list \<Rightarrow> string option \<times> console_line list"
  shell :: "string \<Rightarrow> (string \<times> string) list \<times> (string \<times> config_entry) list option
              \<Rightarrow> (string \<times> string) list \<times> (string \<times> config_entry) list option"
  decode_configs :: "string \<Rightarrow> (string \<times> config_entry) list option"
  data_tab_selector :: "string \<Rightarrow> string option"

subsection \<open>Tabs\<close>

text \<open>
  \<^verbatim>\<open>createPluginTab\<close> appends a navigation item and a tab pane, both named
  \<^verbatim>\<open>plugin-\<close> followed by the id; the side bar and the main pane they are appended to are
  part of the page. \<^verbatim>\<open>removePluginTab\<close> removes the first element that the selector
  finds and the first element of that id. The selector is evaluated first, so when it is
  rejected nothing has been removed.
\<close>

definition createPluginTab :: "string \<Rightarrow> string \<Rightarrow> plugin_system \<Rightarrow> plugin_system" where
  "createPluginTab pluginId title s =
     (let tabId = ''plugin-'' @ pluginId
      in s\<lparr>nav_items := nav_items s @ [tabId], tab_contents := tab_contents s @ [tabId]\<rparr>)"

definition removePluginTab :: "host \<Rightarrow> string \<Rightarrow> plugin_system \<Rightarrow> string + plugin_system" where
  "removePluginTab h pluginId s =
     (let tabId = ''plugin-'' @ pluginId
      in case data_tab_selector h tabId of
           None \<Rightarrow> Inl ''SyntaxError''
         | Some v \<Rightarrow> Inr (s\<lparr>nav_items := remove1 v (nav_items s),
                             tab_contents := remove1 tabId (tab_contents s)\<rparr>))"

subsection \<open>The capability object (createPluginAPI)\<close>

text \<open>
  \<^verbatim>\<open>writePluginFile\<close> hands the path and the content to the main process, which
  reports a failed write by its result. The configuration document is kept apart from
  the other files, as the mapping it encodes, so a write to its path changes that
  mapping. \<^verbatim>\<open>executePluginCommand\<close> runs a command on the machine.
\<close>

definition configFile :: string where
  "configFile = ''plugin-config.json''"

definition writePluginFile :: "host \<Rightarrow> string \<Rightarrow> string \<Rightarrow> plugin_system \<Rightarrow> plugin_system" where
  "writePluginFile h path content s =
     (if \<not> disk_ok s then s
      else if path = pluginDirectory @ ''/'' @ configFile
        then s\<lparr>saved_configs := decode_configs h content\<rparr>
      else s\<lparr>files := AList.update path content (files s)\<rparr>)"

definition executePluginCommand :: "host \<Rightarrow> string \<Rightarrow> plugin_system \<Rightarrow> plugin_system" where
  "executePluginCommand h command s =
     (let (fs, saved) = shell h command (files s, saved_configs s)
      in s\<lparr>files := fs, saved_configs := saved\<rparr>)"

text \<open>
  The members of the capability object that read, format, build an element that is not
  yet part of the page, or keep and call the plugin's own event handlers. They change
  nothing of the state kept here but the console, to which some of them write when they
  fail. (What a handler called by \<^verbatim>\<open>emit\<close> does counts as done by the code that calls
  \<^verbatim>\<open>emit\<close>.)
\<close>

definition api_helpers :: "string list" where
  "api_helpers =
     [''getSystemData'', ''getProcesses'', ''getConfig'', ''getStorage'', ''setStorage'',
      ''formatBytes'', ''formatPercentage'', ''on'', ''emit'', ''createCard'', ''createButton'',
      ''createChart'', ''readFile'']"

text \<open>
  A call of the member \<open>m\<close> of the capability object. \<^verbatim>\<open>showNotification\<close> takes
  \<^verbatim>\<open>info\<close> for a missing type. A member the object does not have is \<^verbatim>\<open>undefined\<close>,
  and calling it raises a TypeError.
\<close>

definition pluginAPI_call ::
  "host \<Rightarrow> string \<Rightarrow> string list \<Rightarrow> plugin_system \<Rightarrow> string option \<times> plugin_system" where
  "pluginAPI_call h m args s =
     (if m = ''createTab'' then (None, createPluginTab (argument 0 args) (argument 1 args) s)
      else if m = ''removeTab''
        then (case removePluginTab h (argument 0 args) s of
                Inl e \<Rightarrow> (Some e, s)
              | Inr s' \<Rightarrow> (None, s'))
      else if m = ''showNotification''
        then (None, showNotification (argument 0 args) None
                      (if length args < 2 then ''info'' else args ! 1) s)
      else if m = ''writeFile'' then (None, writePluginFile h (argument 0 args) (argument 1 args) s)
      else if m = ''executeCommand'' then (None, executePluginCommand h (argument 0 args) s)
      else if m \<in> set api_helpers
        then (fst (api_helper h m args),
              s\<lparr>plugin_console := plugin_console s @ snd (api_helper h m args)\<rparr>)
      else if m \<noteq> [] \<and> builtin_method h m then (None, s)
      else (Some ''TypeError'', s))"

subsection \<open>Loading\<close>

text \<open>
  The module resolution function handed to a plugin. \<open>globals\<close> gives the truthy property of
  \<^verbatim>\<open>window\<close> under a name, and \<open>fresh\<close> is the new object \<^verbatim>\<open>{}\<close> returned in its place.
\<close>

definition allowedModules :: "string list" where
  "allowedModules = [''chart.js'']"

definition moduleRequire :: "(string \<Rightarrow> 'o option) \<Rightarrow> 'o \<Rightarrow> string \<Rightarrow> string + 'o" where
  "moduleRequire globals fresh m =
     (if m \<in> set allowedModules
      then Inr (case globals m of Some g \<Rightarrow> g | None \<Rightarrow> fresh)
      else Inl (''Module '' @ m @ '' not allowed in plugins''))"

text \<open>
  \<^verbatim>\<open>pluginFunction(moduleExports, moduleRequire, this.pluginAPI)\<close>: the function made
  from the text has the three parameter names, and the call gives them, in this order,
  the fresh exports object, the module resolution function and the capability object.
  \<open>bound n\<close> is the value the name \<open>n\<close> has in the body by that, if it has one.
\<close>

datatype binding = ModuleExports | ModuleRequire | PluginAPI

definition pluginFunction_params :: "string list" where
  "pluginFunction_params = [''exports'', ''require'', ''api'']"

definition pluginFunction_args :: "binding list" where
  "pluginFunction_args = [ModuleExports, ModuleRequire, PluginAPI]"

definition bound :: "string \<Rightarrow> binding option" where
  "bound n = map_of (zip pluginFunction_params pluginFunction_args) n"

text \<open>
  A call through the name \<open>n\<close>. Through \<^verbatim>\<open>require\<close> it is a call of the module
  resolution function, whose result has no effect on the state, so the globals are left
  unspecified. The exports object is a fresh \<^verbatim>\<open>{}\<close> and has the methods that every
  object has. A name that is not bound is looked up in the global scope.
\<close>

definition call ::
  "host \<Rightarrow> string \<Rightarrow> string \<Rightarrow> string list \<Rightarrow> plugin_system \<Rightarrow> string option \<times> plugin_system" where
  "call h n m args s =
     (case bound n of
        None \<Rightarrow> global_call h n m args s
      | Some ModuleRequire \<Rightarrow>
          if m = []
          then (case moduleRequire (\<lambda>_. None) () (argument 0 args) of
                  Inl e \<Rightarrow> (Some e, s)
                | Inr _ \<Rightarrow> (None, s))
          else (if builtin_method h m then None else Some ''TypeError'', s)
      | Some ModuleExports \<Rightarrow> (if m \<noteq> [] \<and> builtin_method h m then None else Some ''TypeError'', s)
      | Some PluginAPI \<Rightarrow> pluginAPI_call h m args s)"

text \<open>
  An assignment to the member \<^verbatim>\<open>init\<close> through the name \<open>n\<close>: through a bound name
  it changes nothing of the state; through a global name it is left to the page, like a
  call.
\<close>

definition assign :: "host \<Rightarrow> string \<Rightarrow> plugin_system \<Rightarrow> string option \<times> plugin_system" where
  "assign h n s = (case bound n of None \<Rightarrow> global_call h n ''init'' [] s | Some _ \<Rightarrow> (None, s))"

text \<open>
  Running code from a state of the exports, of which the member \<^verbatim>\<open>init\<close> is kept, and
  of the plugin system: the error that ended it, if any, and the states it left. An
  exception ends the run unless it is raised in the body of a \<^verbatim>\<open>try\<close> statement, where
  the handler takes over.
\<close>

function (sequential) run_actions ::
  "host \<Rightarrow> action list \<Rightarrow> init_export \<times> plugin_system \<Rightarrow> string option \<times> init_export \<times> plugin_system" where
  "run_actions h [] (ex, s) = (None, ex, s)"
| "run_actions h (Call n m args # rest) (ex, s) =
     (case call h n m args s of
        (Some e, s1) \<Rightarrow> (Some e, ex, s1)
      | (None, s1) \<Rightarrow> run_actions h rest (ex, s1))"
| "run_actions h (AssignInit n body # rest) (ex, s) =
     (case assign h n s of
        (Some e, s1) \<Rightarrow> (Some e, ex, s1)
      | (None, s1) \<Rightarrow> run_actions h rest (if bound n = Some ModuleExports then Init body else ex, s1))"
| "run_actions h (AssignInitValue n t # rest) (ex, s) =
     (case assign h n s of
        (Some e, s1) \<Rightarrow> (Some e, ex, s1)
      | (None, s1) \<Rightarrow>
          run_actions h rest
            (if bound n = Some ModuleExports then (if t then NotCallable else NoInit) else ex, s1))"
| "run_actions h (Throw e # rest) (ex, s) = (Some e, ex, s)"
| "run_actions h (TryCatch body handler # rest) (ex, s) =
     (case run_actions h body (ex, s) of
        (None, ex1, s1) \<Rightarrow> run_actions h rest (ex1, s1)
      | (Some e, ex1, s1) \<Rightarrow>
          (case run_actions h handler (ex1, s1) of
             (None, ex2, s2) \<Rightarrow> run_actions h rest (ex2, s2)
           | (Some e', ex2, s2) \<Rightarrow> (Some e', ex2, s2)))"
  by pat_completeness auto

termination run_actions
  by (relation "measure (\<lambda>(h, acts, x). size_list size acts)") auto

text \<open>
  \<^verbatim>\<open>createPluginModule\<close>. A content of \<^verbatim>\<open>null\<close> is converted to the body
  \<^verbatim>\<open>null\<close>. The result is the \<^verbatim>\<open>init\<close> member of the exports, or nothing for the
  \<^verbatim>\<open>null\<close> returned after an exception.
\<close>

definition createPluginModule ::
  "host \<Rightarrow> string option \<Rightarrow> plugin_system \<Rightarrow> init_export option \<times> plugin_system" where
  "createPluginModule h content s =
     (case parse_body h (case content of None \<Rightarrow> ''null'' | Some c \<Rightarrow> c) of
        None \<Rightarrow> (None, console_add (Err ''Failed to create plugin module:'' ''SyntaxError'') s)
      | Some body \<Rightarrow>
          (case run_actions h body (NoInit, s) of
             (Some e, ex, s1) \<Rightarrow> (None, console_add (Err ''Failed to create plugin module:'' e) s1)
           | (None, ex, s1) \<Rightarrow> (Some ex, s1)))"

definition load_failed :: "string \<Rightarrow> string \<Rightarrow> plugin_system \<Rightarrow> plugin_system" where
  "load_failed pluginPath e s = console_add (Err (''Failed to load plugin '' @ pluginPath @ '':'') e) s"

text \<open>
  \<^verbatim>\<open>loadPlugin\<close>. The module is added to the active set after its \<^verbatim>\<open>init\<close> has
  returned; the log line that follows reads \<^verbatim>\<open>metadata.name\<close>. Every exception ends in
  the \<^verbatim>\<open>catch\<close>, which writes to the console.
\<close>

definition loadPlugin :: "host \<Rightarrow> string \<Rightarrow> json \<Rightarrow> plugin_system \<Rightarrow> plugin_system" where
  "loadPlugin h pluginPath metadata s =
     (case createPluginModule h (readFile (pluginDirectory @ ''/'' @ pluginPath) s) s of
        (None, s1) \<Rightarrow> s1
      | (Some NoInit, s1) \<Rightarrow> s1
      | (Some NotCallable, s1) \<Rightarrow> load_failed pluginPath ''TypeError'' s1
      | (Some (Init body), s1) \<Rightarrow>
          (case run_actions h body (Init body, s1) of
             (Some e, ex, s2) \<Rightarrow> load_failed pluginPath e s2
           | (None, ex, s2) \<Rightarrow>
               (let s3 = s2\<lparr>activePlugins := insert pluginPath (activePlugins s2)\<rparr>
                in case property ''name'' metadata of
                     Inl e \<Rightarrow> load_failed pluginPath e s3
                   | Inr name \<Rightarrow> console_add (Log ''Plugin loaded: '' name) s3)))"

subsection \<open>Unloading, saving, toggling, deleting\<close>

definition unloadPlugin :: "host \<Rightarrow> string \<Rightarrow> plugin_system \<Rightarrow> plugin_system" where
  "unloadPlugin h pluginPath s =
     (case removePluginTab h pluginPath s of
        Inl e \<Rightarrow> console_add (Err ''Failed to unload plugin:'' e) s
      | Inr s1 \<Rightarrow>
          console_add
            (Log ''Plugin unloaded: '' (optional_property ''name'' (map_of (plugins s1) pluginPath)))
            (s1\<lparr>activePlugins := activePlugins s1 - {pluginPath}\<rparr>))"

text \<open>
  \<^verbatim>\<open>savePluginConfigs\<close> writes the whole configuration map to the document. The write
  reports a failure by its result, which is not looked at, so a failed write leaves the
  document as it was and nothing on the console.
\<close>

definition savePluginConfigs :: "plugin_system \<Rightarrow> plugin_system" where
  "savePluginConfigs s = (if disk_ok s then s\<lparr>saved_configs := Some (pluginConfigs s)\<rparr> else s)"

text \<open>
  \<^verbatim>\<open>togglePlugin\<close>, as the list of the states after each of its steps: the entry of the
  map is set; the module is loaded or unloaded; the configuration is saved; the
  notification is shown. (Redrawing the list of plugins changes nothing modelled here.)
  Each step catches its own exceptions, so the \<^verbatim>\<open>catch\<close> of \<^verbatim>\<open>togglePlugin\<close> itself
  has nothing to catch.
\<close>

definition set_enabled :: "string \<Rightarrow> bool \<Rightarrow> plugin_system \<Rightarrow> plugin_system" where
  "set_enabled pluginPath en s =
     (let config = (case map_of (pluginConfigs s) pluginPath of
                      Some c \<Rightarrow> c
                    | None \<Rightarrow> \<lparr>enabled = False, settings = None\<rparr>)
      in s\<lparr>pluginConfigs := AList.update pluginPath (config\<lparr>enabled := en\<rparr>) (pluginConfigs s)\<rparr>)"

definition load_or_unload :: "host \<Rightarrow> string \<Rightarrow> bool \<Rightarrow> plugin_system \<Rightarrow> plugin_system" where
  "load_or_unload h pluginPath en s =
     (if en
      then (case map_of (plugins s) pluginPath of
              Some metadata \<Rightarrow> if truthy metadata then loadPlugin h pluginPath metadata s else s
            | None \<Rightarrow> s)
      else unloadPlugin h pluginPath s)"

definition togglePlugin_states :: "host \<Rightarrow> string \<Rightarrow> bool \<Rightarrow> plugin_system \<Rightarrow> plugin_system list" where
  "togglePlugin_states h pluginPath en s =
     (let s1 = set_enabled pluginPath en s;
          s2 = load_or_unload h pluginPath en s1;
          s3 = savePluginConfigs s2;
          s4 = showNotification (if en then ''Plugin enabled: '' else ''Plugin disabled: '')
                 (optional_property ''name'' (map_of (plugins s3) pluginPath)) ''success'' s3
      in [s1, s2, s3, s4])"


text \<open>
  \<^verbatim>\<open>deletePlugin\<close>, again as the states after each step; \<open>confirmed\<close> is the answer to
  the question \<^verbatim>\<open>confirm\<close> puts to the operator. Without it nothing happens.
\<close>

definition deletePlugin_states :: "host \<Rightarrow> string \<Rightarrow> plugin_system \<Rightarrow> plugin_system list" where
  "deletePlugin_states h pluginPath s =
     (let s1 = unloadPlugin h pluginPath s;
          s2 = s1\<lparr>plugins := AList.delete pluginPath (plugins s1)\<rparr>;
          s3 = s2\<lparr>pluginConfigs := AList.delete pluginPath (pluginConfigs s2)\<rparr>;
          s4 = savePluginConfigs s3;
          s5 = showNotification ''Plugin deleted'' None ''success'' s4
      in [s1, s2, s3, s4, s5])"

definition deletePlugin :: "host \<Rightarrow> bool \<Rightarrow> string \<Rightarrow> plugin_system \<Rightarrow> plugin_system" where
  "deletePlugin h confirmed pluginPath s =
     (if confirmed then last (deletePlugin_states h pluginPath s) else s)"

subsection \<open>What a module's code does\<close>

text \<open>
  The text that \<^verbatim>\<open>loadPlugin\<close> hands to \<^verbatim>\<open>new Function\<close> for a path (a file that
  cannot be read comes as \<^verbatim>\<open>null\<close>), and the code it stands for: none when the text
  is not a function body.
\<close>

definition module_text :: "string \<Rightarrow> plugin_system \<Rightarrow> string" where
  "module_text pluginPath s =
     (case readFile (pluginDirectory @ ''/'' @ pluginPath) s of None \<Rightarrow> ''null'' | Some c \<Rightarrow> c)"

definition module_code :: "host \<Rightarrow> string \<Rightarrow> plugin_system \<Rightarrow> action list" where
  "module_code h pluginPath s =
     (case parse_body h (module_text pluginPath s) of None \<Rightarrow> [] | Some body \<Rightarrow> body)"

text \<open>
  How the code of a module behaves when its top-level code is run and then, if it has
  exported one, its \<^verbatim>\<open>init\<close>: the text is no function body; the top-level code raises;
  there is no \<^verbatim>\<open>init\<close>; \<^verbatim>\<open>init\<close> cannot be called; \<^verbatim>\<open>init\<close> raises; or both return.
  With it comes the state in which the code leaves the plugin system.
\<close>

datatype load_outcome =
    NotScript | TopLevelRaised string | NoEntry | EntryNotCallable | EntryRaised string | Completed

definition module_outcome :: "host \<Rightarrow> string \<Rightarrow> plugin_system \<Rightarrow> load_outcome \<times> plugin_system" where
  "module_outcome h pluginPath s =
     (case parse_body h (module_text pluginPath s) of
        None \<Rightarrow> (NotScript, s)
      | Some body \<Rightarrow>
          (case run_actions h body (NoInit, s) of
             (Some e, ex, s1) \<Rightarrow> (TopLevelRaised e, s1)
           | (None, NoInit, s1) \<Rightarrow> (NoEntry, s1)
           | (None, NotCallable, s1) \<Rightarrow> (EntryNotCallable, s1)
           | (None, Init entry, s1) \<Rightarrow>
               (case run_actions h entry (Init entry, s1) of
                  (Some e, ex, s2) \<Rightarrow> (EntryRaised e, s2)
                | (None, ex, s2) \<Rightarrow> (Completed, s2))))"









text \<open>
  The part of the state that the statements of \<^verbatim>\<open>loadPlugin\<close> and
  \<^verbatim>\<open>unloadPlugin\<close> themselves do not write: the two maps, the files, the saved
  configuration, and the notifications.
\<close>

definition registry :: "plugin_system \<Rightarrow>
    (string \<times> json) list \<times> (string \<times> config_entry) list \<times> (string \<times> string) list
      \<times> (string \<times> config_entry) list option \<times> bool \<times> bool \<times> (string \<times> json option \<times> string) list" where
  "registry s =
     (plugins s, pluginConfigs s, files s, saved_configs s, disk_ok s, uiUtils s, notifications s)"

subsection \<open>Concrete plugins for the runs evaluated below\<close>

text \<open>
  A page whose selectors are all accepted as written, whose one global is the console,
  and that knows these plugin sources: one whose \<^verbatim>\<open>init\<close> raises; one whose
  \<^verbatim>\<open>init\<close> returns at once; one that, like the bundled network monitor, opens the tab
  \<^verbatim>\<open>network-monitor\<close>; one whose \<^verbatim>\<open>init\<close> tells the operator itself before it raises;
  one whose \<^verbatim>\<open>init\<close> writes the configuration document; one that asks for the module
  \<^verbatim>\<open>fs\<close>; one that asks for \<^verbatim>\<open>chart.js\<close>, opens a tab and exports an \<^verbatim>\<open>init\<close>;
  one that writes to the console; and one that asks for \<^verbatim>\<open>fs\<close> inside a \<^verbatim>\<open>try\<close>
  statement. The text \<^verbatim>\<open>null\<close>, which stands for a missing file, is an empty body.
\<close>

definition src_bad :: string where
  \<open>src_bad = ''exports.init = async function(api) { throw new Error("boom"); };''\<close>

definition src_good :: string where
  \<open>src_good = ''exports.init = async function(api) {};''\<close>

definition src_monitor :: string where
  \<open>src_monitor = ''exports.init = async function(api) { api.createTab("network-monitor", "Network Monitor"); };''\<close>

definition src_telling :: string where
  \<open>src_telling = ''exports.init = async function(api) { api.showNotification("no data", "error"); throw new Error("no data"); };''\<close>

definition src_writer :: string where
  \<open>src_writer = ''exports.init = async function(api) { await api.writeFile("plugins/plugin-config.json", "{}"); };''\<close>

definition src_fs :: string where
  \<open>src_fs = ''const fs = require("fs"); exports.init = async function(api) {};''\<close>

definition src_chart :: string where
  \<open>src_chart = ''const c = require("chart.js"); api.createTab("c", "Chart"); exports.init = async function(api) {};''\<close>

definition src_console :: string where
  \<open>src_console = ''console.log("hello");''\<close>

definition src_guarded :: string where
  \<open>src_guarded = ''try { require("fs"); } catch (e) {} exports.init = async function(api) {};''\<close>

definition demo_parse :: "string \<Rightarrow> action list option" where
  "demo_parse body =
     (if body = ''null'' then Some []
      else if body = src_bad then Some [AssignInit ''exports'' [Throw ''Error: boom'']]
      else if body = src_good then Some [AssignInit ''exports'' []]
      else if body = src_monitor
        then Some [AssignInit ''exports'' [Call ''api'' ''createTab'' [''network-monitor'', ''Network Monitor'']]]
      else if body = src_telling
        then Some [AssignInit ''exports'' [Call ''api'' ''showNotification'' [''no data'', ''error''],
                                          Throw ''Error: no data'']]
      else if body = src_writer
        then Some [AssignInit ''exports'' [Call ''api'' ''writeFile'' [''plugins/plugin-config.json'', ''{}'']]]
      else if body = src_fs
        then Some [Call ''require'' [] [''fs''], AssignInit ''exports'' []]
      else if body = src_chart
        then Some [Call ''require'' [] [''chart.js''], Call ''api'' ''createTab'' [''c'', ''Chart''],
                   AssignInit ''exports'' []]
      else if body = src_console then Some [Call ''console'' ''log'' [''hello'']]
      else if body = src_guarded
        then Some [TryCatch [Call ''require'' [] [''fs'']] [], AssignInit ''exports'' []]
      else None)"

definition demo_global :: "string \<Rightarrow> string \<Rightarrow> string list \<Rightarrow> plugin_system \<Rightarrow> string option \<times> plugin_system" where
  "demo_global n m args s =
     (if n = ''console'' \<and> m = ''log''
      then (None, console_add (Log (argument 0 args) None) s)
      else (Some ''ReferenceError'', s))"

definition demo_host :: host where
  "demo_host =
     \<lparr>parse_body = demo_parse,
      global_call = demo_global,
      builtin_method = (\<lambda>m. m \<in> set [''toString'', ''hasOwnProperty'']),
      api_helper = (\<lambda>m args. (None, [])),
      shell = (\<lambda>c d. d),
      decode_configs = (\<lambda>t. if t = ''{}'' then Some [] else None),
      data_tab_selector = Some\<rparr>"

definition demo_system :: plugin_system where
  "demo_system =
     \<lparr>plugins = [(''bad.js'', JObject [(units ''name'', JString (units ''Bad''))]),
                 (''good.js'', JObject [(units ''name'', JString (units ''Good''))]),
                 (''network-monitor.js'', JObject [])],
      pluginConfigs = [(''bad.js'', \<lparr>enabled = True, settings = None\<rparr>)],
      activePlugins = {},
      nav_items = [''dashboard''],
      tab_contents = [''dashboard''],
      files = [(''plugins/bad.js'', src_bad),
               (''plugins/good.js'', src_good),
               (''plugins/network-monitor.js'', src_monitor)],
      saved_configs = None,
      disk_ok = True,
      uiUtils = True,
      notifications = [],
      plugin_console = []\<rparr>"

text \<open>The same system with the module \<^verbatim>\<open>good.js\<close> running and showing a tab named by its path.\<close>

definition demo_running :: plugin_system where
  "demo_running =
     demo_system\<lparr>pluginConfigs := [(''bad.js'', \<lparr>enabled = True, settings = None\<rparr>),
                                  (''good.js'', \<lparr>enabled = True, settings = None\<rparr>)],
                  activePlugins := {''good.js''},
                  nav_items := [''dashboard'', ''plugin-good.js''],
                  tab_contents := [''dashboard'', ''plugin-good.js'']\<rparr>"

text \<open>
  The demonstration system with two more files: the module that tells the operator
  itself, and the module that writes the configuration document.
\<close>

definition demo_more :: plugin_system where
  "demo_more =
     demo_system\<lparr>plugins := plugins demo_system
                    @ [(''telling.js'', JObject [(units ''name'', JString (units ''Telling''))]),
                       (''writer.js'', JObject [(units ''name'', JString (units ''Writer''))])],
                 files := files demo_system
                    @ [(''plugins/telling.js'', src_telling), (''plugins/writer.js'', src_writer)]\<rparr>"

section \<open>Plugin metadata (extractPluginMetadata, loadPluginMetadata)\<close>

subsection \<open>Texts\<close>

text \<open>
  A text is a HOL string whose characters stand for the code units below 256; texts with
  higher code units are outside the model. In that range the white space of a regular
  expression's \<^verbatim>\<open>\s\<close> is the six characters below and the no-break space.
\<close>

definition is_space :: "char \<Rightarrow> bool" where
  "is_space c = (c \<in> set [CHR 0x09, CHR 0x0A, CHR 0x0B, CHR 0x0C, CHR 0x0D, CHR 0x20, CHR 0xA0])"

definition skip_spaces :: "string \<Rightarrow> string" where
  "skip_spaces t = dropWhile is_space t"

text \<open>The text that follows a given prefix, if the text starts with it.\<close>

fun strip_prefix :: "string \<Rightarrow> string \<Rightarrow> string option" where
  "strip_prefix [] t = Some t"
| "strip_prefix (p # ps) [] = None"
| "strip_prefix (p # ps) (c # cs) = (if p = c then strip_prefix ps cs else None)"

subsection \<open>The marker pattern\<close>

text \<open>
  \<^verbatim>\<open>content.match(/\/\*\s*@plugin\s*({[\s\S]*?})\s*\*\//)\<close>, as far as its first group
  goes. \<open>closes t\<close>: the text \<open>t\<close> after a closing brace is white space and the end of
  the comment. \<open>lazy_body\<close>: the shortest stretch up to and including a closing brace
  that closes. \<open>match_here\<close>: the group when the pattern matches at the start of the
  text. \<open>plugin_match\<close>: the group of the leftmost match. The white space before
  \<^verbatim>\<open>@plugin\<close>, before the brace and before the end of the comment is taken greedily,
  and taking less cannot help, because what follows is never white space.
\<close>

definition closes :: "string \<Rightarrow> bool" where
  "closes t = (strip_prefix ''*/'' (skip_spaces t) \<noteq> None)"

fun lazy_body :: "string \<Rightarrow> string option" where
  "lazy_body [] = None"
| "lazy_body (c # cs) =
     (if c = CHR ''}'' \<and> closes cs then Some [c] else map_option ((#) c) (lazy_body cs))"

definition match_here :: "string \<Rightarrow> string option" where
  "match_here t =
     (case strip_prefix ''/*'' t of
        None \<Rightarrow> None
      | Some t1 \<Rightarrow>
          (case strip_prefix ''@plugin'' (skip_spaces t1) of
             None \<Rightarrow> None
           | Some t2 \<Rightarrow>
               (case strip_prefix ''{'' (skip_spaces t2) of
                  None \<Rightarrow> None
                | Some t3 \<Rightarrow> map_option ((#) CHR ''{'') (lazy_body t3))))"

fun plugin_match :: "string \<Rightarrow> string option" where
  "plugin_match [] = None"
| "plugin_match (c # cs) =
     (case match_here (c # cs) of Some g \<Rightarrow> Some g | None \<Rightarrow> plugin_match cs)"

subsection \<open>JSON.parse\<close>

text \<open>
  The grammar of ECMA-404, in two passes that each read their input once from left to
  right. The first pass cuts the text into tokens.
\<close>

datatype token =
    TLBrace | TRBrace | TLBracket | TRBracket | TColon | TComma
  | TString "nat list"
  | TNumber int int
  | TTrue | TFalse | TNull

definition is_json_space :: "char \<Rightarrow> bool" where
  "is_json_space c = (c \<in> set [CHR 0x09, CHR 0x0A, CHR 0x0D, CHR 0x20])"

definition is_digit :: "char \<Rightarrow> bool" where
  "is_digit c = (c \<in> set ''0123456789'')"

definition digit_value :: "char \<Rightarrow> int" where
  "digit_value c = int (of_char c) - 48"

definition digits_value :: "string \<Rightarrow> int" where
  "digits_value ds = foldl (\<lambda>a c. 10 * a + digit_value c) 0 ds"

definition hex_value :: "char \<Rightarrow> nat option" where
  "hex_value c =
     (let n = of_char c
      in if 48 \<le> n \<and> n \<le> 57 then Some (n - 48)
         else if 65 \<le> n \<and> n \<le> 70 then Some (n - 55)
         else if 97 \<le> n \<and> n \<le> 102 then Some (n - 87)
         else None)"

text \<open>The code unit that \<^verbatim>\<open>\c\<close> stands for in a string, for the eight one-letter escapes.\<close>

definition simple_escape :: "char \<Rightarrow> nat option" where
  "simple_escape c =
     (if c = CHR 0x22 then Some 0x22
      else if c = CHR 0x5C then Some 0x5C
      else if c = CHR ''/'' then Some 0x2F
      else if c = CHR ''b'' then Some 0x08
      else if c = CHR ''f'' then Some 0x0C
      else if c = CHR ''n'' then Some 0x0A
      else if c = CHR ''r'' then Some 0x0D
      else if c = CHR ''t'' then Some 0x09
      else None)"

text \<open>
  A number: an optional minus, the integer digits without a leading zero, an optional
  fraction, an optional exponent. Its value is the mantissa with the trailing zeros
  taken off and the power of ten adjusted; zero is \<open>(0, 0)\<close>.
\<close>

definition normal_number :: "bool \<Rightarrow> string \<Rightarrow> int \<Rightarrow> int \<times> int" where
  "normal_number neg ds ex =
     (let z = length (takeWhile (\<lambda>c. c = CHR ''0'') (rev ds));
          m = digits_value (take (length ds - z) ds)
      in if m = 0 then (0, 0) else ((if neg then - m else m), ex + int z))"

definition scan_exponent :: "string \<Rightarrow> int option" where
  "scan_exponent t =
     (case t of
        [] \<Rightarrow> Some 0
      | c # r \<Rightarrow>
          if c = CHR ''e'' \<or> c = CHR ''E''
          then (let neg = (case r of [] \<Rightarrow> False | s # _ \<Rightarrow> s = CHR ''-'');
                    r1 = (case r of [] \<Rightarrow> []
                          | s # r' \<Rightarrow> if s = CHR ''-'' \<or> s = CHR ''+'' then r' else r)
                in if r1 \<noteq> [] \<and> list_all is_digit r1
                   then Some (if neg then - digits_value r1 else digits_value r1)
                   else None)
          else None)"

definition number_of_lexeme :: "string \<Rightarrow> (int \<times> int) option" where
  "number_of_lexeme t =
     (let neg = (case t of [] \<Rightarrow> False | c # _ \<Rightarrow> c = CHR ''-'');
          t0 = (if neg then tl t else t);
          ds = takeWhile is_digit t0;
          t1 = dropWhile is_digit t0
      in if ds = [] \<or> (hd ds = CHR ''0'' \<and> length ds > 1) then None
         else (let has_frac = (case t1 of [] \<Rightarrow> False | c # _ \<Rightarrow> c = CHR ''.'');
                   frac = (if has_frac then takeWhile is_digit (tl t1) else []);
                   t2 = (if has_frac then dropWhile is_digit (tl t1) else t1)
               in if has_frac \<and> frac = [] then None
                  else (case scan_exponent t2 of
                          None \<Rightarrow> None
                        | Some ex \<Rightarrow> Some (normal_number neg (ds @ frac) (ex - int (length frac))))))"

text \<open>
  The tokenizer reads one character at a time. Between tokens it is \<open>Idle\<close>; inside a
  string it collects the code units (\<open>InString\<close>), after a backslash it expects an escape
  (\<open>InEscape\<close>), after \<^verbatim>\<open>\u\<close> four hexadecimal digits (\<open>InUnicode\<close>); a number and a
  literal name are collected as the longest run of their characters and checked when the
  run ends. In a text that is valid JSON a number or name is followed by white space or
  punctuation, so taking the longest run accepts the same texts as the grammar.
\<close>

datatype lex_mode =
    Idle
  | InString "nat list"
  | InEscape "nat list"
  | InUnicode "nat list" "nat list"
  | InNumber string
  | InName string

definition is_number_char :: "char \<Rightarrow> bool" where
  "is_number_char c = (is_digit c \<or> c \<in> set ''+-.eE'')"

definition is_name_char :: "char \<Rightarrow> bool" where
  "is_name_char c = (97 \<le> (of_char c :: nat) \<and> (of_char c :: nat) \<le> 122)"

definition name_token :: "string \<Rightarrow> token option" where
  "name_token w =
     (if w = ''true'' then Some TTrue
      else if w = ''false'' then Some TFalse
      else if w = ''null'' then Some TNull
      else None)"

text \<open>The state of the tokenizer: its mode and the tokens so far, latest first; or failure.\<close>

type_synonym lex_state = "(lex_mode \<times> token list) option"

definition lex_idle :: "char \<Rightarrow> token list \<Rightarrow> lex_state" where
  "lex_idle c ts =
     (if is_json_space c then Some (Idle, ts)
      else if c = CHR ''{'' then Some (Idle, TLBrace # ts)
      else if c = CHR ''}'' then Some (Idle, TRBrace # ts)
      else if c = CHR ''['' then Some (Idle, TLBracket # ts)
      else if c = CHR '']'' then Some (Idle, TRBracket # ts)
      else if c = CHR '':'' then Some (Idle, TColon # ts)
      else if c = CHR '','' then Some (Idle, TComma # ts)
      else if c = CHR 0x22 then Some (InString [], ts)
      else if c = CHR ''-'' \<or> is_digit c then Some (InNumber [c], ts)
      else if is_name_char c then Some (InName [c], ts)
      else None)"

definition lex_step :: "lex_state \<Rightarrow> char \<Rightarrow> lex_state" where
  "lex_step st c =
     (case st of
        None \<Rightarrow> None
      | Some (Idle, ts) \<Rightarrow> lex_idle c ts
      | Some (InString u, ts) \<Rightarrow>
          if c = CHR 0x22 then Some (Idle, TString u # ts)
          else if c = CHR 0x5C then Some (InEscape u, ts)
          else if (of_char c :: nat) < 32 then None
          else Some (InString (u @ [of_char c]), ts)
      | Some (InEscape u, ts) \<Rightarrow>
          if c = CHR ''u'' then Some (InUnicode u [], ts)
          else (case simple_escape c of
                  None \<Rightarrow> None
                | Some n \<Rightarrow> Some (InString (u @ [n]), ts))
      | Some (InUnicode u hs, ts) \<Rightarrow>
          (case hex_value c of
             None \<Rightarrow> None
           | Some d \<Rightarrow>
               if length hs < 3 then Some (InUnicode u (hs @ [d]), ts)
               else Some (InString (u @ [foldl (\<lambda>a x. 16 * a + x) 0 (hs @ [d])]), ts))
      | Some (InNumber w, ts) \<Rightarrow>
          if is_number_char c then Some (InNumber (w @ [c]), ts)
          else (case number_of_lexeme w of
                  None \<Rightarrow> None
                | Some (m, e) \<Rightarrow> lex_idle c (TNumber m e # ts))
      | Some (InName w, ts) \<Rightarrow>
          if is_name_char c then Some (InName (w @ [c]), ts)
          else (case name_token w of
                  None \<Rightarrow> None
                | Some t \<Rightarrow> lex_idle c (t # ts)))"

definition lex_end :: "lex_state \<Rightarrow> token list option" where
  "lex_end st =
     (case st of
        None \<Rightarrow> None
      | Some (Idle, ts) \<Rightarrow> Some (rev ts)
      | Some (InNumber w, ts) \<Rightarrow>
          (case number_of_lexeme w of None \<Rightarrow> None | Some (m, e) \<Rightarrow> Some (rev (TNumber m e # ts)))
      | Some (InName w, ts) \<Rightarrow>
          (case name_token w of None \<Rightarrow> None | Some t \<Rightarrow> Some (rev (t # ts)))
      | Some (_, ts) \<Rightarrow> None)"

definition lex :: "string \<Rightarrow> token list option" where
  "lex t = lex_end (foldl lex_step (Some (Idle, [])) t)"

text \<open>
  The second pass reads the tokens with a stack of the arrays and objects that are open,
  each with its elements so far, latest first, and for an object the key that waits for
  its value. \<open>expect\<close> says what may come next.
\<close>

datatype frame =
    FArray "json list"
  | FObject "(nat list \<times> json) list" "nat list option"

datatype expect =
    ExpValue | ExpValueOrEnd | ExpKeyOrEnd | ExpKey | ExpColon | ExpCommaOrEnd | ExpNothing

type_synonym parse_state = "(frame list \<times> expect \<times> json option) option"

definition push_value :: "json \<Rightarrow> frame list \<Rightarrow> parse_state" where
  "push_value v stack =
     (case stack of
        [] \<Rightarrow> Some ([], ExpNothing, Some v)
      | FArray xs # below \<Rightarrow> Some (FArray (v # xs) # below, ExpCommaOrEnd, None)
      | FObject kvs (Some k) # below \<Rightarrow> Some (FObject ((k, v) # kvs) None # below, ExpCommaOrEnd, None)
      | FObject kvs None # below \<Rightarrow> None)"

definition parse_value_token :: "token \<Rightarrow> frame list \<Rightarrow> parse_state" where
  "parse_value_token t stack =
     (case t of
        TString u \<Rightarrow> push_value (JString u) stack
      | TNumber m e \<Rightarrow> push_value (JNumber m e) stack
      | TTrue \<Rightarrow> push_value (JBool True) stack
      | TFalse \<Rightarrow> push_value (JBool False) stack
      | TNull \<Rightarrow> push_value JNull stack
      | TLBracket \<Rightarrow> Some (FArray [] # stack, ExpValueOrEnd, None)
      | TLBrace \<Rightarrow> Some (FObject [] None # stack, ExpKeyOrEnd, None)
      | _ \<Rightarrow> None)"

definition close_array :: "frame list \<Rightarrow> parse_state" where
  "close_array stack =
     (case stack of FArray xs # below \<Rightarrow> push_value (JArray (rev xs)) below | _ \<Rightarrow> None)"

definition close_object :: "frame list \<Rightarrow> parse_state" where
  "close_object stack =
     (case stack of FObject kvs None # below \<Rightarrow> push_value (JObject (rev kvs)) below | _ \<Rightarrow> None)"

definition parse_key :: "token \<Rightarrow> frame list \<Rightarrow> parse_state" where
  "parse_key t stack =
     (case (t, stack) of
        (TString k, FObject kvs None # below) \<Rightarrow> Some (FObject kvs (Some k) # below, ExpColon, None)
      | _ \<Rightarrow> None)"

definition parse_step :: "parse_state \<Rightarrow> token \<Rightarrow> parse_state" where
  "parse_step st t =
     (case st of
        None \<Rightarrow> None
      | Some (stack, ExpValue, r) \<Rightarrow> parse_value_token t stack
      | Some (stack, ExpValueOrEnd, r) \<Rightarrow>
          if t = TRBracket then close_array stack else parse_value_token t stack
      | Some (stack, ExpKeyOrEnd, r) \<Rightarrow>
          if t = TRBrace then close_object stack else parse_key t stack
      | Some (stack, ExpKey, r) \<Rightarrow> parse_key t stack
      | Some (stack, ExpColon, r) \<Rightarrow> if t = TColon then Some (stack, ExpValue, None) else None
      | Some (stack, ExpCommaOrEnd, r) \<Rightarrow>
          if t = TComma
          then (case stack of
                  FArray xs # below \<Rightarrow> Some (stack, ExpValue, None)
                | FObject kvs k # below \<Rightarrow> Some (stack, ExpKey, None)
                | [] \<Rightarrow> None)
          else if t = TRBracket then close_array stack
          else if t = TRBrace then close_object stack
          else None
      | Some (stack, ExpNothing, r) \<Rightarrow> None)"

definition parse_tokens :: "token list \<Rightarrow> json option" where
  "parse_tokens ts =
     (case foldl parse_step (Some ([], ExpValue, None)) ts of
        Some ([], ExpNothing, Some v) \<Rightarrow> Some v
      | _ \<Rightarrow> None)"

text \<open>\<^verbatim>\<open>JSON.parse\<close>: the value, or nothing where it raises a SyntaxError.\<close>

definition JSON_parse :: "string \<Rightarrow> json option" where
  "JSON_parse t = (case lex t of None \<Rightarrow> None | Some ts \<Rightarrow> parse_tokens ts)"

subsection \<open>Extraction and registration\<close>

text \<open>
  \<^verbatim>\<open>extractPluginMetadata\<close>: the parsed group of the first match, with what it wrote to
  the console. \<^verbatim>\<open>loadPluginMetadata\<close> reads the file; a file that cannot be read comes
  as \<^verbatim>\<open>null\<close>, on which \<^verbatim>\<open>content.match\<close> raises a TypeError that its
  \<^verbatim>\<open>catch\<close> logs.
\<close>

definition extractPluginMetadata :: "string \<Rightarrow> json option \<times> console_line list" where
  "extractPluginMetadata content =
     (case plugin_match content of
        None \<Rightarrow> (None, [])
      | Some payload \<Rightarrow>
          (case JSON_parse payload of
             Some v \<Rightarrow> (Some v, [])
           | None \<Rightarrow> (None, [Err ''Invalid plugin metadata:'' ''SyntaxError''])))"

definition loadPluginMetadata :: "string \<Rightarrow> plugin_system \<Rightarrow> plugin_system" where
  "loadPluginMetadata pluginPath s =
     (case readFile (pluginDirectory @ ''/'' @ pluginPath) s of
        None \<Rightarrow>
          console_add (Err (''Failed to load plugin metadata for '' @ pluginPath @ '':'') ''TypeError'') s
      | Some content \<Rightarrow>
          (let (metadata, logged) = extractPluginMetadata content;
               s1 = s\<lparr>plugin_console := plugin_console s @ logged\<rparr>
           in case metadata of
                None \<Rightarrow> s1
              | Some m \<Rightarrow>
                  if truthy m then s1\<lparr>plugins := AList.update pluginPath m (plugins s1)\<rparr> else s1))"

text \<open>Whether a word occurs somewhere in a text.\<close>

fun contains :: "string \<Rightarrow> string \<Rightarrow> bool" where
  "contains w [] = (w = [])"
| "contains w (c # cs) = (strip_prefix w (c # cs) \<noteq> None \<or> contains w cs)"

text \<open>
  The metadata block of the claim, the value it stands for, and files for the
  runs evaluated below: one with the block after a line comment, one without a marker,
  one whose marker holds no JSON, and one with such a marker before the block.
\<close>

definition block_text :: string where
  \<open>block_text = ''/* @plugin {"name":"X","version":"1.0.0","author":"A","description":"D"} */''\<close>

definition block_value :: json where
  "block_value =
     JObject [(units ''name'', JString (units ''X'')),
              (units ''version'', JString (units ''1.0.0'')),
              (units ''author'', JString (units ''A'')),
              (units ''description'', JString (units ''D''))]"

definition src_with_block :: string where
  \<open>src_with_block = ''// x'' @ [CHR 0x0A] @ block_text @ [CHR 0x0A] @ ''exports.init = async function(api) {};''\<close>

definition src_two_blocks :: string where
  \<open>src_two_blocks = ''/* @plugin {draft} */'' @ [CHR 0x0A] @ block_text\<close>

definition src_plain :: string where
  "src_plain = ''exports.init = async function(api) {};''"

definition src_draft :: string where
  "src_draft = ''/* @plugin {draft} */''"

definition demo_sources :: plugin_system where
  "demo_sources =
     demo_system\<lparr>plugins := [],
                  files := [(''plugins/demo.js'', src_with_block),
                            (''plugins/plain.js'', src_plain),
                            (''plugins/draft.js'', src_draft),
                            (''plugins/two.js'', src_two_blocks)]\<rparr>"

section \<open>Plugin storage (getPluginStorage, setPluginStorage)\<close>

subsection \<open>JSON.stringify\<close>

text \<open>
  The text of a value, without indentation. A code unit of a string is written as
  itself, or as an escape: the two-character escapes for the quote, the backslash and the
  five named control characters, \<^verbatim>\<open>\u\<close> and four lowercase hexadecimal digits for the
  other control characters. The program writes a code unit from 256 on as itself; the
  texts of this model have no character for it, and the model writes it as a \<^verbatim>\<open>\u\<close>
  escape, which reads back as the same code unit.
\<close>

definition hex_digit :: "nat \<Rightarrow> char" where
  "hex_digit n = ''0123456789abcdef'' ! n"

definition hex4 :: "nat \<Rightarrow> string" where
  "hex4 n = [hex_digit (n div 4096 mod 16), hex_digit (n div 256 mod 16),
             hex_digit (n div 16 mod 16), hex_digit (n mod 16)]"

definition quote_unit :: "nat \<Rightarrow> string" where
  "quote_unit n =
     (if n = 0x22 then [CHR 0x5C, CHR 0x22]
      else if n = 0x5C then [CHR 0x5C, CHR 0x5C]
      else if n = 0x08 then [CHR 0x5C, CHR ''b'']
      else if n = 0x0C then [CHR 0x5C, CHR ''f'']
      else if n = 0x0A then [CHR 0x5C, CHR ''n'']
      else if n = 0x0D then [CHR 0x5C, CHR ''r'']
      else if n = 0x09 then [CHR 0x5C, CHR ''t'']
      else if n < 32 \<or> 256 \<le> n then [CHR 0x5C, CHR ''u''] @ hex4 n
      else [char_of n])"

definition quote_string :: "nat list \<Rightarrow> string" where
  "quote_string u = [CHR 0x22] @ concat (map quote_unit u) @ [CHR 0x22]"

text \<open>
  The text of the number \<open>m * 10^e\<close>, as \<^verbatim>\<open>Number.prototype.toString\<close> lays it out: with
  \<open>k\<close> digits in the mantissa and the decimal point \<open>n = k + e\<close> places after its first
  digit, plain digits with zeros appended or a point inserted when \<open>0 < n \<le> 21\<close>, zeros
  after \<^verbatim>\<open>0.\<close> when \<open>-6 < n \<le> 0\<close>, and exponent notation otherwise.
\<close>

definition number_text :: "int \<Rightarrow> int \<Rightarrow> string" where
  "number_text m e =
     (if m = 0 then ''0''
      else (let sgn = (if m < 0 then ''-'' else '''');
                ds = nat_digits (nat \<bar>m\<bar>);
                k = int (length ds);
                n = k + e
            in sgn @
               (if k \<le> n \<and> n \<le> 21 then ds @ replicate (nat (n - k)) CHR ''0''
                else if 0 < n \<and> n \<le> 21 then take (nat n) ds @ ''.'' @ drop (nat n) ds
                else if - 6 < n \<and> n \<le> 0 then ''0.'' @ replicate (nat (- n)) CHR ''0'' @ ds
                else (let ex = n - 1;
                          et = (if ex < 0 then ''-'' else ''+'') @ nat_digits (nat \<bar>ex\<bar>)
                      in if k = 1 then ds @ ''e'' @ et
                         else take 1 ds @ ''.'' @ drop 1 ds @ ''e'' @ et))))"

fun join_commas :: "string list \<Rightarrow> string" where
  "join_commas [] = []"
| "join_commas [x] = x"
| "join_commas (x # y # ys) = x @ '','' @ join_commas (y # ys)"

fun JSON_stringify :: "json \<Rightarrow> string" where
  "JSON_stringify JNull = ''null''"
| "JSON_stringify (JBool b) = (if b then ''true'' else ''false'')"
| "JSON_stringify (JNumber m e) = number_text m e"
| "JSON_stringify (JString u) = quote_string u"
| "JSON_stringify (JArray xs) = ''['' @ join_commas (map JSON_stringify xs) @ '']''"
| "JSON_stringify (JObject kvs) =
     ''{'' @ join_commas (map (\<lambda>kv. quote_string (fst kv) @ '':'' @ JSON_stringify (snd kv)) kvs) @ ''}''"

subsection \<open>The tokens of a printed value\<close>

text \<open>
  For the passage of a value through \<^verbatim>\<open>JSON.stringify\<close> and \<^verbatim>\<open>JSON.parse\<close>: the
  text of a token, the tokens of a value, and the values of JSON that a plugin can hold:
  every code unit is below \<open>2^16\<close>, every number is normalised, and an object has one
  member of a name.
\<close>

fun token_text :: "token \<Rightarrow> string" where
  "token_text TLBrace = ''{''"
| "token_text TRBrace = ''}''"
| "token_text TLBracket = ''[''"
| "token_text TRBracket = '']''"
| "token_text TColon = '':''"
| "token_text TComma = '',''"
| "token_text (TString u) = quote_string u"
| "token_text (TNumber m e) = number_text m e"
| "token_text TTrue = ''true''"
| "token_text TFalse = ''false''"
| "token_text TNull = ''null''"

definition tokens_text :: "token list \<Rightarrow> string" where
  "tokens_text ts = concat (map token_text ts)"

fun sep_tokens :: "token list list \<Rightarrow> token list" where
  "sep_tokens [] = []"
| "sep_tokens [x] = x"
| "sep_tokens (x # y # ys) = x @ TComma # sep_tokens (y # ys)"

fun json_tokens :: "json \<Rightarrow> token list" where
  "json_tokens JNull = [TNull]"
| "json_tokens (JBool b) = [if b then TTrue else TFalse]"
| "json_tokens (JNumber m e) = [TNumber m e]"
| "json_tokens (JString u) = [TString u]"
| "json_tokens (JArray xs) = TLBracket # sep_tokens (map json_tokens xs) @ [TRBracket]"
| "json_tokens (JObject kvs) =
     TLBrace # sep_tokens (map (\<lambda>kv. TString (fst kv) # TColon # json_tokens (snd kv)) kvs) @ [TRBrace]"

definition normal :: "int \<Rightarrow> int \<Rightarrow> bool" where
  "normal m e = (if m = 0 then e = 0 else m mod 10 \<noteq> 0)"

definition units_ok :: "nat list \<Rightarrow> bool" where
  "units_ok u = list_all (\<lambda>n. n < 65536) u"

fun storable :: "json \<Rightarrow> bool" where
  "storable JNull = True"
| "storable (JBool b) = True"
| "storable (JNumber m e) = normal m e"
| "storable (JString u) = units_ok u"
| "storable (JArray xs) = list_all storable xs"
| "storable (JObject kvs) =
     (distinct (map fst kvs) \<and> list_all (\<lambda>kv. units_ok (fst kv) \<and> storable (snd kv)) kvs)"

fun wordy :: "token \<Rightarrow> bool" where
  "wordy (TNumber m e) = True"
| "wordy TTrue = True"
| "wordy TFalse = True"
| "wordy TNull = True"
| "wordy t = False"

fun token_ok :: "token \<Rightarrow> bool" where
  "token_ok (TString u) = units_ok u"
| "token_ok (TNumber m e) = normal m e"
| "token_ok t = True"

fun separated :: "token list \<Rightarrow> bool" where
  "separated [] = True"
| "separated [t] = True"
| "separated (a # b # ts) = (\<not> (wordy a \<and> wordy b) \<and> separated (b # ts))"

fun word_mode :: "token \<Rightarrow> lex_mode" where
  "word_mode (TNumber m e) = InNumber (number_text m e)"
| "word_mode t = InName (token_text t)"

subsection \<open>localStorage\<close>

text \<open>
  The storage of the page: its items, whether the page may use it at all (every access
  raises a SecurityError otherwise), and the room it has, counted in code units of keys
  and values; \<^verbatim>\<open>setItem\<close> raises a QuotaExceededError when the items would not fit.
\<close>

record local_storage =
  items :: "(string \<times> string) list"
  accessible :: bool
  quota :: nat

definition storage_size :: "(string \<times> string) list \<Rightarrow> nat" where
  "storage_size xs = sum_list (map (\<lambda>kv. length (fst kv) + length (snd kv)) xs)"

definition getItem :: "string \<Rightarrow> local_storage \<Rightarrow> string + string option" where
  "getItem k st = (if accessible st then Inr (map_of (items st) k) else Inl ''SecurityError'')"

definition setItem :: "string \<Rightarrow> string \<Rightarrow> local_storage \<Rightarrow> string + local_storage" where
  "setItem k v st =
     (if \<not> accessible st then Inl ''SecurityError''
      else if storage_size (AList.update k v (items st)) > quota st then Inl ''QuotaExceededError''
      else Inr (st\<lparr>items := AList.update k v (items st)\<rparr>))"

subsection \<open>The two operations\<close>

text \<open>
  What a plugin may hand to \<^verbatim>\<open>setStorage\<close>: a value of JSON; a value for which
  \<^verbatim>\<open>JSON.stringify\<close> returns \<^verbatim>\<open>undefined\<close> (\<^verbatim>\<open>undefined\<close> itself, a function, a
  symbol), which \<^verbatim>\<open>setItem\<close> then stores as the text \<^verbatim>\<open>undefined\<close>; or a value on which
  \<^verbatim>\<open>JSON.stringify\<close> raises (a cyclic object, a BigInt).
\<close>

datatype storage_value = Plain json | NoText | Raising

definition stringify_value :: "storage_value \<Rightarrow> string + string" where
  "stringify_value v =
     (case v of
        Plain j \<Rightarrow> Inr (JSON_stringify j)
      | NoText \<Rightarrow> Inr ''undefined''
      | Raising \<Rightarrow> Inl ''TypeError'')"

text \<open>
  \<^verbatim>\<open>setPluginStorage\<close> returns whether it stored, with the storage and what it logged;
  \<^verbatim>\<open>getPluginStorage\<close> returns the value, \<^verbatim>\<open>null\<close> when there is no item, when the item
  is the empty text, and after an exception.
\<close>

definition setPluginStorage ::
  "string \<Rightarrow> storage_value \<Rightarrow> local_storage \<Rightarrow> bool \<times> local_storage \<times> console_line list" where
  "setPluginStorage key v st =
     (case stringify_value v of
        Inl e \<Rightarrow> (False, st, [Err ''Failed to set plugin storage:'' e])
      | Inr text \<Rightarrow>
          (case setItem (''plugin_'' @ key) text st of
             Inl e \<Rightarrow> (False, st, [Err ''Failed to set plugin storage:'' e])
           | Inr st' \<Rightarrow> (True, st', [])))"

definition getPluginStorage :: "string \<Rightarrow> local_storage \<Rightarrow> json \<times> console_line list" where
  "getPluginStorage key st =
     (case getItem (''plugin_'' @ key) st of
        Inl e \<Rightarrow> (JNull, [Err ''Failed to get plugin storage:'' e])
      | Inr None \<Rightarrow> (JNull, [])
      | Inr (Some text) \<Rightarrow>
          if text = [] then (JNull, [])
          else (case JSON_parse text of
                  Some j \<Rightarrow> (j, [])
                | None \<Rightarrow> (JNull, [Err ''Failed to get plugin storage:'' ''SyntaxError''])))"

text \<open>An empty storage with room for a thousand code units, and a value to store.\<close>

definition empty_storage :: local_storage where
  "empty_storage = \<lparr>items = [], accessible = True, quota = 1000\<rparr>"

definition demo_value :: json where
  "demo_value =
     JObject [(units ''points'', JArray [JNumber 15 (- 1), JNumber (- 2) 3, JNumber 0 0]),
              (units ''label'', JString (units ''a b'' @ [0x22, 0x0A])),
              (units ''on'', JBool True),
              (units ''none'', JNull)]"

subsection \<open>Reading a printed value back\<close>

text \<open>
  The notions in which the passage of a value through \<^verbatim>\<open>JSON.stringify\<close> and
  \<^verbatim>\<open>JSON.parse\<close> is followed: what the parser does on the tokens of a value, the value
  of a run of digits after the digits before it, and the shape of a printed number (sign,
  integer digits, fraction, exponent) that reads back to the number.
\<close>

text \<open>read from a state that expects a value, the tokens of \<open>v\<close> push \<open>v\<close>\<close>

definition parses :: "json \<Rightarrow> bool" where
  "parses v = (\<forall>stack r. foldl parse_step (Some (stack, ExpValue, r)) (json_tokens v) = push_value v stack)"

definition digits_from :: "int \<Rightarrow> string \<Rightarrow> int" where
  "digits_from a ds = foldl (\<lambda>a c. 10 * a + digit_value c) a ds"

text \<open>the shape of every number text: sign, integer digits, fraction, exponent\<close>

definition sign_text :: "bool \<Rightarrow> string" where
  "sign_text neg = (if neg then [CHR ''-''] else [])"

definition frac_text :: "string \<Rightarrow> string" where
  "frac_text b = (if b = [] then [] else CHR ''.'' # b)"

text \<open>every printed number has the shape that reads back to the number\<close>

definition reads_back :: "int \<Rightarrow> int \<Rightarrow> string \<Rightarrow> bool" where
  "reads_back m e t =
     (\<exists>a b x ex. t = sign_text (m < 0) @ a @ frac_text b @ x
        \<and> list_all is_digit a \<and> a \<noteq> [] \<and> (hd a = CHR ''0'' \<longrightarrow> length a = 1)
        \<and> list_all is_digit b
        \<and> scan_exponent x = Some ex \<and> (x = [] \<or> hd x = CHR ''e'') \<and> list_all is_number_char x
        \<and> normal_number (m < 0) (a @ b) (ex - int (length b)) = (m, e))"

subsection \<open>Metadata blocks in general\<close>

text \<open>
  The metadata of four string fields, and the block that holds it in the layout of the
  claim: the comment opens, one blank, \<^verbatim>\<open>@plugin\<close>, one blank, the object as
  \<^verbatim>\<open>JSON.stringify\<close> writes it, one blank, the comment closes. A plain field is a
  string of code units below \<open>2^16\<close> without a closing brace.
\<close>

definition metadata_value :: "nat list \<Rightarrow> nat list \<Rightarrow> nat list \<Rightarrow> nat list \<Rightarrow> json" where
  "metadata_value x v a d =
     JObject [(units ''name'', JString x),
              (units ''version'', JString v),
              (units ''author'', JString a),
              (units ''description'', JString d)]"

definition metadata_block :: "nat list \<Rightarrow> nat list \<Rightarrow> nat list \<Rightarrow> nat list \<Rightarrow> string" where
  "metadata_block x v a d = ''/* @plugin '' @ JSON_stringify (metadata_value x v a d) @ '' */''"

definition plain_field :: "nat list \<Rightarrow> bool" where
  "plain_field u = list_all (\<lambda>n. n < 65536 \<and> n \<noteq> 0x7D) u"

section \<open>Properties of the retention window\<close>

lemma shift_tl: "shift xs = tl xs" by (simp add: shift_def split: list.splits)

lemma last_n_snoc_small: "length xs < n \<Longrightarrow> last_n n (xs @ [v]) = xs @ [v]"
  by (simp add: last_n_def)

lemma last_n_snoc_full: "length xs = n \<Longrightarrow> n > 0 \<Longrightarrow> last_n n (xs @ [v]) = tl (xs @ [v])"
  by (cases xs) (simp_all add: last_n_def)

lemma last_n_last_n: "last_n n (last_n n xs @ ys) = last_n n (xs @ ys)"
proof (cases "n \<le> length xs")
  case True
  then have "length xs - n + n = length xs" by simp
  then show ?thesis using True by (simp add: last_n_def add.commute)
next
  case False
  then show ?thesis by (simp add: last_n_def)
qed

lemma length_last_n: "length (last_n n xs) = min n (length xs)"
  by (simp add: last_n_def)

lemma updateChart_step:
  assumes "length (labels c) = length (data c)" "length (data c) \<le> 20"
  shows "\<exists>c'. updateChart (Some c) t v = Some c' \<and> length (labels c') = length (data c')
     \<and> length (data c') \<le> 20
     \<and> data c' = last_n 20 (data c @ [v]) \<and> labels c' = last_n 20 (labels c @ [t])"
proof (cases "length (data c) = 20")
  case True
  with assms show ?thesis
    by (simp add: updateChart_def Let_def shift_tl last_n_snoc_full)
next
  case False
  with assms have "length (data c) < 20" "length (labels c) < 20" by simp_all
  with assms show ?thesis
    by (simp add: updateChart_def Let_def last_n_snoc_small)
qed

lemma pushes_window:
  "length (labels c) = length (data c) \<Longrightarrow> length (data c) \<le> 20 \<Longrightarrow>
   \<exists>c'. pushes (Some c) ps = Some c' \<and> length (labels c') = length (data c')
     \<and> length (data c') \<le> 20
     \<and> data c' = last_n 20 (data c @ map snd ps) \<and> labels c' = last_n 20 (labels c @ map fst ps)"
proof (induction ps arbitrary: c)
  case Nil
  then show ?case by (simp add: last_n_def)
next
  case (Cons p ps)
  obtain t v where p: "p = (t, v)" by (cases p)
  from updateChart_step [OF Cons.prems, of t v] obtain c1 where
    c1: "updateChart (Some c) t v = Some c1" "length (labels c1) = length (data c1)"
        "length (data c1) \<le> 20" "data c1 = last_n 20 (data c @ [v])"
        "labels c1 = last_n 20 (labels c @ [t])" by blast
  from Cons.IH [OF c1(2,3)] obtain c' where
    c': "pushes (Some c1) ps = Some c'" "length (labels c') = length (data c')"
        "length (data c') \<le> 20" "data c' = last_n 20 (data c1 @ map snd ps)"
        "labels c' = last_n 20 (labels c1 @ map fst ps)" by blast
  show ?case
    using c1(1) c' by (simp add: p c1(4,5) last_n_last_n)
qed

text \<open>
  Claim C8. Starting from a chart whose two arrays are in step and hold at most 20 entries
  (the chart as created is one), after any run of pushes the window is the last 20 of
  everything that was ever in it: at most 20 entries after each push, exactly 20 once
  more than 20 were pushed, the oldest evicted first, the newest value last.
\<close>

theorem updateChart_ring_buffer:
  assumes "length (labels c) = length (data c)" and "length (data c) \<le> 20"
  shows "\<exists>c'. pushes (Some c) ps = Some c'
           \<and> data c' = last_n 20 (data c @ map snd ps)
           \<and> labels c' = last_n 20 (labels c @ map fst ps)
           \<and> length (data c') \<le> 20
           \<and> (length ps > 20 \<longrightarrow> length (data c') = 20 \<and> last (data c') = snd (last ps))"
proof -
  from pushes_window [OF assms, of ps] obtain c' where
    c': "pushes (Some c) ps = Some c'" "length (data c') \<le> 20"
        "data c' = last_n 20 (data c @ map snd ps)"
        "labels c' = last_n 20 (labels c @ map fst ps)" by blast
  have "length (data c') = 20 \<and> last (data c') = snd (last ps)" if "length ps > 20"
  proof -
    from that have ne: "ps \<noteq> []" by auto
    have "length (data c') = 20" using that by (simp add: c'(3) length_last_n)
    moreover have "last (data c') = snd (last ps)"
      using that ne by (simp add: c'(3) last_n_def last_map)
    ultimately show ?thesis by simp
  qed
  with c' show ?thesis by blast
qed

text \<open>The run of 21 pushes into a fresh chart: the value 1 is evicted, 21 is last.\<close>

theorem updateChart_ring_buffer_witness:
  "length (labels (new_chart :: nat chart)) = length (data (new_chart :: nat chart))
   \<and> length (data (new_chart :: nat chart)) \<le> 20 \<and> length ticks21 > 20
   \<and> (\<exists>c'. pushes (Some new_chart) ticks21 = Some c'
        \<and> data c' = [2, 3, 4, 5, 6, 7, 8, 9, 10, 11, 12, 13, 14, 15, 16, 17, 18, 19, 20, 21]
        \<and> length (data c') = 20 \<and> last (data c') = 21)"
proof -
  have h1: "length (labels (new_chart :: nat chart)) = length (data (new_chart :: nat chart))"
    by (simp add: new_chart_def)
  have h2: "length (data (new_chart :: nat chart)) \<le> 20" by (simp add: new_chart_def)
  have h3: "length ticks21 > 20" by (simp add: ticks21_def)
  from updateChart_ring_buffer [OF h1 h2, of ticks21] h3 obtain c' where
    c': "pushes (Some new_chart) ticks21 = Some c'"
        "data c' = last_n 20 (data (new_chart :: nat chart) @ map snd ticks21)"
        "length (data c') = 20" "last (data c') = snd (last ticks21)" by blast
  have "data c' = [2, 3, 4, 5, 6, 7, 8, 9, 10, 11, 12, 13, 14, 15, 16, 17, 18, 19, 20, 21]"
    by (simp add: c'(2) new_chart_def ticks21_def last_n_def)
  moreover have "last (data c') = 21" by (simp add: c'(4) ticks21_def)
  ultimately show ?thesis using h1 h2 h3 c'(1,3) by blast
qed

section \<open>Properties of the sampler\<close>

lemma tenths_of_50: "\<lfloor>(1001::rat) / 2\<rfloor> = 500"
  by (rule floor_unique) simp_all


lemma getSystemData_None_iff:
  "(fst (getSystemData expo p now) = None) =
     (isl (q_currentLoad p) \<or> isl (q_mem p) \<or> isl (q_fsSize p) \<or> isl (q_networkStats p))"
  by (auto simp: getSystemData_def promise_all_def split: sum.splits)

lemma getSystemData_Some:
  "q_currentLoad p = Inr c \<Longrightarrow> q_mem p = Inr m \<Longrightarrow> q_fsSize p = Inr d \<Longrightarrow> q_networkStats p = Inr n \<Longrightarrow>
   getSystemData expo p now = (Some \<lparr>cpu = cpu_part c, memory = memory_part expo m,
                 disk = map disk_part d, network = network_part n, timestamp = now\<rparr>, [])"
  by (simp add: getSystemData_def promise_all_def)

lemma monitor_tick_timers:
  "timers (monitor_tick expo p now s) = timers s \<and>
   systemMonitorInterval (monitor_tick expo p now s) = systemMonitorInterval s
   \<and> next_handle (monitor_tick expo p now s) = next_handle s"
  by (simp add: monitor_tick_def Let_def split: prod.splits)

lemma inv_initial: "monitor_inv (initial_main i)"
  by (simp add: monitor_inv_def initial_main_def handles_of_def)

lemma start_from_inv:
  assumes "monitor_inv s"
  shows "timers (startSystemMonitoring s) = [(next_handle s, interval s)]
       \<and> systemMonitorInterval (startSystemMonitoring s) = Some (next_handle s)
       \<and> next_handle (startSystemMonitoring s) = Suc (next_handle s)
       \<and> interval (startSystemMonitoring s) = interval s"
proof (cases "systemMonitorInterval s")
  case None
  with assms have "timers s = []" by (simp add: monitor_inv_def handles_of_def)
  with None show ?thesis
    by (simp add: startSystemMonitoring_def setInterval_def)
next
  case (Some h)
  with assms have "map fst (timers s) = [h]" by (simp add: monitor_inv_def handles_of_def)
  then obtain d where "timers s = [(h, d)]" by (cases "timers s") auto
  with Some show ?thesis
    by (simp add: startSystemMonitoring_def setInterval_def clearInterval_def)
qed

lemma inv_start: "monitor_inv s \<Longrightarrow> monitor_inv (startSystemMonitoring s)"
  using start_from_inv [of s] by (simp add: monitor_inv_def handles_of_def)

lemma inv_stop: "monitor_inv s \<Longrightarrow> monitor_inv (stopSystemMonitoring s)"
proof (cases "systemMonitorInterval s")
  case None
  assume "monitor_inv s"
  with None show ?thesis by (simp add: stopSystemMonitoring_def)
next
  case (Some h)
  assume a: "monitor_inv s"
  with Some have "map fst (timers s) = [h]" by (simp add: monitor_inv_def handles_of_def)
  then obtain d where "timers s = [(h, d)]" by (cases "timers s") auto
  with Some show ?thesis
    by (simp add: stopSystemMonitoring_def clearInterval_def monitor_inv_def handles_of_def)
qed

lemma inv_tick: "monitor_inv s \<Longrightarrow> monitor_inv (monitor_tick expo p now s)"
  using monitor_tick_timers [of expo p now s] by (simp add: monitor_inv_def)

lemma inv_interval: "monitor_inv s \<Longrightarrow> monitor_inv (s\<lparr>interval := i\<rparr>)"
  by (simp add: monitor_inv_def)

text \<open>
  Claim C2. From any state of the sampler that satisfies its invariant (the state at start
  does, and starting, stopping and a firing of the timer keep it, so it holds whether the
  sampler is running or not), two calls of \<^verbatim>\<open>startSystemMonitoring\<close> in succession,
  with the configured interval set to \<open>ia\<close> before the first and to \<open>ib\<close> before the
  second, leave exactly one active timer. It carries the delay \<open>ib\<close>, its handle is the
  one the variable holds, and it is not the timer of the first call, which was cancelled.
  One timer fires once per period, so one snapshot is sent per tick. The statement needs
  no condition on the two intervals.
\<close>

theorem start_twice_one_timer:
  assumes "monitor_inv s"
  shows "\<exists>h. timers (startSystemMonitoring ((startSystemMonitoring (s\<lparr>interval := ia\<rparr>))\<lparr>interval := ib\<rparr>))
               = [(h, ib)]
            \<and> systemMonitorInterval
                 (startSystemMonitoring ((startSystemMonitoring (s\<lparr>interval := ia\<rparr>))\<lparr>interval := ib\<rparr>))
               = Some h
            \<and> h \<notin> fst ` set (timers (startSystemMonitoring (s\<lparr>interval := ia\<rparr>)))"
proof -
  let ?s1 = "startSystemMonitoring (s\<lparr>interval := ia\<rparr>)"
  have inv1: "monitor_inv ?s1" using assms by (simp add: inv_start inv_interval)
  then have inv2: "monitor_inv (?s1\<lparr>interval := ib\<rparr>)" by (rule inv_interval)
  have t1: "timers ?s1 = [(next_handle s, ia)]" "next_handle ?s1 = Suc (next_handle s)"
    using start_from_inv [OF inv_interval [OF assms, of ia]] by simp_all
  show ?thesis
    using start_from_inv [OF inv2] t1 by simp
qed


text \<open>A sampler that is already running, restarted with 3000 and then with 1000 milliseconds.\<close>

theorem start_twice_one_timer_witness:
  "monitor_inv (startSystemMonitoring (initial_main 5000))
   \<and> timers (startSystemMonitoring
         ((startSystemMonitoring ((startSystemMonitoring (initial_main 5000))\<lparr>interval := 3000\<rparr>))
            \<lparr>interval := 1000\<rparr>)) = [(3, 1000)]
   \<and> systemMonitorInterval (startSystemMonitoring
         ((startSystemMonitoring ((startSystemMonitoring (initial_main 5000))\<lparr>interval := 3000\<rparr>))
            \<lparr>interval := 1000\<rparr>)) = Some 3"
proof -
  have inv: "monitor_inv (startSystemMonitoring (initial_main 5000))"
    by (rule inv_start [OF inv_initial])
  from start_twice_one_timer [OF inv, where ia = 3000 and ib = 1000] obtain h where
    h: "timers (startSystemMonitoring
         ((startSystemMonitoring ((startSystemMonitoring (initial_main 5000))\<lparr>interval := 3000\<rparr>))
            \<lparr>interval := 1000\<rparr>)) = [(h, 1000)]"
       "systemMonitorInterval (startSystemMonitoring
         ((startSystemMonitoring ((startSystemMonitoring (initial_main 5000))\<lparr>interval := 3000\<rparr>))
            \<lparr>interval := 1000\<rparr>)) = Some h"
    by blast
  have "systemMonitorInterval (startSystemMonitoring
         ((startSystemMonitoring ((startSystemMonitoring (initial_main 5000))\<lparr>interval := 3000\<rparr>))
            \<lparr>interval := 1000\<rparr>)) = Some 3"
    by (simp add: startSystemMonitoring_def initial_main_def setInterval_def clearInterval_def)
  with h have "h = 3" by simp
  with inv h show ?thesis by simp
qed

text \<open>
  Claim C1. Whatever the four queries do, \<^verbatim>\<open>getSystemData\<close> does one of two things.
  Either a query was rejected and it returns no snapshot at all; or all four resolved and
  it returns a snapshot whose four parts are each built from the data of its own query.
  No exception leaves it. A firing of the timer's callback leaves the timer and the
  variable that holds its handle as they were, so a failed sample does not stop the loop.
\<close>

theorem getSystemData_whole_or_nothing:
  "((fst (getSystemData expo p now) = None
       \<and> (isl (q_currentLoad p) \<or> isl (q_mem p) \<or> isl (q_fsSize p) \<or> isl (q_networkStats p)))
     \<or> (\<exists>c m d n s. q_currentLoad p = Inr c \<and> q_mem p = Inr m \<and> q_fsSize p = Inr d
            \<and> q_networkStats p = Inr n
            \<and> fst (getSystemData expo p now) = Some s
            \<and> cpu s = cpu_part c \<and> memory s = memory_part expo m
            \<and> disk s = map disk_part d \<and> network s = network_part n))
   \<and> timers (monitor_tick expo p now st) = timers st
   \<and> systemMonitorInterval (monitor_tick expo p now st) = systemMonitorInterval st"
proof -
  have "(fst (getSystemData expo p now) = None
       \<and> (isl (q_currentLoad p) \<or> isl (q_mem p) \<or> isl (q_fsSize p) \<or> isl (q_networkStats p)))
     \<or> (\<exists>c m d n s. q_currentLoad p = Inr c \<and> q_mem p = Inr m \<and> q_fsSize p = Inr d
            \<and> q_networkStats p = Inr n
            \<and> fst (getSystemData expo p now) = Some s
            \<and> cpu s = cpu_part c \<and> memory s = memory_part expo m
            \<and> disk s = map disk_part d \<and> network s = network_part n)"
  proof (cases "isl (q_currentLoad p) \<or> isl (q_mem p) \<or> isl (q_fsSize p) \<or> isl (q_networkStats p)")
    case True
    then show ?thesis using getSystemData_None_iff [of expo p now] by simp
  next
    case False
    then obtain c m d n where
      q: "q_currentLoad p = Inr c" "q_mem p = Inr m" "q_fsSize p = Inr d" "q_networkStats p = Inr n"
      by (cases "q_currentLoad p"; cases "q_mem p"; cases "q_fsSize p"; cases "q_networkStats p") auto
    show ?thesis using q getSystemData_Some [OF q, of expo now] by simp
  qed
  then show ?thesis using monitor_tick_timers [of expo p now st] by simp
qed

text \<open>
  Two runs of one tick on a running sampler. With the disk query rejected the sample is
  \<^verbatim>\<open>null\<close>, the failure is on the console, and the timer stays; with all four
  resolved the snapshot is sent.
\<close>

theorem getSystemData_whole_or_nothing_witness:
  "getSystemData (\<lambda>_. []) providers_disk_down 0 = (None, [''Error getting system data: EIO''])
   \<and> timers (monitor_tick (\<lambda>_. []) providers_disk_down 0 (startSystemMonitoring (initial_main 5000)))
       = [(1, 5000)]
   \<and> (\<exists>s. fst (getSystemData (\<lambda>_. []) providers_ok 0) = Some s
          \<and> cpu s = cpu_part sample_cpu \<and> network s = network_part [sample_net])"
proof -
  have a: "getSystemData (\<lambda>_. []) providers_disk_down 0 = (None, [''Error getting system data: EIO''])"
    by (simp add: getSystemData_def promise_all_def providers_disk_down_def providers_ok_def)
  have b: "timers (startSystemMonitoring (initial_main 5000)) = [(1, 5000)]"
    by (simp add: startSystemMonitoring_def initial_main_def setInterval_def)
  have c: "\<not> isl (q_currentLoad providers_ok)" "\<not> isl (q_mem providers_ok)"
          "\<not> isl (q_fsSize providers_ok)" "\<not> isl (q_networkStats providers_ok)"
    by (simp_all add: providers_ok_def)
  have d: "q_currentLoad providers_ok = Inr sample_cpu" "q_networkStats providers_ok = Inr [sample_net]"
    by (simp_all add: providers_ok_def)
  from getSystemData_whole_or_nothing
         [of "\<lambda>_. []" providers_disk_down 0 "startSystemMonitoring (initial_main 5000)"]
  have t: "timers (monitor_tick (\<lambda>_. []) providers_disk_down 0 (startSystemMonitoring (initial_main 5000)))
       = timers (startSystemMonitoring (initial_main 5000))" by simp
  from getSystemData_whole_or_nothing [of "\<lambda>_. []" providers_ok 0 "initial_main 5000"] c d
  have "\<exists>s. fst (getSystemData (\<lambda>_. []) providers_ok 0) = Some s
          \<and> cpu s = cpu_part sample_cpu \<and> network s = network_part [sample_net]"
    by auto
  with a b t show ?thesis by simp
qed

text \<open>
  Claim C9, as the program has it. With a processor load of 42, a memory of 1000 of which
  500 are used, one disk at 70 percent and one network interface receiving 100 and sending
  50, whatever the other fields of the four results are, the snapshot carries the load 42,
  the disk percentage 70 and the two rates 100 and 50 as numbers, and the memory
  percentage as the string \<^verbatim>\<open>"50.0"\<close>, the text that \<^verbatim>\<open>toFixed(1)\<close> makes of the
  number 50.
\<close>

theorem getSystemData_scenario:
  "\<exists>s. fst (getSystemData expo
          \<lparr>q_currentLoad = Inr (c\<lparr>currentLoad := 42\<rparr>),
           q_mem = Inr (m\<lparr>total := 1000, used := 500\<rparr>),
           q_fsSize = Inr [d\<lparr>use := 70\<rparr>],
           q_networkStats = Inr [n\<lparr>rx_sec := Some 100, tx_sec := Some 50\<rparr>]\<rparr> now) = Some s
     \<and> cpu_load (cpu s) = 42
     \<and> memory_percentage (memory s) = JSString ''50.0''
     \<and> map disk_percentage (disk s) = [70]
     \<and> network_rx_sec (network s) = 100
     \<and> network_tx_sec (network s) = 50"
  by (simp add: getSystemData_def promise_all_def cpu_part_def memory_part_def disk_part_def
      network_part_def or_zero_def first_field_def toFixed1_def js_times_def js_div_def
      nat_digits.simps digit_def Let_def tenths_of_50)

text \<open>
  The claim as stated asks for the memory percentage as the number 50. On the scenario's
  data the field holds a string, which is not that number.
\<close>

theorem getSystemData_percentage_counterexample:
  "map_option (\<lambda>s. memory_percentage (memory s)) (fst (getSystemData (\<lambda>_. []) providers_ok 0))
     = Some (JSString ''50.0'')
   \<and> map_option (\<lambda>s. memory_percentage (memory s)) (fst (getSystemData (\<lambda>_. []) providers_ok 0))
     \<noteq> Some (JSNumber (Num 50))"
  by (simp add: getSystemData_def promise_all_def providers_ok_def sample_mem_def memory_part_def
      toFixed1_def js_times_def js_div_def nat_digits.simps digit_def Let_def tenths_of_50)

section \<open>Properties of the plugin system\<close>

subsection \<open>Names and calls\<close>

lemma bound_names:
  "bound ''exports'' = Some ModuleExports" "bound ''require'' = Some ModuleRequire"
  "bound ''api'' = Some PluginAPI"
  "(bound x = None) = (x \<notin> {''exports'', ''require'', ''api''})"
  by (auto simp: bound_def pluginFunction_params_def pluginFunction_args_def)







subsection \<open>Running code\<close>

lemma run_actions_append:
  "run_actions h (pre @ post) (ex, s) =
     (case run_actions h pre (ex, s) of
        (Some e, ex1, s1) \<Rightarrow> (Some e, ex1, s1)
      | (None, ex1, s1) \<Rightarrow> run_actions h post (ex1, s1))"
proof (induction pre arbitrary: ex s)
  case Nil
  show ?case by simp
next
  case (Cons a pre)
  show ?case by (cases a) (auto simp: Cons split: prod.splits option.splits)
qed




subsection \<open>The loader and the code of the module\<close>

text \<open>
  \<^verbatim>\<open>loadPlugin\<close> against the behaviour of the module's code: the loader writes one
  line to the console, and adds the module to the active set when the code has
  completed.
\<close>

lemma loadPlugin_outcome:
  "loadPlugin h p md s =
     (case module_outcome h p s of
        (NotScript, s1) \<Rightarrow> console_add (Err ''Failed to create plugin module:'' ''SyntaxError'') s1
      | (TopLevelRaised e, s1) \<Rightarrow> console_add (Err ''Failed to create plugin module:'' e) s1
      | (NoEntry, s1) \<Rightarrow> s1
      | (EntryNotCallable, s1) \<Rightarrow> load_failed p ''TypeError'' s1
      | (EntryRaised e, s1) \<Rightarrow> load_failed p e s1
      | (Completed, s1) \<Rightarrow>
          (let s3 = s1\<lparr>activePlugins := insert p (activePlugins s1)\<rparr>
           in case property ''name'' md of
                Inl e \<Rightarrow> load_failed p e s3
              | Inr name \<Rightarrow> console_add (Log ''Plugin loaded: '' name) s3))"
  by (simp add: loadPlugin_def module_outcome_def createPluginModule_def module_text_def Let_def
      split: option.splits prod.splits init_export.splits sum.splits)







text \<open>What the loader itself adds to the state the code left.\<close>

lemma console_add_fields [simp]:
  "plugins (console_add l s) = plugins s" "pluginConfigs (console_add l s) = pluginConfigs s"
  "activePlugins (console_add l s) = activePlugins s" "notifications (console_add l s) = notifications s"
  "saved_configs (console_add l s) = saved_configs s" "files (console_add l s) = files s"
  "disk_ok (console_add l s) = disk_ok s" "uiUtils (console_add l s) = uiUtils s"
  "nav_items (console_add l s) = nav_items s" "tab_contents (console_add l s) = tab_contents s"
  "plugin_console (console_add l s) = plugin_console s @ [l]"
  by (simp_all add: console_add_def)





lemmas demo_defs =
  module_outcome_def module_code_def module_text_def readFile_def pluginDirectory_def
  demo_system_def demo_more_def demo_host_def demo_parse_def demo_global_def
  src_bad_def src_good_def src_monitor_def src_telling_def src_writer_def src_fs_def
  src_chart_def src_console_def src_guarded_def
  call_def assign_def bound_def pluginFunction_params_def pluginFunction_args_def pluginAPI_call_def
  argument_def






text \<open>
  Claim C5. The module resolution function raises exactly for the names other than
  \<^verbatim>\<open>chart.js\<close>, and for \<^verbatim>\<open>chart.js\<close> it returns the global of that name or a fresh
  object. In the plugin's code exactly the three names \<^verbatim>\<open>exports\<close>, \<^verbatim>\<open>require\<close> and
  \<^verbatim>\<open>api\<close> are bound, and \<^verbatim>\<open>createPluginModule\<close> runs the top-level code with them:
  where the code, having run so far, calls \<^verbatim>\<open>require\<close> for another name than
  \<^verbatim>\<open>chart.js\<close>, outside any \<^verbatim>\<open>try\<close> statement of its own, the module is refused with
  the message of the resolution function and the rest does not run; a last call of \<^verbatim>\<open>require\<close> for \<^verbatim>\<open>chart.js\<close> returns; a last
  assignment to \<^verbatim>\<open>exports.init\<close> is the \<^verbatim>\<open>init\<close> of the module returned; a last call
  of \<^verbatim>\<open>api.createTab\<close> opens the tab; and a call through any other name is a call in
  the global scope of the page.
\<close>

theorem plugin_bindings:
  "isl (moduleRequire globals fresh m) = (m \<noteq> ''chart.js'')
   \<and> moduleRequire globals fresh ''chart.js''
       = Inr (case globals ''chart.js'' of Some g \<Rightarrow> g | None \<Rightarrow> fresh)
   \<and> bound ''exports'' = Some ModuleExports
   \<and> bound ''require'' = Some ModuleRequire
   \<and> bound ''api'' = Some PluginAPI
   \<and> (bound x = None) = (x \<notin> {''exports'', ''require'', ''api''})
   \<and> (parse_body h c = Some (pre @ a # rest) \<and> run_actions h pre (NoInit, s) = (None, ex, s1) \<longrightarrow>
        (a = Call ''require'' [] [m] \<and> m \<noteq> ''chart.js'' \<longrightarrow>
           createPluginModule h (Some c) s
             = (None, console_add (Err ''Failed to create plugin module:''
                                     (''Module '' @ m @ '' not allowed in plugins'')) s1))
      \<and> (a = Call ''require'' [] [''chart.js''] \<and> rest = [] \<longrightarrow>
           createPluginModule h (Some c) s = (Some ex, s1))
      \<and> (a = AssignInit ''exports'' entry \<and> rest = [] \<longrightarrow>
           createPluginModule h (Some c) s = (Some (Init entry), s1))
      \<and> (a = Call ''api'' ''createTab'' [i, title] \<and> rest = [] \<longrightarrow>
           createPluginModule h (Some c) s = (Some ex, createPluginTab i title s1))
      \<and> (a = Call n member args \<and> bound n = None \<and> rest = []
           \<and> global_call h n member args s1 = (None, s2) \<longrightarrow>
           createPluginModule h (Some c) s = (Some ex, s2)))"
proof -
  have r1: "isl (moduleRequire globals fresh m) = (m \<noteq> ''chart.js'')"
    by (simp add: moduleRequire_def allowedModules_def)
  have r2: "moduleRequire globals fresh ''chart.js''
       = Inr (case globals ''chart.js'' of Some g \<Rightarrow> g | None \<Rightarrow> fresh)"
    by (simp add: moduleRequire_def allowedModules_def)
  have run: "createPluginModule h (Some c) s =
       (case run_actions h (a # rest) (ex, s1) of
          (Some e, ex', t') \<Rightarrow> (None, console_add (Err ''Failed to create plugin module:'' e) t')
        | (None, ex', t') \<Rightarrow> (Some ex', t'))"
    if "parse_body h c = Some (pre @ a # rest)" "run_actions h pre (NoInit, s) = (None, ex, s1)"
    using that by (simp add: createPluginModule_def run_actions_append)
  have e1: "run_actions h (Call ''require'' [] [m] # rest) (ex, s1)
              = (Some (''Module '' @ m @ '' not allowed in plugins''), ex, s1)" if "m \<noteq> ''chart.js''"
    using that by (simp add: call_def bound_names moduleRequire_def allowedModules_def argument_def)
  have e2: "run_actions h [Call ''require'' [] [''chart.js'']] (ex, s1) = (None, ex, s1)"
    by (simp add: call_def bound_names moduleRequire_def allowedModules_def argument_def)
  have e3: "run_actions h [AssignInit ''exports'' entry] (ex, s1) = (None, Init entry, s1)"
    by (simp add: assign_def bound_names)
  have e4: "run_actions h [Call ''api'' ''createTab'' [i, title]] (ex, s1)
              = (None, ex, createPluginTab i title s1)"
    by (simp add: call_def bound_names pluginAPI_call_def argument_def)
  have e5: "run_actions h [Call n member args] (ex, s1) = (None, ex, s2)"
    if "bound n = None" "global_call h n member args s1 = (None, s2)"
    using that by (simp add: call_def)
  have d: "(a = Call ''require'' [] [m] \<and> m \<noteq> ''chart.js'' \<longrightarrow>
           createPluginModule h (Some c) s
             = (None, console_add (Err ''Failed to create plugin module:''
                                     (''Module '' @ m @ '' not allowed in plugins'')) s1))
      \<and> (a = Call ''require'' [] [''chart.js''] \<and> rest = [] \<longrightarrow>
           createPluginModule h (Some c) s = (Some ex, s1))
      \<and> (a = AssignInit ''exports'' entry \<and> rest = [] \<longrightarrow>
           createPluginModule h (Some c) s = (Some (Init entry), s1))
      \<and> (a = Call ''api'' ''createTab'' [i, title] \<and> rest = [] \<longrightarrow>
           createPluginModule h (Some c) s = (Some ex, createPluginTab i title s1))
      \<and> (a = Call n member args \<and> bound n = None \<and> rest = []
           \<and> global_call h n member args s1 = (None, s2) \<longrightarrow>
           createPluginModule h (Some c) s = (Some ex, s2))"
    if p: "parse_body h c = Some (pre @ a # rest) \<and> run_actions h pre (NoInit, s) = (None, ex, s1)"
  proof -
    from p have q: "parse_body h c = Some (pre @ a # rest)" "run_actions h pre (NoInit, s) = (None, ex, s1)"
      by simp_all
    note rn = run [OF q]
    have c1: "createPluginModule h (Some c) s
             = (None, console_add (Err ''Failed to create plugin module:''
                                     (''Module '' @ m @ '' not allowed in plugins'')) s1)"
      if "a = Call ''require'' [] [m] \<and> m \<noteq> ''chart.js''"
      using that rn e1 by simp
    have c2: "createPluginModule h (Some c) s = (Some ex, s1)"
      if "a = Call ''require'' [] [''chart.js''] \<and> rest = []"
      using that rn e2 by simp
    have c3: "createPluginModule h (Some c) s = (Some (Init entry), s1)"
      if "a = AssignInit ''exports'' entry \<and> rest = []"
      using that rn e3 by simp
    have c4: "createPluginModule h (Some c) s = (Some ex, createPluginTab i title s1)"
      if "a = Call ''api'' ''createTab'' [i, title] \<and> rest = []"
      using that rn e4 by simp
    have c5: "createPluginModule h (Some c) s = (Some ex, s2)"
      if "a = Call n member args \<and> bound n = None \<and> rest = []
           \<and> global_call h n member args s1 = (None, s2)"
      using that rn e5 by simp
    show ?thesis by (intro conjI impI) (erule c1 c2 c3 c4 c5)+
  qed
  have D: "parse_body h c = Some (pre @ a # rest) \<and> run_actions h pre (NoInit, s) = (None, ex, s1) \<longrightarrow>
        (a = Call ''require'' [] [m] \<and> m \<noteq> ''chart.js'' \<longrightarrow>
           createPluginModule h (Some c) s
             = (None, console_add (Err ''Failed to create plugin module:''
                                     (''Module '' @ m @ '' not allowed in plugins'')) s1))
      \<and> (a = Call ''require'' [] [''chart.js''] \<and> rest = [] \<longrightarrow>
           createPluginModule h (Some c) s = (Some ex, s1))
      \<and> (a = AssignInit ''exports'' entry \<and> rest = [] \<longrightarrow>
           createPluginModule h (Some c) s = (Some (Init entry), s1))
      \<and> (a = Call ''api'' ''createTab'' [i, title] \<and> rest = [] \<longrightarrow>
           createPluginModule h (Some c) s = (Some ex, createPluginTab i title s1))
      \<and> (a = Call n member args \<and> bound n = None \<and> rest = []
           \<and> global_call h n member args s1 = (None, s2) \<longrightarrow>
           createPluginModule h (Some c) s = (Some ex, s2))"
    by (rule impI) (erule d)
  show ?thesis by (intro conjI) (fact r1 r2 bound_names D)+
qed

lemma demo_parse_sources:
  "parse_body demo_host src_fs = Some ([] @ Call ''require'' [] [''fs''] # [AssignInit ''exports'' []])"
  "parse_body demo_host src_chart
     = Some ([Call ''require'' [] [''chart.js''], Call ''api'' ''createTab'' [''c'', ''Chart'']]
              @ AssignInit ''exports'' [] # [])"
  "parse_body demo_host src_console = Some ([] @ Call ''console'' ''log'' [''hello''] # [])"
  by (simp_all add: demo_host_def demo_parse_def src_bad_def src_good_def src_monitor_def
      src_telling_def src_writer_def src_fs_def src_chart_def src_console_def src_guarded_def)

text \<open>
  Three sources in the demonstration page: one that asks for \<^verbatim>\<open>fs\<close>; one that asks for
  \<^verbatim>\<open>chart.js\<close>, opens a tab through \<^verbatim>\<open>api\<close> and assigns \<^verbatim>\<open>exports.init\<close>; and one
  that calls \<^verbatim>\<open>console.log\<close>, a name of the global scope.
\<close>

theorem plugin_bindings_witness:
  "createPluginModule demo_host (Some src_fs) demo_system
     = (None, console_add (Err ''Failed to create plugin module:'' ''Module fs not allowed in plugins'')
                demo_system)
   \<and> createPluginModule demo_host (Some src_chart) demo_system
     = (Some (Init []), createPluginTab ''c'' ''Chart'' demo_system)
   \<and> createPluginModule demo_host (Some src_console) demo_system
     = (Some NoInit, console_add (Log ''hello'' None) demo_system)"
proof -
  note t1 = plugin_bindings [where h = demo_host and c = src_fs and pre = "[]"
      and a = "Call ''require'' [] [''fs'']" and rest = "[AssignInit ''exports'' []]"
      and s = demo_system and ex = NoInit and ?s1.0 = demo_system and m = "''fs''"
      and globals = "\<lambda>_. None" and fresh = "()" and x = "''x''"]
  from t1 demo_parse_sources(1)
  have a: "createPluginModule demo_host (Some src_fs) demo_system
     = (None, console_add (Err ''Failed to create plugin module:'' ''Module fs not allowed in plugins'')
                demo_system)"
    by simp
  have pre: "run_actions demo_host
               [Call ''require'' [] [''chart.js''], Call ''api'' ''createTab'' [''c'', ''Chart'']]
               (NoInit, demo_system)
             = (None, NoInit, createPluginTab ''c'' ''Chart'' demo_system)"
    by (simp add: call_def bound_def pluginFunction_params_def pluginFunction_args_def
        pluginAPI_call_def argument_def moduleRequire_def allowedModules_def)
  note t2 = plugin_bindings [where h = demo_host and c = src_chart
      and pre = "[Call ''require'' [] [''chart.js''], Call ''api'' ''createTab'' [''c'', ''Chart'']]"
      and a = "AssignInit ''exports'' []" and rest = "[]"
      and s = demo_system and ex = NoInit and ?s1.0 = "createPluginTab ''c'' ''Chart'' demo_system"
      and entry = "[]" and globals = "\<lambda>_. None" and fresh = "()" and x = "''x''"]
  from t2 demo_parse_sources(2) pre
  have b: "createPluginModule demo_host (Some src_chart) demo_system
     = (Some (Init []), createPluginTab ''c'' ''Chart'' demo_system)"
    by simp
  have g: "global_call demo_host ''console'' ''log'' [''hello''] demo_system
             = (None, console_add (Log ''hello'' None) demo_system)"
          "bound ''console'' = None"
    by (simp_all add: demo_host_def demo_global_def argument_def bound_def
        pluginFunction_params_def pluginFunction_args_def)
  note t3 = plugin_bindings [where h = demo_host and c = src_console and pre = "[]"
      and a = "Call ''console'' ''log'' [''hello'']" and rest = "[]"
      and s = demo_system and ex = NoInit and ?s1.0 = demo_system
      and n = "''console''" and member = "''log''" and args = "[''hello'']"
      and ?s2.0 = "console_add (Log ''hello'' None) demo_system"
      and globals = "\<lambda>_. None" and fresh = "()" and x = "''x''"]
  from t3 demo_parse_sources(3) g
  have c: "createPluginModule demo_host (Some src_console) demo_system
     = (Some NoInit, console_add (Log ''hello'' None) demo_system)"
    by simp
  from a b c show ?thesis by simp
qed

text \<open>
  The refusal is the exception of the resolution function reaching \<^verbatim>\<open>createPluginModule\<close>:
  a module that catches it itself is made as any other.
\<close>

lemma createPluginModule_guarded:
  "createPluginModule demo_host (Some src_guarded) demo_system = (Some (Init []), demo_system)"
  by (simp add: createPluginModule_def moduleRequire_def allowedModules_def demo_defs)

subsection \<open>Unloading, toggling, deleting\<close>

lemma registry_fields:
  "registry s' = registry s \<Longrightarrow>
     plugins s' = plugins s \<and> pluginConfigs s' = pluginConfigs s \<and> files s' = files s
     \<and> saved_configs s' = saved_configs s \<and> disk_ok s' = disk_ok s \<and> uiUtils s' = uiUtils s
     \<and> notifications s' = notifications s"
  by (simp add: registry_def)

lemma unloadPlugin_registry: "registry (unloadPlugin h p s) = registry s"
  by (auto simp: unloadPlugin_def removePluginTab_def registry_def console_add_def Let_def
      split: sum.splits option.splits)




lemma unloadPlugin_accepted:
  assumes "data_tab_selector h (''plugin-'' @ p) = Some (''plugin-'' @ p)"
  shows "activePlugins (unloadPlugin h p s) = activePlugins s - {p}
       \<and> nav_items (unloadPlugin h p s) = remove1 (''plugin-'' @ p) (nav_items s)
       \<and> tab_contents (unloadPlugin h p s) = remove1 (''plugin-'' @ p) (tab_contents s)"
  using assms by (simp add: unloadPlugin_def removePluginTab_def console_add_def Let_def)











text \<open>
  Why the saved configuration is tied to what the module does: a module whose \<^verbatim>\<open>init\<close>
  writes the configuration document through \<^verbatim>\<open>api.writeFile\<close> has changed it by the
  end of the second step, before \<^verbatim>\<open>togglePlugin\<close> saves.
\<close>

lemma togglePlugin_writer:
  "saved_configs demo_more = None
   \<and> saved_configs (togglePlugin_states demo_host ''writer.js'' True demo_more ! 1) = Some []"
  by (simp add: togglePlugin_states_def set_enabled_def load_or_unload_def
      loadPlugin_outcome load_failed_def console_add_def writePluginFile_def configFile_def
      Let_def units_def demo_defs)

text \<open>
  Claim C7, as the program has it. For a path whose tab selector the browser accepts as
  written, a confirmed \<^verbatim>\<open>deletePlugin\<close> goes through five states. First the module is
  unloaded: the navigation item and the pane named \<^verbatim>\<open>plugin-\<close> plus the path are
  removed and the path leaves the active set, the two maps being untouched. Then the
  metadata is erased, then the configuration entry, and then the configuration is saved;
  nothing is saved before both are erased. From the first state on the path is never in
  the active set, and at the end it is in neither map.
\<close>

theorem deletePlugin_order:
  assumes sel: "data_tab_selector h (''plugin-'' @ p) = Some (''plugin-'' @ p)"
  shows "\<exists>s1 s2 s3 s4 s5.
      deletePlugin_states h p s = [s1, s2, s3, s4, s5]
    \<and> deletePlugin h True p s = s5
    \<and> s1 = unloadPlugin h p s
    \<and> nav_items s1 = remove1 (''plugin-'' @ p) (nav_items s)
    \<and> tab_contents s1 = remove1 (''plugin-'' @ p) (tab_contents s)
    \<and> plugins s1 = plugins s \<and> pluginConfigs s1 = pluginConfigs s
    \<and> plugins s2 = AList.delete p (plugins s) \<and> pluginConfigs s2 = pluginConfigs s
    \<and> plugins s3 = AList.delete p (plugins s) \<and> pluginConfigs s3 = AList.delete p (pluginConfigs s)
    \<and> saved_configs s1 = saved_configs s \<and> saved_configs s2 = saved_configs s
    \<and> saved_configs s3 = saved_configs s
    \<and> saved_configs s4 = (if disk_ok s then Some (AList.delete p (pluginConfigs s)) else saved_configs s)
    \<and> list_all (\<lambda>t. p \<notin> activePlugins t) [s1, s2, s3, s4, s5]
    \<and> map_of (plugins s5) p = None \<and> map_of (pluginConfigs s5) p = None"
proof -
  define s1 where "s1 = unloadPlugin h p s"
  define s2 where "s2 = s1\<lparr>plugins := AList.delete p (plugins s1)\<rparr>"
  define s3 where "s3 = s2\<lparr>pluginConfigs := AList.delete p (pluginConfigs s2)\<rparr>"
  define s4 where "s4 = savePluginConfigs s3"
  define s5 where "s5 = showNotification ''Plugin deleted'' None ''success'' s4"
  have st: "deletePlugin_states h p s = [s1, s2, s3, s4, s5]"
    by (simp add: deletePlugin_states_def s1_def s2_def s3_def s4_def s5_def Let_def)
  have d: "deletePlugin h True p s = s5" by (simp add: deletePlugin_def st)
  have r1: "registry s1 = registry s" unfolding s1_def by (rule unloadPlugin_registry)
  note f1 = registry_fields [OF r1]
  have u: "activePlugins s1 = activePlugins s - {p}"
          "nav_items s1 = remove1 (''plugin-'' @ p) (nav_items s)"
          "tab_contents s1 = remove1 (''plugin-'' @ p) (tab_contents s)"
    using unloadPlugin_accepted [OF sel, of s] by (simp_all add: s1_def)
  have f2: "plugins s2 = AList.delete p (plugins s)" "pluginConfigs s2 = pluginConfigs s"
           "saved_configs s2 = saved_configs s" "activePlugins s2 = activePlugins s1" "disk_ok s2 = disk_ok s"
    using f1 by (simp_all add: s2_def)
  have f3: "plugins s3 = AList.delete p (plugins s)" "pluginConfigs s3 = AList.delete p (pluginConfigs s)"
           "saved_configs s3 = saved_configs s" "activePlugins s3 = activePlugins s1" "disk_ok s3 = disk_ok s"
    using f2 by (simp_all add: s3_def)
  have f4: "saved_configs s4 = (if disk_ok s then Some (AList.delete p (pluginConfigs s)) else saved_configs s)"
           "plugins s4 = plugins s3" "pluginConfigs s4 = pluginConfigs s3" "activePlugins s4 = activePlugins s1"
    using f3 by (simp_all add: s4_def savePluginConfigs_def)
  have f5: "plugins s5 = plugins s3" "pluginConfigs s5 = pluginConfigs s3" "activePlugins s5 = activePlugins s1"
    using f4 by (simp_all add: s5_def showNotification_def)
  have act: "list_all (\<lambda>t. p \<notin> activePlugins t) [s1, s2, s3, s4, s5]"
    by (simp add: u(1) f2(4) f3(4) f4(4) f5(3))
  have gone: "map_of (plugins s5) p = None" "map_of (pluginConfigs s5) p = None"
    by (simp_all add: f5 f3 delete_conv')
  from st d u(2,3) f1 f2(1,2,3) f3(1,2,3) f4(1) act gone s1_def show ?thesis by blast
qed


text \<open>Deleting the running module \<^verbatim>\<open>good.js\<close>, whose tab is named by its path.\<close>

theorem deletePlugin_order_witness:
  "data_tab_selector demo_host (''plugin-'' @ ''good.js'') = Some (''plugin-'' @ ''good.js'')
   \<and> nav_items (deletePlugin demo_host True ''good.js'' demo_running) = [''dashboard'']
   \<and> map_of (plugins (deletePlugin demo_host True ''good.js'' demo_running)) ''good.js'' = None
   \<and> map_of (pluginConfigs (deletePlugin demo_host True ''good.js'' demo_running)) ''good.js'' = None
   \<and> ''good.js'' \<notin> activePlugins (deletePlugin demo_host True ''good.js'' demo_running)"
proof -
  have sel: "data_tab_selector demo_host (''plugin-'' @ ''good.js'') = Some (''plugin-'' @ ''good.js'')"
    by (simp add: demo_host_def)
  from deletePlugin_order [OF sel, of demo_running] obtain s1 s2 s3 s4 s5 where
    st: "deletePlugin_states demo_host ''good.js'' demo_running = [s1, s2, s3, s4, s5]"
        "deletePlugin demo_host True ''good.js'' demo_running = s5"
        "list_all (\<lambda>t. ''good.js'' \<notin> activePlugins t) [s1, s2, s3, s4, s5]"
        "map_of (plugins s5) ''good.js'' = None" "map_of (pluginConfigs s5) ''good.js'' = None"
    by blast
  have nav: "nav_items (deletePlugin demo_host True ''good.js'' demo_running) = [''dashboard'']"
    by (simp add: deletePlugin_def deletePlugin_states_def unloadPlugin_def removePluginTab_def
        savePluginConfigs_def showNotification_def console_add_def Let_def
        demo_running_def demo_system_def demo_host_def)
  from sel st nav show ?thesis by simp
qed

text \<open>
  The claim as stated excludes a point of the sequence at which the configuration entry
  is there, the tab is gone and the metadata is gone. The state after the second step is
  such a point: the metadata is erased before the configuration entry.
\<close>

theorem deletePlugin_order_counterexample:
  "map_of (pluginConfigs (deletePlugin_states demo_host ''good.js'' demo_running ! 1)) ''good.js''
     = Some \<lparr>enabled = True, settings = None\<rparr>
   \<and> map_of (plugins (deletePlugin_states demo_host ''good.js'' demo_running ! 1)) ''good.js'' = None
   \<and> ''plugin-good.js'' \<in> set (nav_items demo_running)
   \<and> ''plugin-good.js'' \<notin> set (nav_items (deletePlugin_states demo_host ''good.js'' demo_running ! 1))
   \<and> ''good.js'' \<notin> activePlugins (deletePlugin_states demo_host ''good.js'' demo_running ! 1)"
  by (simp add: deletePlugin_states_def unloadPlugin_def removePluginTab_def
      savePluginConfigs_def showNotification_def console_add_def Let_def
      demo_running_def demo_system_def demo_host_def)

text \<open>
  What the amended claim leaves open. \<^verbatim>\<open>unloadPlugin\<close> looks for the tab under the
  module's path, while a plugin names its tab itself: the bundled network monitor, in the
  file \<^verbatim>\<open>network-monitor.js\<close>, opens the tab \<^verbatim>\<open>network-monitor\<close>. Loading and then
  unloading it leaves that tab in the page.
\<close>

lemma unloadPlugin_leaves_named_tab:
  "nav_items (unloadPlugin demo_host ''network-monitor.js''
                (loadPlugin demo_host ''network-monitor.js'' (JObject []) demo_system))
     = [''dashboard'', ''plugin-network-monitor'']
   \<and> ''network-monitor.js'' \<notin> activePlugins (unloadPlugin demo_host ''network-monitor.js''
                (loadPlugin demo_host ''network-monitor.js'' (JObject []) demo_system))"
  by (simp add: unloadPlugin_def removePluginTab_def loadPlugin_outcome load_failed_def console_add_def
      createPluginTab_def Let_def demo_defs)

section \<open>A value of JSON passes through its text unchanged\<close>

subsection \<open>printing through tokens\<close>

lemma tokens_text_simps [simp]:
  "tokens_text (xs @ ys) = tokens_text xs @ tokens_text ys"
  "tokens_text (t # ts) = token_text t @ tokens_text ts"
  "tokens_text [] = []"
  by (simp_all add: tokens_text_def)

lemma tokens_text_sep: "tokens_text (sep_tokens xss) = join_commas (map tokens_text xss)"
  by (induction xss rule: sep_tokens.induct) simp_all

lemma stringify_tokens: "JSON_stringify v = tokens_text (json_tokens v)"
proof (induction v)
  case (JArray xs)
  have h: "map JSON_stringify xs = map (tokens_text \<circ> json_tokens) xs"
    by (simp add: JArray cong: map_cong)
  show ?case by (simp add: tokens_text_sep h)
next
  case (JObject kvs)
  have "JSON_stringify (snd kv) = tokens_text (json_tokens (snd kv))" if "kv \<in> set kvs" for kv
  proof -
    obtain k v where "kv = (k, v)" by (cases kv)
    with that JObject [of kv v] show ?thesis by simp
  qed
  then have h: "map (\<lambda>kv. quote_string (fst kv) @ CHR '':'' # JSON_stringify (snd kv)) kvs
        = map (tokens_text \<circ> (\<lambda>kv. TString (fst kv) # TColon # json_tokens (snd kv))) kvs"
    by (simp cong: map_cong)
  show ?case by (simp add: tokens_text_sep h)
qed simp_all

subsection \<open>parsing the tokens of a value\<close>

lemma parse_steps:
  "parse_step (Some (stack, ExpValue, r)) t = parse_value_token t stack"
  "t \<noteq> TRBracket \<Longrightarrow> parse_step (Some (stack, ExpValueOrEnd, r)) t = parse_value_token t stack"
  "parse_step (Some (stack, ExpValueOrEnd, r)) TRBracket = close_array stack"
  "parse_step (Some (stack, ExpKeyOrEnd, r)) TRBrace = close_object stack"
  "parse_step (Some (stack, ExpKeyOrEnd, r)) (TString k) = parse_key (TString k) stack"
  "parse_step (Some (stack, ExpKey, r)) t = parse_key t stack"
  "parse_step (Some (stack, ExpColon, r)) TColon = Some (stack, ExpValue, None)"
  "parse_step (Some (stack, ExpCommaOrEnd, r)) TRBracket = close_array stack"
  "parse_step (Some (stack, ExpCommaOrEnd, r)) TRBrace = close_object stack"
  "parse_step (Some (FArray xs # below, ExpCommaOrEnd, r)) TComma = Some (FArray xs # below, ExpValue, None)"
  "parse_step (Some (FObject kvs ko # below, ExpCommaOrEnd, r)) TComma
     = Some (FObject kvs ko # below, ExpKey, None)"
  by (simp_all add: parse_step_def)

lemma parse_frames:
  "close_array (FArray xs # below) = push_value (JArray (rev xs)) below"
  "close_object (FObject kvs None # below) = push_value (JObject (rev kvs)) below"
  "push_value v (FArray xs # below) = Some (FArray (v # xs) # below, ExpCommaOrEnd, None)"
  "push_value v (FObject kvs (Some k) # below) = Some (FObject ((k, v) # kvs) None # below, ExpCommaOrEnd, None)"
  "parse_key (TString k) (FObject kvs None # below) = Some (FObject kvs (Some k) # below, ExpColon, None)"
  "parse_value_token TLBracket stack = Some (FArray [] # stack, ExpValueOrEnd, None)"
  "parse_value_token TLBrace stack = Some (FObject [] None # stack, ExpKeyOrEnd, None)"
  "parse_value_token (TString u) stack = push_value (JString u) stack"
  "parse_value_token (TNumber m e) stack = push_value (JNumber m e) stack"
  "parse_value_token TTrue stack = push_value (JBool True) stack"
  "parse_value_token TFalse stack = push_value (JBool False) stack"
  "parse_value_token TNull stack = push_value JNull stack"
  by (simp_all add: close_array_def close_object_def push_value_def parse_key_def parse_value_token_def)

lemma json_tokens_first: "\<exists>t ts. json_tokens v = t # ts \<and> t \<noteq> TRBracket \<and> t \<noteq> TRBrace"
  by (cases v) auto


lemma parses_or_end:
  "parses v \<Longrightarrow> foldl parse_step (Some (stack, ExpValueOrEnd, r)) (json_tokens v) = push_value v stack"
proof -
  assume p: "parses v"
  from json_tokens_first [of v] obtain t ts where t: "json_tokens v = t # ts" "t \<noteq> TRBracket" by blast
  then have "foldl parse_step (Some (stack, ExpValueOrEnd, r)) (json_tokens v)
           = foldl parse_step (Some (stack, ExpValue, r)) (json_tokens v)"
    by (simp add: parse_steps)
  with p show ?thesis by (simp add: parses_def)
qed

lemma parses_elements:
  "xs \<noteq> [] \<Longrightarrow> \<forall>x\<in>set xs. parses x \<Longrightarrow> x0 = ExpValue \<or> x0 = ExpValueOrEnd \<Longrightarrow>
   foldl parse_step (Some (FArray acc # stack, x0, r)) (sep_tokens (map json_tokens xs) @ [TRBracket])
   = push_value (JArray (rev acc @ xs)) stack"
proof (induction xs arbitrary: acc r x0)
  case Nil
  then show ?case by simp
next
  case (Cons a xs)
  from Cons.prems have pa: "parses a" by simp
  have first: "foldl parse_step (Some (FArray acc # stack, x0, r)) (json_tokens a)
             = Some (FArray (a # acc) # stack, ExpCommaOrEnd, None)"
    using Cons.prems(3) pa parses_or_end [OF pa, of "FArray acc # stack" r]
    by (auto simp: parses_def parse_frames)
  show ?case
  proof (cases xs)
    case Nil
    with first show ?thesis by (simp add: parse_steps parse_frames)
  next
    case (Cons b ys)
    with Cons.prems have "xs \<noteq> []" "\<forall>x\<in>set xs. parses x" by simp_all
    from Cons.IH [OF this, of ExpValue "a # acc" None] first Cons show ?thesis
      by (simp add: parse_steps parse_frames)
  qed
qed

lemma parses_members:
  "kvs \<noteq> [] \<Longrightarrow> \<forall>kv\<in>set kvs. parses (snd kv) \<Longrightarrow> x0 = ExpKeyOrEnd \<or> x0 = ExpKey \<Longrightarrow>
   foldl parse_step (Some (FObject acc None # stack, x0, r))
     (sep_tokens (map (\<lambda>kv. TString (fst kv) # TColon # json_tokens (snd kv)) kvs) @ [TRBrace])
   = push_value (JObject (rev acc @ kvs)) stack"
proof (induction kvs arbitrary: acc r x0)
  case Nil
  then show ?case by simp
next
  case (Cons a kvs)
  obtain k v where a: "a = (k, v)" by (cases a)
  from Cons.prems a have pa: "parses v" by simp
  have key: "parse_step (Some (FObject acc None # stack, x0, r)) (TString k)
             = Some (FObject acc (Some k) # stack, ExpColon, None)"
    using Cons.prems(3) by (auto simp: parse_steps parse_frames)
  have first: "foldl parse_step (Some (FObject acc (Some k) # stack, ExpValue, None)) (json_tokens v)
             = Some (FObject ((k, v) # acc) None # stack, ExpCommaOrEnd, None)"
    using pa by (simp add: parse_frames parses_def)
  show ?case
  proof (cases kvs)
    case Nil
    with first a key show ?thesis by (simp add: parse_steps parse_frames)
  next
    case (Cons b ys)
    with Cons.prems have "kvs \<noteq> []" "\<forall>kv\<in>set kvs. parses (snd kv)" by simp_all
    from Cons.IH [OF this, of ExpKey "a # acc" None] first a key Cons show ?thesis
      by (simp add: parse_steps parse_frames)
  qed
qed

lemma parses_all: "parses v"
proof (induction v)
  case JNull
  show ?case by (simp add: parses_def parse_steps parse_frames)
next
  case (JBool b)
  show ?case by (simp add: parses_def parse_steps parse_frames)
next
  case (JNumber m e)
  show ?case by (simp add: parses_def parse_steps parse_frames)
next
  case (JString u)
  show ?case by (simp add: parses_def parse_steps parse_frames)
next
  case (JArray xs)
  show ?case
  proof (cases "xs = []")
    case True
    then show ?thesis by (simp add: parses_def parse_steps parse_frames)
  next
    case False
    from JArray have all: "\<forall>x\<in>set xs. parses x" by blast
    show ?thesis
      using parses_elements [OF False all, of ExpValueOrEnd "[]" _ None]
      by (simp add: parses_def parse_steps parse_frames)
  qed
next
  case (JObject kvs)
  show ?case
  proof (cases "kvs = []")
    case True
    then show ?thesis by (simp add: parses_def parse_steps parse_frames)
  next
    case False
    have all: "\<forall>kv\<in>set kvs. parses (snd kv)"
    proof
      fix kv assume "kv \<in> set kvs"
      with JObject [of kv "snd kv"] show "parses (snd kv)" by (cases kv) auto
    qed
    show ?thesis
      using parses_members [OF False all, of ExpKeyOrEnd "[]" _ None]
      by (simp add: parses_def parse_steps parse_frames)
  qed
qed

lemma parse_tokens_json: "parse_tokens (json_tokens v) = Some v"
  using parses_all [of v, unfolded parses_def, rule_format, of "[]" None]
  by (simp add: parse_tokens_def push_value_def)

lemma hex_value_digit:
  fixes d :: nat
  assumes "d < 16"
  shows "hex_value (hex_digit d) = Some d"
proof -
  from assms consider "d = 0" | "d = 1" | "d = 2" | "d = 3" | "d = 4" | "d = 5" | "d = 6" | "d = 7"
    | "d = 8" | "d = 9" | "d = 10" | "d = 11" | "d = 12" | "d = 13" | "d = 14" | "d = 15"
    by atomize_elim arith
  then show ?thesis
    by cases (simp_all add: hex_value_def hex_digit_def)
qed

lemma hex4_value:
  fixes n :: nat
  assumes "n < 65536"
  shows "16 * (16 * (16 * (n div 4096 mod 16) + n div 256 mod 16) + n div 16 mod 16) + n mod 16 = n"
proof -
  have e1: "n div 256 = n div 16 div 16" and e2: "n div 4096 = n div 16 div 16 div 16"
    by (simp_all add: div_mult2_eq)
  have small: "n div 16 div 16 div 16 < 16"
    using assms by (simp add: div_mult2_eq less_mult_imp_div_less)
  have "16 * (16 * (16 * (n div 16 div 16 div 16) + n div 16 div 16 mod 16) + n div 16 mod 16) + n mod 16 = n"
    by simp
  with small show ?thesis by (simp add: e1 e2)
qed


lemma foldl_lex_None [simp]: "foldl lex_step None t = None"
  by (induction t) (simp_all add: lex_step_def)

lemma lex_step_Idle [simp]: "lex_step (Some (Idle, ts)) c = lex_idle c ts"
  by (simp add: lex_step_def)

lemma lex_unicode:
  assumes "n < 65536"
  shows "foldl lex_step (Some (InUnicode u [], ts)) (hex4 n) = Some (InString (u @ [n]), ts)"
proof -
  have d: "n div 4096 mod 16 < 16" "n div 256 mod 16 < 16" "n div 16 mod 16 < 16" "n mod 16 < 16"
    by simp_all
  have "foldl lex_step (Some (InUnicode u [], ts)) (hex4 n)
        = Some (InString (u @ [16 * (16 * (16 * (n div 4096 mod 16) + n div 256 mod 16) + n div 16 mod 16) + n mod 16]), ts)"
    by (simp add: hex4_def lex_step_def hex_value_digit [OF d(1)] hex_value_digit [OF d(2)]
        hex_value_digit [OF d(3)] hex_value_digit [OF d(4)] del: mod_div_trivial)
  then show ?thesis by (simp only: hex4_value [OF assms])
qed

lemma lex_escape_steps:
  "lex_step (Some (InString u, ts)) (CHR 0x5C) = Some (InEscape u, ts)"
  "lex_step (Some (InEscape u, ts)) (CHR ''u'') = Some (InUnicode u [], ts)"
  "lex_step (Some (InEscape u, ts)) (CHR 0x22) = Some (InString (u @ [0x22]), ts)"
  "lex_step (Some (InEscape u, ts)) (CHR 0x5C) = Some (InString (u @ [0x5C]), ts)"
  "lex_step (Some (InEscape u, ts)) (CHR ''b'') = Some (InString (u @ [0x08]), ts)"
  "lex_step (Some (InEscape u, ts)) (CHR ''f'') = Some (InString (u @ [0x0C]), ts)"
  "lex_step (Some (InEscape u, ts)) (CHR ''n'') = Some (InString (u @ [0x0A]), ts)"
  "lex_step (Some (InEscape u, ts)) (CHR ''r'') = Some (InString (u @ [0x0D]), ts)"
  "lex_step (Some (InEscape u, ts)) (CHR ''t'') = Some (InString (u @ [0x09]), ts)"
  "lex_step (Some (InString u, ts)) (CHR 0x22) = Some (Idle, TString u # ts)"
  by (simp_all add: lex_step_def simple_escape_def)

lemma lex_raw_unit:
  fixes n :: nat
  assumes "32 \<le> n" "n < 256" "n \<noteq> 0x22" "n \<noteq> 0x5C"
  shows "lex_step (Some (InString u, ts)) (char_of n) = Some (InString (u @ [n]), ts)"
proof -
  have o: "of_char (char_of n) = n" using assms by simp
  have a: "char_of n \<noteq> CHR 0x22"
  proof
    assume "char_of n = CHR 0x22"
    then have "(of_char (char_of n) :: nat) = of_char (CHR 0x22)" by simp
    with o assms show False by simp
  qed
  have b: "char_of n \<noteq> CHR 0x5C"
  proof
    assume "char_of n = CHR 0x5C"
    then have "(of_char (char_of n) :: nat) = of_char (CHR 0x5C)" by simp
    with o assms show False by simp
  qed
  from a b o assms(1) show ?thesis by (simp add: lex_step_def)
qed

lemma lex_quote_unit:
  assumes "n < 65536"
  shows "foldl lex_step (Some (InString u, ts)) (quote_unit n) = Some (InString (u @ [n]), ts)"
proof -
  consider "n = 0x22" | "n = 0x5C" | "n = 0x08" | "n = 0x0C" | "n = 0x0A" | "n = 0x0D" | "n = 0x09"
    | "n \<noteq> 0x22" "n \<noteq> 0x5C" "n \<noteq> 0x08" "n \<noteq> 0x0C" "n \<noteq> 0x0A" "n \<noteq> 0x0D" "n \<noteq> 0x09"
      "n < 32 \<or> 256 \<le> n"
    | "n \<noteq> 0x22" "n \<noteq> 0x5C" "32 \<le> n" "n < 256"
    by atomize_elim arith
  then show ?thesis
  proof cases
    case 8
    then have q: "quote_unit n = [CHR 0x5C, CHR ''u''] @ hex4 n" by (simp add: quote_unit_def)
    show ?thesis using lex_unicode [OF assms, of u ts]
      by (simp add: q lex_escape_steps)
  next
    case 9
    then have q: "quote_unit n = [char_of n]" by (simp add: quote_unit_def)
    show ?thesis using lex_raw_unit [OF 9(3,4,1,2), of u ts] by (simp add: q)
  qed (simp_all add: quote_unit_def lex_escape_steps)
qed

lemma lex_string_body:
  "units_ok u \<Longrightarrow>
   foldl lex_step (Some (InString u0, ts)) (concat (map quote_unit u)) = Some (InString (u0 @ u), ts)"
proof (induction u arbitrary: u0)
  case Nil
  show ?case by simp
next
  case (Cons n u)
  then have n: "n < 65536" and u: "units_ok u" by (simp_all add: units_ok_def)
  show ?case using lex_quote_unit [OF n, of u0 ts] Cons.IH [OF u, of "u0 @ [n]"] by simp
qed

lemma lex_string_token:
  "units_ok u \<Longrightarrow> foldl lex_step (Some (Idle, ts)) (quote_string u) = Some (Idle, TString u # ts)"
  using lex_string_body [of u "[]" ts]
  by (simp add: quote_string_def lex_idle_def is_json_space_def lex_escape_steps)

subsection \<open>decimal digits\<close>

lemma digit_facts:
  fixes k :: nat
  assumes "k < 10"
  shows "is_digit (digit k)" "digit_value (digit k) = int k" "(digit k = CHR ''0'') = (k = 0)"
proof -
  from assms consider "k = 0" | "k = 1" | "k = 2" | "k = 3" | "k = 4" | "k = 5" | "k = 6" | "k = 7"
    | "k = 8" | "k = 9"
    by atomize_elim arith
  then show "is_digit (digit k)" "digit_value (digit k) = int k" "(digit k = CHR ''0'') = (k = 0)"
    by (cases; simp add: digit_def is_digit_def digit_value_def)+
qed

lemma nat_digits_digits: "list_all is_digit (nat_digits n)"
proof (induction n rule: nat_digits.induct)
  case (1 n)
  show ?case
  proof (cases "n < 10")
    case True
    then show ?thesis by (simp add: nat_digits.simps [of n] digit_facts)
  next
    case False
    with 1 show ?thesis by (simp add: nat_digits.simps [of n] digit_facts)
  qed
qed

lemma nat_digits_nonempty: "nat_digits n \<noteq> []"
  by (simp add: nat_digits.simps [of n])

lemma nat_digits_last: "last (nat_digits n) = digit (n mod 10)"
  by (simp add: nat_digits.simps [of n])

lemma nat_digits_hd: "0 < n \<Longrightarrow> hd (nat_digits n) \<noteq> CHR ''0''"
proof (induction n rule: nat_digits.induct)
  case (1 n)
  show ?case
  proof (cases "n < 10")
    case True
    with 1 show ?thesis by (simp add: nat_digits.simps [of n] digit_facts)
  next
    case False
    then have "0 < n div 10" by simp
    with 1 False show ?thesis
      by (simp add: nat_digits.simps [of n] nat_digits_nonempty)
  qed
qed


lemma digits_value_from: "digits_value ds = digits_from 0 ds"
  by (simp add: digits_value_def digits_from_def)

lemma digits_from_append: "digits_from a (xs @ ys) = digits_from (digits_from a xs) ys"
  by (simp add: digits_from_def)

lemma digits_from_nat_digits: "digits_from a (nat_digits n) = a * 10 ^ length (nat_digits n) + int n"
proof (induction n arbitrary: a rule: nat_digits.induct)
  case (1 n)
  show ?case
  proof (cases "n < 10")
    case True
    then show ?thesis by (simp add: nat_digits.simps [of n] digits_from_def digit_facts)
  next
    case False
    have "digits_from a (nat_digits n) = 10 * digits_from a (nat_digits (n div 10)) + int (n mod 10)"
      using False by (simp add: nat_digits.simps [of n] digits_from_def digit_facts)
    also have "\<dots> = 10 * (a * 10 ^ length (nat_digits (n div 10)) + int (n div 10)) + int (n mod 10)"
      using 1 [OF False] by simp
    also have "\<dots> = a * 10 ^ length (nat_digits n) + int n"
      using False by (simp add: nat_digits.simps [of n] algebra_simps zmod_int zdiv_int)
    finally show ?thesis .
  qed
qed

lemma digits_value_nat_digits: "digits_value (nat_digits n) = int n"
  by (simp add: digits_value_from digits_from_nat_digits)

lemma digits_from_zeros: "digits_from 0 (replicate j CHR ''0'') = 0"
  by (induction j) (simp_all add: digits_from_def digit_value_def)

lemma digits_value_leading_zeros: "digits_value (replicate j CHR ''0'' @ ds) = digits_value ds"
  by (simp add: digits_value_from digits_from_append digits_from_zeros)

subsection \<open>reading a number back\<close>

lemma takeWhile_digits_stop:
  "list_all is_digit a \<Longrightarrow> (t = [] \<or> \<not> is_digit (hd t)) \<Longrightarrow>
   takeWhile is_digit (a @ t) = a \<and> dropWhile is_digit (a @ t) = t"
proof (induction a)
  case Nil
  then show ?case by (cases t) auto
next
  case (Cons c a)
  then show ?case by auto
qed

lemma trailing_zeros_none:
  "D \<noteq> [] \<Longrightarrow> last D \<noteq> CHR ''0'' \<Longrightarrow> takeWhile (\<lambda>c. c = CHR ''0'') (rev D) = []"
  by (cases "rev D") (auto simp: last_rev [symmetric] simp del: last_rev)

lemma trailing_zeros_some:
  "ds \<noteq> [] \<Longrightarrow> last ds \<noteq> CHR ''0'' \<Longrightarrow>
   takeWhile (\<lambda>c. c = CHR ''0'') (rev (ds @ replicate j CHR ''0'')) = replicate j CHR ''0''"
  using trailing_zeros_none [of ds] by (simp add: takeWhile_append)

lemma scan_exponent_text:
  "scan_exponent [] = Some 0"
  "xs \<noteq> [] \<Longrightarrow> list_all is_digit xs \<Longrightarrow> scan_exponent (CHR ''e'' # CHR ''+'' # xs) = Some (digits_value xs)"
  "xs \<noteq> [] \<Longrightarrow> list_all is_digit xs \<Longrightarrow> scan_exponent (CHR ''e'' # CHR ''-'' # xs) = Some (- digits_value xs)"
  by (simp_all add: scan_exponent_def)



lemma number_of_lexeme_shape:
  assumes a: "list_all is_digit a" "a \<noteq> []" "hd a = CHR ''0'' \<longrightarrow> length a = 1"
    and b: "list_all is_digit b"
    and x: "scan_exponent x = Some ex" "x = [] \<or> hd x = CHR ''e''"
  shows "number_of_lexeme (sign_text neg @ a @ frac_text b @ x)
         = Some (normal_number neg (a @ b) (ex - int (length b)))"
proof -
  obtain a0 as where a0: "a = a0 # as" using a(2) by (cases a) auto
  with a(1) have da: "is_digit a0" by simp
  then have nm: "a0 \<noteq> CHR ''-''" by (auto simp: is_digit_def)
  have nx: "x = [] \<or> \<not> is_digit (hd x)" using x(2) by (auto simp: is_digit_def)
  let ?t = "sign_text neg @ a @ frac_text b @ x"
  let ?body = "a @ frac_text b @ x"
  have neg: "(case ?t of [] \<Rightarrow> False | c # _ \<Rightarrow> c = CHR ''-'') = neg"
  proof (cases neg)
    case True
    then have "sign_text neg = [CHR ''-'']" by (simp add: sign_text_def)
    with True show ?thesis by simp
  next
    case False
    then have "sign_text neg = []" by (simp add: sign_text_def)
    with False nm show ?thesis by (simp add: a0)
  qed
  have t0: "(if neg then tl ?t else ?t) = ?body" by (cases neg) (simp_all add: sign_text_def)
  have stop: "frac_text b @ x = [] \<or> \<not> is_digit (hd (frac_text b @ x))"
    using nx by (auto simp: is_digit_def frac_text_def)
  from takeWhile_digits_stop [OF a(1) stop]
  have tw: "takeWhile is_digit ?body = a" "dropWhile is_digit ?body = frac_text b @ x"
    by simp_all
  show ?thesis
  proof (cases "b = []")
    case True
    have frac: "(case x of [] \<Rightarrow> False | c # _ \<Rightarrow> c = CHR ''.'') = False"
      using x(2) by (cases x) auto
    show ?thesis
      unfolding number_of_lexeme_def neg t0 Let_def tw
      using a True frac x(1) by (simp add: frac_text_def)
  next
    case False
    from takeWhile_digits_stop [OF b nx]
    have twb: "takeWhile is_digit (b @ x) = b" "dropWhile is_digit (b @ x) = x" by simp_all
    show ?thesis
      unfolding number_of_lexeme_def neg t0 Let_def tw
      using a False x(1) twb by (simp add: frac_text_def)
  qed
qed

lemma normal_number_zeros:
  assumes "ds \<noteq> []" "last ds \<noteq> CHR ''0''" "digits_value ds = v" "v \<noteq> 0"
  shows "normal_number neg (ds @ replicate j CHR ''0'') X = ((if neg then - v else v), X + int j)"
  using assms trailing_zeros_some [OF assms(1,2), of j]
  by (simp add: normal_number_def Let_def)

lemma normal_number_plain:
  assumes "ds \<noteq> []" "last ds \<noteq> CHR ''0''" "digits_value ds = v" "v \<noteq> 0"
  shows "normal_number neg ds X = ((if neg then - v else v), X)"
  using normal_number_zeros [OF assms, of neg 0 X] by simp

lemma exponent_text:
  "scan_exponent (CHR ''e'' # (if ex < 0 then ''-'' else ''+'') @ nat_digits (nat \<bar>ex\<bar>)) = Some ex"
proof (cases "ex < 0")
  case True
  with scan_exponent_text(3) [OF nat_digits_nonempty nat_digits_digits, of "nat \<bar>ex\<bar>"]
  show ?thesis by (simp add: digits_value_nat_digits)
next
  case False
  with scan_exponent_text(2) [OF nat_digits_nonempty nat_digits_digits, of "nat \<bar>ex\<bar>"]
  show ?thesis by (simp add: digits_value_nat_digits)
qed

lemma number_chars:
  "list_all is_digit a \<Longrightarrow> list_all is_number_char a"
  "list_all is_number_char (sign_text neg)"
  "list_all is_digit b \<Longrightarrow> list_all is_number_char (frac_text b)"
  "list_all is_number_char (CHR ''e'' # (if ex < 0 then ''-'' else ''+'') @ nat_digits (nat \<bar>ex\<bar>))"
proof -
  show d: "list_all is_number_char a" if "list_all is_digit a" for a
    using that by (simp add: list_all_iff is_number_char_def)
  show "list_all is_number_char (sign_text neg)"
    by (simp add: sign_text_def is_number_char_def)
  show "list_all is_number_char (frac_text b)" if "list_all is_digit b"
    using d [OF that] by (simp add: frac_text_def is_number_char_def)
  show "list_all is_number_char (CHR ''e'' # (if ex < 0 then ''-'' else ''+'') @ nat_digits (nat \<bar>ex\<bar>))"
    using d [OF nat_digits_digits, of "nat \<bar>ex\<bar>"] by (simp add: is_number_char_def)
qed

lemma zeros_digits: "list_all is_digit (replicate j CHR ''0'')"
  by (induction j) (simp_all add: is_digit_def)


lemma reads_backI:
  assumes "t = sign_text (m < 0) @ a @ frac_text b @ x"
    "list_all is_digit a" "a \<noteq> []" "hd a = CHR ''0'' \<longrightarrow> length a = 1"
    "list_all is_digit b"
    "scan_exponent x = Some ex" "x = [] \<or> hd x = CHR ''e''" "list_all is_number_char x"
    "normal_number (m < 0) (a @ b) (ex - int (length b)) = (m, e)"
  shows "reads_back m e t"
  unfolding reads_back_def using assms by blast

lemma number_text_reads_back:
  assumes m0: "m \<noteq> 0" and nz: "m mod 10 \<noteq> 0"
  shows "reads_back m e (number_text m e)"
proof -
  define ds where "ds = nat_digits (nat \<bar>m\<bar>)"
  define k where "k = int (length ds)"
  define n where "n = k + e"
  define ex where "ex = n - 1"
  define x where "x = CHR ''e'' # (if ex < 0 then ''-'' else ''+'') @ nat_digits (nat \<bar>ex\<bar>)"
  have pos: "0 < nat \<bar>m\<bar>" using m0 by simp
  have dd: "list_all is_digit ds" and dne: "ds \<noteq> []" and dh: "hd ds \<noteq> CHR ''0''"
    unfolding ds_def using nat_digits_digits nat_digits_nonempty nat_digits_hd [OF pos] by simp_all
  have "\<not> (10::int) dvd m" using nz by (simp add: dvd_eq_mod_eq_0)
  then have "\<not> (10::nat) dvd nat \<bar>m\<bar>" by (simp add: dvd_nat_abs_iff)
  then have "nat \<bar>m\<bar> mod 10 \<noteq> 0" by (simp add: dvd_eq_mod_eq_0)
  then have dl: "last ds \<noteq> CHR ''0''"
    unfolding ds_def by (simp add: nat_digits_last digit_facts)
  have dv: "digits_value ds = \<bar>m\<bar>" unfolding ds_def by (simp add: digits_value_nat_digits)
  have av: "\<bar>m\<bar> \<noteq> 0" using m0 by simp
  have sg: "(if m < 0 then - \<bar>m\<bar> else \<bar>m\<bar>) = m" by simp
  have kpos: "0 < k" unfolding k_def using dne by simp
  have xs: "scan_exponent x = Some ex" "x = [] \<or> hd x = CHR ''e''" "list_all is_number_char x"
    unfolding x_def using exponent_text [of ex] number_chars(4) [of ex] by simp_all
  have nt: "number_text m e = sign_text (m < 0) @
               (if k \<le> n \<and> n \<le> 21 then ds @ replicate (nat (n - k)) CHR ''0''
                else if 0 < n \<and> n \<le> 21 then take (nat n) ds @ ''.'' @ drop (nat n) ds
                else if - 6 < n \<and> n \<le> 0 then ''0.'' @ replicate (nat (- n)) CHR ''0'' @ ds
                else if k = 1 then ds @ x
                else take 1 ds @ ''.'' @ drop 1 ds @ x)"
    using m0 by (simp add: number_text_def Let_def ds_def k_def n_def ex_def x_def sign_text_def)
  consider (ints) "k \<le> n" "n \<le> 21"
    | (point) "n < k" "0 < n" "n \<le> 21"
    | (small) "- 6 < n" "n \<le> 0"
    | (exp1) "\<not> (k \<le> n \<and> n \<le> 21)" "\<not> (0 < n \<and> n \<le> 21)" "\<not> (- 6 < n \<and> n \<le> 0)" "k = 1"
    | (expk) "\<not> (k \<le> n \<and> n \<le> 21)" "\<not> (0 < n \<and> n \<le> 21)" "\<not> (- 6 < n \<and> n \<le> 0)" "k \<noteq> 1"
    by atomize_elim arith
  then show ?thesis
  proof cases
    case ints
    let ?a = "ds @ replicate (nat (n - k)) CHR ''0''"
    have t: "number_text m e = sign_text (m < 0) @ ?a @ frac_text [] @ []"
      using ints by (simp add: nt frac_text_def)
    have nn: "normal_number (m < 0) (?a @ []) (0 - int (length ([] :: string))) = (m, e)"
      using normal_number_zeros [OF dne dl dv av, of "m < 0" "nat (n - k)" 0] ints sg
      by (simp add: n_def)
    show ?thesis
      by (rule reads_backI [OF t _ _ _ _ scan_exponent_text(1) _ _ nn])
         (use dd dne dh zeros_digits in simp_all)
  next
    case point
    let ?a = "take (nat n) ds" and ?b = "drop (nat n) ds"
    have bne: "?b \<noteq> []" using point by (simp add: k_def)
    have ane: "?a \<noteq> []" using point dne by simp
    have t: "number_text m e = sign_text (m < 0) @ ?a @ frac_text ?b @ []"
      using point bne by (simp add: nt frac_text_def)
    have lb: "int (length ?b) = k - n" using point by (simp add: k_def)
    have E: "0 - int (length ?b) = e" using lb by (simp add: n_def)
    have nn: "normal_number (m < 0) (?a @ ?b) (0 - int (length ?b)) = (m, e)"
      using normal_number_plain [OF dne dl dv av, of "m < 0" "0 - int (length ?b)"]
      by (simp only: sg E append_take_drop_id)
    have ha: "hd ?a = hd ds" using point by (simp add: hd_take)
    have da: "list_all is_digit ?a" "list_all is_digit ?b"
      using dd by (simp_all add: list_all_iff, (meson in_set_takeD in_set_dropD)+)
    show ?thesis
      by (rule reads_backI [OF t da(1) ane _ da(2) scan_exponent_text(1) _ _ nn])
         (use dh ha in simp_all)
  next
    case small
    let ?b = "replicate (nat (- n)) CHR ''0'' @ ds"
    have t: "number_text m e = sign_text (m < 0) @ ''0'' @ frac_text ?b @ []"
      using small kpos dne by (simp add: nt frac_text_def)
    have lb: "int (length ?b) = k - n" using small by (simp add: k_def)
    have D: "''0'' @ ?b = replicate (Suc (nat (- n))) CHR ''0'' @ ds" by simp
    have ne: "''0'' @ ?b \<noteq> []" by simp
    have la: "last (''0'' @ ?b) \<noteq> CHR ''0''" using dl dne by simp
    have v: "digits_value (''0'' @ ?b) = \<bar>m\<bar>"
      unfolding D by (simp only: digits_value_leading_zeros dv)
    have E: "0 - int (length ?b) = e" using lb by (simp add: n_def)
    have nn: "normal_number (m < 0) (''0'' @ ?b) (0 - int (length ?b)) = (m, e)"
      using normal_number_plain [OF ne la v av, of "m < 0" "0 - int (length ?b)"]
      by (simp only: sg E)
    have db: "list_all is_digit ?b" using dd zeros_digits by simp
    show ?thesis
      by (rule reads_backI [OF t _ _ _ db scan_exponent_text(1) _ _ nn])
         (simp_all add: is_digit_def)
  next
    case exp1
    from exp1 have c: "(k \<le> n \<and> n \<le> 21) = False" "(0 < n \<and> n \<le> 21) = False"
        "(- 6 < n \<and> n \<le> 0) = False" "(k = 1) = True"
      by blast+
    have t: "number_text m e = sign_text (m < 0) @ ds @ frac_text [] @ x"
      unfolding nt c by (simp add: frac_text_def)
    have nn: "normal_number (m < 0) (ds @ []) (ex - int (length ([] :: string))) = (m, e)"
      using normal_number_plain [OF dne dl dv av, of "m < 0" ex] sg exp1(4)
      by (simp add: n_def ex_def)
    show ?thesis
      by (rule reads_backI [OF t dd dne _ _ xs nn]) (use dh in simp_all)
  next
    case expk
    let ?a = "take 1 ds" and ?b = "drop 1 ds"
    have k2: "2 \<le> k" using expk(4) kpos by simp
    have bne: "?b \<noteq> []" using k2 by (simp add: k_def)
    have ane: "?a \<noteq> []" using dne by simp
    from expk have c: "(k \<le> n \<and> n \<le> 21) = False" "(0 < n \<and> n \<le> 21) = False"
        "(- 6 < n \<and> n \<le> 0) = False" "(k = 1) = False"
      by blast+
    have t: "number_text m e = sign_text (m < 0) @ ?a @ frac_text ?b @ x"
      unfolding nt c using bne by (simp add: frac_text_def)
    have lb: "int (length ?b) = k - 1" using k2 by (simp add: k_def)
    have E: "ex - int (length ?b) = e" using lb by (simp add: n_def ex_def)
    have nn: "normal_number (m < 0) (?a @ ?b) (ex - int (length ?b)) = (m, e)"
      using normal_number_plain [OF dne dl dv av, of "m < 0" "ex - int (length ?b)"]
      by (simp only: sg E append_take_drop_id)
    have ha: "hd ?a = hd ds" using dne by (simp add: hd_take)
    have da: "list_all is_digit ?a" "list_all is_digit ?b"
      using dd by (simp_all add: list_all_iff, (meson in_set_takeD in_set_dropD)+)
    show ?thesis
      by (rule reads_backI [OF t da(1) ane _ da(2) xs nn]) (use dh ha in simp_all)
  qed
qed

lemma number_zero: "number_of_lexeme ''0'' = Some (0, 0)"
  by (simp add: number_of_lexeme_def scan_exponent_def normal_number_def is_digit_def
      digits_value_def Let_def)

lemma number_round:
  assumes "normal m e"
  shows "number_of_lexeme (number_text m e) = Some (m, e)"
proof (cases "m = 0")
  case True
  with assms show ?thesis by (simp add: normal_def number_text_def number_zero)
next
  case False
  with assms have "m mod 10 \<noteq> 0" by (simp add: normal_def)
  from number_text_reads_back [OF False this, of e] obtain a b x ex where
    r: "number_text m e = sign_text (m < 0) @ a @ frac_text b @ x"
       "list_all is_digit a" "a \<noteq> []" "hd a = CHR ''0'' \<longrightarrow> length a = 1"
       "list_all is_digit b" "scan_exponent x = Some ex" "x = [] \<or> hd x = CHR ''e''"
       "normal_number (m < 0) (a @ b) (ex - int (length b)) = (m, e)"
    unfolding reads_back_def by blast
  from number_of_lexeme_shape [OF r(2,3,4,5,6,7), of "m < 0"] r(1,8) show ?thesis by simp
qed

lemma number_text_chars:
  assumes "normal m e"
  shows "\<exists>c cs. number_text m e = c # cs \<and> (c = CHR ''-'' \<or> is_digit c) \<and> list_all is_number_char cs"
proof (cases "m = 0")
  case True
  then show ?thesis by (simp add: number_text_def is_digit_def)
next
  case False
  with assms have "m mod 10 \<noteq> 0" by (simp add: normal_def)
  from number_text_reads_back [OF False this, of e] obtain a b x ex where
    r: "number_text m e = sign_text (m < 0) @ a @ frac_text b @ x"
       "list_all is_digit a" "a \<noteq> []" "list_all is_digit b" "list_all is_number_char x"
    unfolding reads_back_def by blast
  obtain a0 as where a: "a = a0 # as" using r(3) by (cases a) auto
  have all: "list_all is_number_char (sign_text (m < 0) @ a @ frac_text b @ x)"
    using number_chars(1) [OF r(2)] number_chars(2) [of "m < 0"] number_chars(3) [OF r(4)] r(5)
    by simp
  show ?thesis
  proof (cases "m < 0")
    case True
    with all show ?thesis by (simp add: r(1) sign_text_def)
  next
    case False
    with all r(2) show ?thesis by (simp add: r(1) sign_text_def a)
  qed
qed

subsection \<open>the tokenizer on the text of a token list\<close>

lemma lex_number_run:
  "list_all is_number_char w' \<Longrightarrow>
   foldl lex_step (Some (InNumber w, ts)) w' = Some (InNumber (w @ w'), ts)"
  by (induction w' arbitrary: w) (simp_all add: lex_step_def)

lemma lex_name_run:
  "list_all is_name_char w' \<Longrightarrow>
   foldl lex_step (Some (InName w, ts)) w' = Some (InName (w @ w'), ts)"
  by (induction w' arbitrary: w) (simp_all add: lex_step_def)

lemma lex_idle_number: "c = CHR ''-'' \<or> is_digit c \<Longrightarrow> lex_idle c ts = Some (InNumber [c], ts)"
  by (auto simp: lex_idle_def is_digit_def is_json_space_def)

text \<open>from between tokens, the text of a word leaves the tokenizer collecting that word\<close>

lemma lex_word:
  assumes "wordy t" "token_ok t"
  shows "foldl lex_step (Some (Idle, ts)) (token_text t) = Some (word_mode t, ts)"
proof (cases t)
  case (TNumber m e)
  with assms have "normal m e" by simp
  from number_text_chars [OF this] obtain c cs where
    c: "number_text m e = c # cs" "c = CHR ''-'' \<or> is_digit c" "list_all is_number_char cs" by blast
  show ?thesis
    using lex_idle_number [OF c(2), of ts] lex_number_run [OF c(3), of "[c]" ts]
    by (simp add: TNumber c(1))
next
  case TTrue
  then show ?thesis
    by (simp add: lex_idle_def is_json_space_def is_digit_def is_name_char_def lex_step_def)
next
  case TFalse
  then show ?thesis
    by (simp add: lex_idle_def is_json_space_def is_digit_def is_name_char_def lex_step_def)
next
  case TNull
  then show ?thesis
    by (simp add: lex_idle_def is_json_space_def is_digit_def is_name_char_def lex_step_def)
qed (use assms in simp_all)

text \<open>a word that is being collected is finished by the end of the text\<close>

lemma lex_end_word:
  assumes "wordy t" "token_ok t"
  shows "lex_end (Some (word_mode t, ts)) = Some (rev (t # ts))"
proof (cases t)
  case (TNumber m e)
  with assms have "normal m e" by simp
  from number_round [OF this] show ?thesis by (simp add: TNumber lex_end_def)
qed (use assms in \<open>simp_all add: lex_end_def name_token_def\<close>)

text \<open>and by the first character of a token that is not a word\<close>

lemma lex_word_then:
  assumes "wordy t" "token_ok t" "\<not> wordy t'"
  shows "foldl lex_step (Some (word_mode t, ts)) (token_text t' @ rest)
       = foldl lex_step (Some (Idle, t # ts)) (token_text t' @ rest)"
proof -
  obtain c cs where c: "token_text t' = c # cs" "\<not> is_number_char c" "\<not> is_name_char c"
    using assms(3)
    by (cases t') (simp_all add: quote_string_def is_number_char_def is_name_char_def is_digit_def)
  have "lex_step (Some (word_mode t, ts)) c = lex_idle c (t # ts)"
  proof (cases t)
    case (TNumber m e)
    with assms have "normal m e" by simp
    from number_round [OF this] c(2) show ?thesis by (simp add: TNumber lex_step_def)
  qed (use assms c(3) in \<open>simp_all add: lex_step_def name_token_def\<close>)
  then show ?thesis by (simp add: c(1))
qed

lemma lex_plain:
  assumes "\<not> wordy t" "token_ok t"
  shows "foldl lex_step (Some (Idle, ts)) (token_text t) = Some (Idle, t # ts)"
proof (cases t)
  case (TString u)
  with assms show ?thesis using lex_string_token [of u ts] by simp
qed (use assms in \<open>simp_all add: lex_idle_def is_json_space_def\<close>)

lemma lex_tokens_general:
  "list_all token_ok ts \<Longrightarrow> separated ts \<Longrightarrow>
   lex_end (foldl lex_step (Some (Idle, acc)) (tokens_text ts)) = Some (rev acc @ ts)
   \<and> (\<forall>t. wordy t \<and> token_ok t \<and> (ts = [] \<or> \<not> wordy (hd ts)) \<longrightarrow>
         lex_end (foldl lex_step (Some (word_mode t, acc)) (tokens_text ts)) = Some (rev acc @ t # ts))"
proof (induction ts arbitrary: acc)
  case Nil
  have "lex_end (Some (Idle, acc)) = Some (rev acc)" by (simp add: lex_end_def)
  then show ?case by (simp add: lex_end_word)
next
  case (Cons t' ts)
  from Cons.prems have ok: "token_ok t'" "list_all token_ok ts" by simp_all
  from Cons.prems(2) have sep: "separated ts" by (cases ts) simp_all
  note IH = Cons.IH [OF ok(2) sep]
  have idle: "lex_end (foldl lex_step (Some (Idle, acc)) (tokens_text (t' # ts))) = Some (rev acc @ t' # ts)"
    for acc
  proof (cases "wordy t'")
    case True
    from Cons.prems(2) True have nxt: "ts = [] \<or> \<not> wordy (hd ts)" by (cases ts) auto
    from IH [of acc] True ok(1) nxt
    have "lex_end (foldl lex_step (Some (word_mode t', acc)) (tokens_text ts)) = Some (rev acc @ t' # ts)"
      by blast
    then show ?thesis by (simp add: lex_word [OF True ok(1)])
  next
    case False
    from IH [of "t' # acc"]
    have "lex_end (foldl lex_step (Some (Idle, t' # acc)) (tokens_text ts)) = Some (rev (t' # acc) @ ts)"
      by blast
    then show ?thesis by (simp add: lex_plain [OF False ok(1)])
  qed
  have pending: "lex_end (foldl lex_step (Some (word_mode t, acc)) (tokens_text (t' # ts)))
                 = Some (rev acc @ t # t' # ts)"
    if "wordy t" "token_ok t" "\<not> wordy t'" for t
    using lex_word_then [OF that, of acc "tokens_text ts"] idle [of "t # acc"] by simp
  from idle pending show ?case by auto
qed

lemma lex_tokens:
  "list_all token_ok ts \<Longrightarrow> separated ts \<Longrightarrow> lex (tokens_text ts) = Some ts"
  using lex_tokens_general [of ts "[]"] by (simp add: lex_def)

subsection \<open>the tokens of a value are well formed\<close>

lemma separated_split:
  "\<not> wordy t \<Longrightarrow> separated (xs @ t # ys) = (separated xs \<and> separated ys)"
proof (induction xs rule: separated.induct)
  case 1
  then show ?case by (cases ys) simp_all
next
  case (2 a)
  then show ?case by (cases ys) simp_all
next
  case (3 a b ts)
  then show ?case by simp
qed

lemma separated_Cons: "\<not> wordy t \<Longrightarrow> separated (t # ys) = separated ys"
  using separated_split [of t "[]" ys] by simp

lemma separated_snoc: "\<not> wordy t \<Longrightarrow> separated (xs @ [t]) = separated xs"
  using separated_split [of t xs "[]"] by simp

lemma separated_sep_tokens:
  "(\<And>x. x \<in> set xss \<Longrightarrow> separated x) \<Longrightarrow> separated (sep_tokens xss)"
  by (induction xss rule: sep_tokens.induct) (simp_all add: separated_split)

lemma token_ok_sep_tokens:
  "(\<And>x. x \<in> set xss \<Longrightarrow> list_all token_ok x) \<Longrightarrow> list_all token_ok (sep_tokens xss)"
  by (induction xss rule: sep_tokens.induct) simp_all

lemma json_tokens_ok:
  "storable v \<Longrightarrow> list_all token_ok (json_tokens v) \<and> separated (json_tokens v)"
proof (induction v)
  case (JArray xs)
  then have el: "\<And>x. x \<in> set (map json_tokens xs) \<Longrightarrow> list_all token_ok x \<and> separated x"
    by (auto simp: list_all_iff)
  have "list_all token_ok (sep_tokens (map json_tokens xs))"
    by (rule token_ok_sep_tokens) (use el in blast)
  moreover have "separated (sep_tokens (map json_tokens xs))"
    by (rule separated_sep_tokens) (use el in blast)
  ultimately show ?case by (simp add: separated_Cons separated_snoc)
next
  case (JObject kvs)
  have "list_all token_ok x \<and> separated x"
    if "x \<in> set (map (\<lambda>kv. TString (fst kv) # TColon # json_tokens (snd kv)) kvs)" for x
  proof -
    from that obtain k w where kw: "(k, w) \<in> set kvs" "x = TString k # TColon # json_tokens w"
      by auto
    from kw(1) have "w \<in> Basic_BNFs.snds (k, w)" by simp
    from JObject.IH [OF kw(1) this] JObject.prems kw(1)
    have "units_ok k" "list_all token_ok (json_tokens w)" "separated (json_tokens w)"
      by (auto simp: list_all_iff)
    then show ?thesis by (simp add: kw(2) separated_Cons)
  qed
  then have el: "\<And>x. x \<in> set (map (\<lambda>kv. TString (fst kv) # TColon # json_tokens (snd kv)) kvs) \<Longrightarrow>
      list_all token_ok x \<and> separated x"
    by blast
  have "list_all token_ok (sep_tokens (map (\<lambda>kv. TString (fst kv) # TColon # json_tokens (snd kv)) kvs))"
    by (rule token_ok_sep_tokens) (use el in blast)
  moreover have "separated (sep_tokens (map (\<lambda>kv. TString (fst kv) # TColon # json_tokens (snd kv)) kvs))"
    by (rule separated_sep_tokens) (use el in blast)
  ultimately show ?case by (simp add: separated_Cons separated_snoc)
qed simp_all

text \<open>
  The passage of a value through its text: what \<^verbatim>\<open>JSON.stringify\<close> writes for a
  value of JSON, \<^verbatim>\<open>JSON.parse\<close> reads as that value.
\<close>

lemma JSON_round_trip: "storable v \<Longrightarrow> JSON_parse (JSON_stringify v) = Some v"
  using json_tokens_ok [of v] lex_tokens [of "json_tokens v"]
  by (simp add: JSON_parse_def stringify_tokens parse_tokens_json)

section \<open>Properties of the metadata extraction\<close>

lemma plugin_match_skip:
  "(\<forall>i<length pre. match_here (drop i (pre @ t)) = None) \<Longrightarrow> plugin_match (pre @ t) = plugin_match t"
proof (induction pre)
  case Nil
  show ?case by simp
next
  case (Cons c pre)
  from Cons.prems have h0: "match_here (c # pre @ t) = None" by force
  have "\<forall>i<length pre. match_here (drop i (pre @ t)) = None"
  proof (intro allI impI)
    fix i assume "i < length pre"
    then have "Suc i < length (c # pre)" by simp
    with Cons.prems have "match_here (drop (Suc i) ((c # pre) @ t)) = None" by blast
    then show "match_here (drop i (pre @ t)) = None" by simp
  qed
  with Cons.IH have "plugin_match (pre @ t) = plugin_match t" by blast
  with h0 show ?case by simp
qed


lemma strip_prefix_contains: "strip_prefix w t \<noteq> None \<Longrightarrow> contains w t"
  by (cases t; cases w) simp_all

lemma contains_dropWhile: "contains w (dropWhile P t) \<Longrightarrow> contains w t"
  by (induction t) (auto split: if_splits)

lemma contains_after_prefix: "strip_prefix p t = Some t1 \<Longrightarrow> contains w t1 \<Longrightarrow> contains w t"
proof (induction p t rule: strip_prefix.induct)
  case (1 t)
  then show ?case by simp
next
  case (2 p ps)
  then show ?case by simp
next
  case (3 p ps c cs)
  then show ?case by (auto split: if_splits)
qed

lemma match_here_contains: "match_here t = Some g \<Longrightarrow> contains ''@plugin'' t"
proof -
  assume m: "match_here t = Some g"
  then obtain t1 where t1: "strip_prefix ''/*'' t = Some t1"
    by (auto simp: match_here_def split: option.splits)
  with m have "strip_prefix ''@plugin'' (skip_spaces t1) \<noteq> None"
    by (auto simp: match_here_def split: option.splits)
  then have "contains ''@plugin'' (skip_spaces t1)" by (rule strip_prefix_contains)
  then have "contains ''@plugin'' t1" unfolding skip_spaces_def by (rule contains_dropWhile)
  with t1 show ?thesis by (rule contains_after_prefix)
qed

lemma plugin_match_contains: "plugin_match t = Some g \<Longrightarrow> contains ''@plugin'' t"
proof (induction t)
  case Nil
  then show ?case by simp
next
  case (Cons c cs)
  show ?case
  proof (cases "match_here (c # cs)")
    case None
    with Cons have "contains ''@plugin'' cs" by simp
    then show ?thesis by simp
  next
    case (Some g')
    then have "contains ''@plugin'' (c # cs)" by (rule match_here_contains)
    then show ?thesis .
  qed
qed

subsection \<open>A block of plain fields\<close>

lemma lazy_body_first:
  "CHR ''}'' \<notin> set w \<Longrightarrow> closes rest \<Longrightarrow> lazy_body (w @ CHR ''}'' # rest) = Some (w @ [CHR ''}''])"
  by (induction w) auto

lemma hex_digit_no_brace: "d < 16 \<Longrightarrow> CHR ''}'' \<noteq> hex_digit d"
proof -
  assume "d < 16"
  then consider "d = 0" | "d = 1" | "d = 2" | "d = 3" | "d = 4" | "d = 5" | "d = 6" | "d = 7"
    | "d = 8" | "d = 9" | "d = 10" | "d = 11" | "d = 12" | "d = 13" | "d = 14" | "d = 15"
    by atomize_elim arith
  then show ?thesis by cases (simp_all add: hex_digit_def)
qed

lemma char_of_brace: "(n::nat) < 256 \<Longrightarrow> (CHR ''}'' = char_of n) = (n = 0x7D)"
  using char_of_eq_iff [of n "CHR ''}''"] by (auto simp: take_bit_eq_mod)

lemma quote_unit_no_brace: "n \<noteq> 0x7D \<Longrightarrow> CHR ''}'' \<notin> set (quote_unit n)"
proof (cases "n < 32 \<or> 256 \<le> n")
  case True
  then show ?thesis by (simp add: quote_unit_def hex4_def hex_digit_no_brace)
next
  case False
  assume "n \<noteq> 0x7D"
  with False show ?thesis by (simp add: quote_unit_def char_of_brace)
qed

lemma quote_string_no_brace:
  "list_all (\<lambda>n. n \<noteq> 0x7D) u \<Longrightarrow> CHR ''}'' \<notin> set (quote_string u)"
proof -
  assume a: "list_all (\<lambda>n. n \<noteq> 0x7D) u"
  then have "CHR ''}'' \<notin> set (concat (map quote_unit u))"
    by (induction u) (simp_all add: quote_unit_no_brace)
  then show ?thesis by (simp add: quote_string_def)
qed

lemma plain_field_parts:
  "plain_field u \<Longrightarrow> units_ok u"
  "plain_field u \<Longrightarrow> list_all (\<lambda>n. n \<noteq> 0x7D) u"
  by (simp_all add: plain_field_def units_ok_def list_all_iff)

lemma name_units_plain:
  "plain_field (units ''name'')" "plain_field (units ''version'')"
  "plain_field (units ''author'')" "plain_field (units ''description'')"
  by (simp_all add: plain_field_def units_def)

lemma metadata_value_storable:
  assumes "plain_field x" "plain_field v" "plain_field a" "plain_field d"
  shows "storable (metadata_value x v a d)"
proof -
  have "distinct [units ''name'', units ''version'', units ''author'', units ''description'']"
    by (simp add: units_def)
  with assms name_units_plain show ?thesis
    by (simp add: metadata_value_def plain_field_parts(1))
qed

lemma metadata_text:
  assumes "plain_field x" "plain_field v" "plain_field a" "plain_field d"
  shows "\<exists>w. JSON_stringify (metadata_value x v a d) = CHR ''{'' # w @ [CHR ''}''] \<and> CHR ''}'' \<notin> set w"
proof -
  let ?w = "quote_string (units ''name'') @ '':'' @ quote_string x @ '','' @
            quote_string (units ''version'') @ '':'' @ quote_string v @ '','' @
            quote_string (units ''author'') @ '':'' @ quote_string a @ '','' @
            quote_string (units ''description'') @ '':'' @ quote_string d"
  have "JSON_stringify (metadata_value x v a d) = CHR ''{'' # ?w @ [CHR ''}'']"
    by (simp add: metadata_value_def)
  moreover have "CHR ''}'' \<notin> set ?w"
    using assms name_units_plain by (simp add: quote_string_no_brace plain_field_parts(2))
  ultimately show ?thesis by blast
qed

lemma match_here_metadata_block:
  assumes "plain_field x" "plain_field v" "plain_field a" "plain_field d"
  shows "match_here (metadata_block x v a d @ post) = Some (JSON_stringify (metadata_value x v a d))"
proof -
  from metadata_text [OF assms] obtain w where
    w: "JSON_stringify (metadata_value x v a d) = CHR ''{'' # w @ [CHR ''}'']" "CHR ''}'' \<notin> set w"
    by blast
  have cl: "closes ('' */'' @ post)" by (simp add: closes_def skip_spaces_def is_space_def)
  from lazy_body_first [OF w(2) cl] show ?thesis
    by (simp add: metadata_block_def w(1) match_here_def skip_spaces_def is_space_def)
qed

lemma plugin_match_metadata_block:
  assumes "plain_field x" "plain_field v" "plain_field a" "plain_field d"
  shows "plugin_match (metadata_block x v a d @ post) = Some (JSON_stringify (metadata_value x v a d))"
proof -
  obtain c cs where "metadata_block x v a d @ post = c # cs" by (simp add: metadata_block_def)
  then show ?thesis using match_here_metadata_block [OF assms, of post] by simp
qed

lemma block_text_metadata_block:
  "block_text = metadata_block (units ''X'') (units ''1.0.0'') (units ''A'') (units ''D'')"
  by code_simp

lemma block_value_metadata_value:
  "block_value = metadata_value (units ''X'') (units ''1.0.0'') (units ''A'') (units ''D'')"
  by (simp add: block_value_def metadata_value_def)

lemma block_fields_plain:
  "plain_field (units ''X'')" "plain_field (units ''1.0.0'')" "plain_field (units ''A'')"
  "plain_field (units ''D'')"
  by (simp_all add: units_def plain_field_def)

text \<open>a field with a closing brace before white space and the end of a comment cuts the group short\<close>

lemma metadata_block_brace:
  "extractPluginMetadata (metadata_block (units ''X'') (units ''1.0.0'') (units ''A'') (units ''} */''))
   = (None, [Err ''Invalid plugin metadata:'' ''SyntaxError''])"
  by code_simp

subsection \<open>Registration\<close>

lemma loadPluginMetadata_registers:
  "readFile (pluginDirectory @ ''/'' @ p) s = Some content \<Longrightarrow>
   extractPluginMetadata content = (Some v, l) \<Longrightarrow> truthy v \<Longrightarrow>
   map_of (plugins (loadPluginMetadata p s)) p = Some v"
  by (simp add: loadPluginMetadata_def update_conv')

lemma loadPluginMetadata_skips:
  "readFile (pluginDirectory @ ''/'' @ p) s = Some content \<Longrightarrow>
   fst (extractPluginMetadata content) = None \<Longrightarrow>
   plugins (loadPluginMetadata p s) = plugins s"
  by (cases "extractPluginMetadata content") (simp add: loadPluginMetadata_def)

lemma loadPluginMetadata_unreadable:
  "readFile (pluginDirectory @ ''/'' @ p) s = None \<Longrightarrow> plugins (loadPluginMetadata p s) = plugins s"
  by (simp add: loadPluginMetadata_def console_add_def)

text \<open>
  Claim C4, as the program has it. The pattern takes the leftmost place where it matches,
  and its group ends at the first closing brace that white space and the end of a comment
  follow. So a text that holds the block of four plain fields, with the pattern matching
  nowhere before it, yields the four fields of the block, whatever follows, and the module
  is registered under its path with that value. A text in which \<^verbatim>\<open>@plugin\<close> does not
  occur has no match. And when there is no match, or the group of the first match is not
  JSON, extraction returns nothing and the metadata map stays as it was; so it does when
  the file cannot be read. All of these are results of total functions: nothing escapes.
\<close>

theorem metadata_extraction:
  "(plain_field x \<and> plain_field v \<and> plain_field a \<and> plain_field d \<longrightarrow>
    (\<forall>i<length pre. match_here (drop i (pre @ metadata_block x v a d @ post)) = None) \<longrightarrow>
      extractPluginMetadata (pre @ metadata_block x v a d @ post) = (Some (metadata_value x v a d), [])
      \<and> (readFile (pluginDirectory @ ''/'' @ p) s = Some (pre @ metadata_block x v a d @ post) \<longrightarrow>
           map_of (plugins (loadPluginMetadata p s)) p = Some (metadata_value x v a d)))
   \<and> (\<not> contains ''@plugin'' content \<longrightarrow> plugin_match content = None)
   \<and> (plugin_match content = None
        \<or> (\<exists>payload. plugin_match content = Some payload \<and> JSON_parse payload = None) \<longrightarrow>
          fst (extractPluginMetadata content) = None
          \<and> (readFile (pluginDirectory @ ''/'' @ p) s = Some content \<longrightarrow>
               plugins (loadPluginMetadata p s) = plugins s))
   \<and> (readFile (pluginDirectory @ ''/'' @ p) s = None \<longrightarrow>
          plugins (loadPluginMetadata p s) = plugins s)"
proof -
  let ?block = "metadata_block x v a d"
  let ?meta = "metadata_value x v a d"
  have a: "extractPluginMetadata (pre @ ?block @ post) = (Some ?meta, [])"
    if f: "plain_field x \<and> plain_field v \<and> plain_field a \<and> plain_field d"
      and n: "\<forall>i<length pre. match_here (drop i (pre @ ?block @ post)) = None"
  proof -
    from n have "plugin_match (pre @ ?block @ post) = plugin_match (?block @ post)"
      by (rule plugin_match_skip)
    moreover from f have "plugin_match (?block @ post) = Some (JSON_stringify ?meta)"
      by (simp add: plugin_match_metadata_block)
    moreover from f have "JSON_parse (JSON_stringify ?meta) = Some ?meta"
      by (simp add: JSON_round_trip metadata_value_storable)
    ultimately show ?thesis by (simp add: extractPluginMetadata_def)
  qed
  have tv: "truthy ?meta" by (simp add: metadata_value_def)
  have b: "map_of (plugins (loadPluginMetadata p s)) p = Some ?meta"
    if "plain_field x \<and> plain_field v \<and> plain_field a \<and> plain_field d"
       "\<forall>i<length pre. match_here (drop i (pre @ ?block @ post)) = None"
       "readFile (pluginDirectory @ ''/'' @ p) s = Some (pre @ ?block @ post)"
    using loadPluginMetadata_registers [OF that(3) a [OF that(1,2)] tv] .
  have c: "plugin_match content = None" if "\<not> contains ''@plugin'' content"
    using that plugin_match_contains [of content] by (cases "plugin_match content") auto
  have d: "fst (extractPluginMetadata content) = None"
    if "plugin_match content = None
        \<or> (\<exists>payload. plugin_match content = Some payload \<and> JSON_parse payload = None)"
    using that by (auto simp: extractPluginMetadata_def)
  have e: "plugins (loadPluginMetadata p s) = plugins s"
    if "plugin_match content = None
        \<or> (\<exists>payload. plugin_match content = Some payload \<and> JSON_parse payload = None)"
       "readFile (pluginDirectory @ ''/'' @ p) s = Some content"
    using loadPluginMetadata_skips [OF that(2) d [OF that(1)]] .
  have f: "plugins (loadPluginMetadata p s) = plugins s"
    if "readFile (pluginDirectory @ ''/'' @ p) s = None"
    using that by (rule loadPluginMetadata_unreadable)
  from a b c d e f show ?thesis by blast
qed


lemma demo_pre_no_match:
  "\<forall>i<length (''// x'' @ [CHR 0x0A]). match_here (drop i ((''// x'' @ [CHR 0x0A]) @ block_text @ post)) = None"
proof (intro allI impI)
  fix i :: nat assume "i < length (''// x'' @ [CHR 0x0A])"
  then have "i = 0 \<or> i = 1 \<or> i = 2 \<or> i = 3 \<or> i = 4" by auto
  then show "match_here (drop i ((''// x'' @ [CHR 0x0A]) @ block_text @ post)) = None"
    by (elim disjE) (simp_all add: match_here_def block_text_def skip_spaces_def is_space_def)
qed

lemma demo_files:
  "readFile (pluginDirectory @ ''/'' @ ''demo.js'') demo_sources = Some src_with_block"
  "readFile (pluginDirectory @ ''/'' @ ''plain.js'') demo_sources = Some src_plain"
  "readFile (pluginDirectory @ ''/'' @ ''draft.js'') demo_sources = Some src_draft"
  "readFile (pluginDirectory @ ''/'' @ ''two.js'') demo_sources = Some src_two_blocks"
  "readFile (pluginDirectory @ ''/'' @ ''missing.js'') demo_sources = None"
  "plugins demo_sources = []"
  by (simp_all add: readFile_def pluginDirectory_def demo_sources_def demo_system_def)

lemma src_plain_no_marker: "\<not> contains ''@plugin'' src_plain"
  by (simp add: src_plain_def)

lemma src_draft_match: "plugin_match src_draft = Some ''{draft}''"
  by (simp add: src_draft_def match_here_def skip_spaces_def is_space_def closes_def)

lemma draft_not_json: "JSON_parse ''{draft}'' = None"
  by code_simp

text \<open>
  Four files: the block of the claim after a line comment, a source without a marker, a marker that
  holds no JSON, and a file that is not there.
\<close>

theorem metadata_extraction_witness:
  "extractPluginMetadata src_with_block = (Some block_value, [])
   \<and> map_of (plugins (loadPluginMetadata ''demo.js'' demo_sources)) ''demo.js'' = Some block_value
   \<and> plugin_match src_plain = None
   \<and> plugins (loadPluginMetadata ''plain.js'' demo_sources) = []
   \<and> fst (extractPluginMetadata src_draft) = None
   \<and> plugins (loadPluginMetadata ''draft.js'' demo_sources) = []
   \<and> plugins (loadPluginMetadata ''missing.js'' demo_sources) = []"
proof -
  let ?pre = "''// x'' @ [CHR 0x0A]"
  let ?post = "[CHR 0x0A] @ ''exports.init = async function(api) {};''"
  have src: "src_with_block = ?pre @ block_text @ ?post" by (simp add: src_with_block_def)
  note t1 = metadata_extraction [where x = "units ''X''" and v = "units ''1.0.0''" and a = "units ''A''"
      and d = "units ''D''" and pre = ?pre and post = ?post and p = "''demo.js''" and s = demo_sources
      and content = src_plain, folded block_text_metadata_block block_value_metadata_value]
  from t1 block_fields_plain demo_pre_no_match [of ?post] demo_files(1) src
  have a: "extractPluginMetadata src_with_block = (Some block_value, [])"
          "map_of (plugins (loadPluginMetadata ''demo.js'' demo_sources)) ''demo.js'' = Some block_value"
    by simp_all
  note t2 = metadata_extraction [where p = "''plain.js''" and s = demo_sources and content = src_plain]
  from t2 src_plain_no_marker have b1: "plugin_match src_plain = None" by blast
  with t2 demo_files(2,6) have b2: "plugins (loadPluginMetadata ''plain.js'' demo_sources) = []" by simp
  note t3 = metadata_extraction [where p = "''draft.js''" and s = demo_sources and content = src_draft]
  from t3 src_draft_match draft_not_json demo_files(3,6)
  have c: "fst (extractPluginMetadata src_draft) = None"
          "plugins (loadPluginMetadata ''draft.js'' demo_sources) = []" by simp_all
  note t4 = metadata_extraction [where p = "''missing.js''" and s = demo_sources and content = src_plain]
  from t4 demo_files(5,6) have d: "plugins (loadPluginMetadata ''missing.js'' demo_sources) = []" by simp
  from a b1 b2 c d show ?thesis by simp
qed

lemma src_two_blocks_match: "plugin_match src_two_blocks = Some ''{draft}''"
  by (simp add: src_two_blocks_def match_here_def skip_spaces_def is_space_def closes_def)

text \<open>
  The claim as stated promises the four fields for every text that contains the block.
  This text contains it, after an earlier marker whose content is not JSON; the pattern
  matches the earlier one, the parse fails, and the module is not registered.
\<close>

theorem metadata_extraction_counterexample:
  "src_two_blocks = src_draft @ [CHR 0x0A] @ block_text
   \<and> extractPluginMetadata src_two_blocks = (None, [Err ''Invalid plugin metadata:'' ''SyntaxError''])
   \<and> plugins (loadPluginMetadata ''two.js'' demo_sources) = []"
proof -
  have a: "src_two_blocks = src_draft @ [CHR 0x0A] @ block_text"
    by (simp add: src_two_blocks_def src_draft_def)
  have b: "extractPluginMetadata src_two_blocks = (None, [Err ''Invalid plugin metadata:'' ''SyntaxError''])"
    by (simp add: extractPluginMetadata_def src_two_blocks_match draft_not_json)
  have c: "plugins (loadPluginMetadata ''two.js'' demo_sources) = []"
    using loadPluginMetadata_skips [OF demo_files(4)] b demo_files(6) by simp
  from a b c show ?thesis by simp
qed


section \<open>Properties of the plugin storage\<close>

lemma JSON_parse_empty: "JSON_parse [] = None"
  by (simp add: JSON_parse_def lex_def lex_end_def parse_tokens_def)

lemma setPluginStorage_True:
  "setPluginStorage k (Plain v) st = (True, st', l) \<Longrightarrow>
     accessible st' \<and> map_of (items st') (''plugin_'' @ k) = Some (JSON_stringify v) \<and> l = []"
  by (auto simp: setPluginStorage_def stringify_value_def setItem_def update_conv' split: if_splits)

lemma setPluginStorage_other:
  "setPluginStorage k' w st = (True, st', l) \<Longrightarrow> k' \<noteq> k \<Longrightarrow>
     accessible st' = accessible st \<and> map_of (items st') (''plugin_'' @ k) = map_of (items st) (''plugin_'' @ k)"
  by (auto simp: setPluginStorage_def stringify_value_def setItem_def update_conv'
      split: if_splits sum.splits storage_value.splits)

text \<open>
  Claim C10. If \<^verbatim>\<open>setPluginStorage\<close> returns true for a value of JSON, a following
  \<^verbatim>\<open>getPluginStorage\<close> of the same key returns that value. A key with no item reads as \<^verbatim>\<open>null\<close>. When the storage is out of reach the
  one returns \<^verbatim>\<open>null\<close> and the other false; a failed store leaves the storage as it
  was; and storing under one key does not change what another key reads. Both operations
  are total: they return, whatever the storage does.
\<close>

theorem storage_round_trip:
  "(setPluginStorage k (Plain v) st = (True, st', l) \<longrightarrow> storable v \<longrightarrow>
       getPluginStorage k st' = (v, []))
   \<and> (accessible st \<longrightarrow> map_of (items st) (''plugin_'' @ k) = None \<longrightarrow>
       getPluginStorage k st = (JNull, []))
   \<and> (\<not> accessible st \<longrightarrow>
       fst (getPluginStorage k st) = JNull \<and> fst (setPluginStorage k w st) = False)
   \<and> (fst (setPluginStorage k w st) = False \<longrightarrow> fst (snd (setPluginStorage k w st)) = st)
   \<and> (setPluginStorage k' w st = (True, st', l) \<longrightarrow> k' \<noteq> k \<longrightarrow>
       getPluginStorage k st' = getPluginStorage k st)"
proof -
  have a: "getPluginStorage k st' = (v, [])"
    if s: "setPluginStorage k (Plain v) st = (True, st', l)" and sv: "storable v"
  proof -
    from sv have r: "JSON_parse (JSON_stringify v) = Some v" by (rule JSON_round_trip)
    from r have ne: "JSON_stringify v \<noteq> []" using JSON_parse_empty by auto
    from setPluginStorage_True [OF s] ne r show ?thesis
      by (simp add: getPluginStorage_def getItem_def)
  qed
  have b: "getPluginStorage k st = (JNull, [])"
    if "accessible st" "map_of (items st) (''plugin_'' @ k) = None"
    using that by (simp add: getPluginStorage_def getItem_def)
  have c: "fst (getPluginStorage k st) = JNull \<and> fst (setPluginStorage k w st) = False"
    if "\<not> accessible st"
    using that by (simp add: getPluginStorage_def getItem_def setPluginStorage_def setItem_def
        split: sum.splits)
  have d: "fst (snd (setPluginStorage k w st)) = st" if "fst (setPluginStorage k w st) = False"
    using that by (auto simp: setPluginStorage_def split: sum.splits)
  have e: "getPluginStorage k st' = getPluginStorage k st"
    if "setPluginStorage k' w st = (True, st', l)" "k' \<noteq> k"
    using setPluginStorage_other [OF that] by (simp add: getPluginStorage_def getItem_def)
  from a b c d e show ?thesis by blast
qed


lemma demo_value_storable: "storable demo_value"
  by (simp add: demo_value_def units_ok_def units_def normal_def)

lemma demo_value_stored: "fst (setPluginStorage ''k'' (Plain demo_value) empty_storage) = True"
  by code_simp

text \<open>Storing a nested value in an empty storage and reading it back, and the failures.\<close>

theorem storage_round_trip_witness:
  "fst (setPluginStorage ''k'' (Plain demo_value) empty_storage) = True
   \<and> getPluginStorage ''k'' (fst (snd (setPluginStorage ''k'' (Plain demo_value) empty_storage)))
       = (demo_value, [])
   \<and> getPluginStorage ''other'' (fst (snd (setPluginStorage ''k'' (Plain demo_value) empty_storage)))
       = (JNull, [])
   \<and> fst (getPluginStorage ''k'' (empty_storage\<lparr>accessible := False\<rparr>)) = JNull
   \<and> fst (setPluginStorage ''k'' (Plain demo_value) (empty_storage\<lparr>quota := 10\<rparr>)) = False
   \<and> fst (snd (setPluginStorage ''k'' (Plain demo_value) (empty_storage\<lparr>quota := 10\<rparr>)))
       = empty_storage\<lparr>quota := 10\<rparr>"
proof -
  obtain b st' l where s: "setPluginStorage ''k'' (Plain demo_value) empty_storage = (b, st', l)"
    by (cases "setPluginStorage ''k'' (Plain demo_value) empty_storage")
  with demo_value_stored have b: "b = True" by simp
  note t = storage_round_trip [of "''k''" demo_value empty_storage st' l "Plain demo_value" "''k''"]
  from t s b demo_value_storable have a1: "getPluginStorage ''k'' st' = (demo_value, [])" by simp
  have e: "accessible empty_storage" "map_of (items empty_storage) (''plugin_'' @ ''other'') = None"
    by (simp_all add: empty_storage_def)
  note t2 = storage_round_trip [of "''other''" demo_value empty_storage st' l "Plain demo_value" "''k''"]
  from t2 s b e have a2: "getPluginStorage ''other'' st' = (JNull, [])" by simp
  note t3 = storage_round_trip [of "''k''" demo_value "empty_storage\<lparr>accessible := False\<rparr>" st' l
      "Plain demo_value" "''k''"]
  from t3 have a3: "fst (getPluginStorage ''k'' (empty_storage\<lparr>accessible := False\<rparr>)) = JNull" by simp
  have f: "fst (setPluginStorage ''k'' (Plain demo_value) (empty_storage\<lparr>quota := 10\<rparr>)) = False"
    by code_simp
  note t4 = storage_round_trip [of "''k''" demo_value "empty_storage\<lparr>quota := 10\<rparr>" st' l
      "Plain demo_value" "''k''"]
  from t4 f have a4: "fst (snd (setPluginStorage ''k'' (Plain demo_value) (empty_storage\<lparr>quota := 10\<rparr>)))
       = empty_storage\<lparr>quota := 10\<rparr>" by simp
  from s b a1 a2 a3 f a4 show ?thesis by simp
qed

end
